(* ===== verification/Prelude.thy ===== *)
theory Prelude
  imports Main
begin

text \<open>
  Generic material every component shares: programs that read and write a world and may
  return an error (the Go idiom \<open>x, err := f()\<close>), the invariants such programs keep, and
  the theorem collections the component proofs simplify with.
\<close>

section \<open>Theorem collections\<close>

named_theorems prog_simps \<open>inversion of the program combinators\<close>
named_theorems keeps_intros \<open>rules that a program keeps an invariant\<close>
named_theorems sql_defs \<open>definitions of the SQL statements\<close>
named_theorems run_rules \<open>conditional rules that run a program on a concrete world\<close>
named_theorems run_congs \<open>congruence rules that keep the continuations out of the simplifier's way\<close>

section \<open>Programs\<close>

text \<open>
  A Go function that may fail and has effects is a function from the world to its result
  (\<open>Inl\<close> the error, \<open>Inr\<close> the value) and the world it leaves.
\<close>

type_synonym ('w, 'e, 'a) prog = "'w \<Rightarrow> ('e + 'a) \<times> 'w"

definition ret :: "'a \<Rightarrow> ('w, 'e, 'a) prog" where
  "ret x w = (Inr x, w)"

definition fail :: "'e \<Rightarrow> ('w, 'e, 'a) prog" where
  "fail e w = (Inl e, w)"

text \<open>\<open>x, err := m; if err != nil { return nil, err }; k\<close>\<close>

definition call :: "('w, 'e, 'a) prog \<Rightarrow> ('a \<Rightarrow> ('w, 'e, 'b) prog) \<Rightarrow> ('w, 'e, 'b) prog" where
  "call m k w = (case m w of (Inl e, w') \<Rightarrow> (Inl e, w') | (Inr x, w') \<Rightarrow> k x w')"

text \<open>\<open>x, err := m; k\<close>, where \<open>k\<close> looks at both.\<close>

definition attempt ::
    "('w, 'e, 'a) prog \<Rightarrow> ('e + 'a \<Rightarrow> ('w, 'f, 'b) prog) \<Rightarrow> ('w, 'f, 'b) prog" where
  "attempt m k w = (case m w of (r, w') \<Rightarrow> k r w')"

lemma ret_eq [prog_simps]: "ret x w = (r, w') \<longleftrightarrow> r = Inr x \<and> w' = w"
  by (auto simp: ret_def)

lemma fail_eq [prog_simps]: "fail e w = (r, w') \<longleftrightarrow> r = Inl e \<and> w' = w"
  by (auto simp: fail_def)

lemma call_Inr [prog_simps]:
  "call m k w = (Inr y, w') \<longleftrightarrow> (\<exists>x w1. m w = (Inr x, w1) \<and> k x w1 = (Inr y, w'))"
  by (auto simp: call_def split: prod.splits sum.splits)

lemma call_Inl [prog_simps]:
  "call m k w = (Inl e, w') \<longleftrightarrow>
     m w = (Inl e, w') \<or> (\<exists>x w1. m w = (Inr x, w1) \<and> k x w1 = (Inl e, w'))"
  by (auto simp: call_def split: prod.splits sum.splits)

lemma attempt_eq [prog_simps]:
  "attempt m k w = (r, w') \<longleftrightarrow>
     (\<exists>x w1. m w = (Inl x, w1) \<and> k (Inl x) w1 = (r, w')) \<or>
     (\<exists>y w1. m w = (Inr y, w1) \<and> k (Inr y) w1 = (r, w'))"
  by (cases "m w"; cases "fst (m w)") (auto simp: attempt_def)

lemma call_step: "m w = (Inr x, w1) \<Longrightarrow> call m k w = k x w1"
  by (simp add: call_def)

lemma call_stop: "m w = (Inl e, w1) \<Longrightarrow> call m k w = (Inl e, w1)"
  by (simp add: call_def)

lemma attempt_step: "m w = (r, w1) \<Longrightarrow> attempt m k w = k r w1"
  by (simp add: attempt_def)

lemma call_ret_left [simp]: "call (ret x) k = k x"
  by (rule ext) (simp add: call_def ret_def)

lemma call_fail_left [simp]: "call (fail e) k = fail e"
  by (rule ext) (simp add: call_def fail_def)

section \<open>Running a program\<close>

text \<open>
  On a concrete world a program is run by conditional rewriting: the statement first, then the
  continuation at its result. The congruences stop the simplifier from entering a continuation
  before it is reached.
\<close>

lemma call_run [run_rules]:
  "m w = (Inr x, w1) \<Longrightarrow> call m k w = k x w1"
  "m w = (Inl f, w1) \<Longrightarrow> call m k w = (Inl f, w1)"
  by (simp_all add: call_def)

lemma attempt_run [run_rules]: "m w = (r, w1) \<Longrightarrow> attempt m k w = k r w1"
  by (simp add: attempt_def)

lemma ret_run [run_rules]: "ret x w = (Inr x, w)"
  by (simp add: ret_def)

lemma fail_run [run_rules]: "fail e w = (Inl e, w)"
  by (simp add: fail_def)

lemma call_cong_run [run_congs]: "w = w' \<Longrightarrow> call m k w = call m k w'"
  by simp

lemma attempt_cong_run [run_congs]: "w = w' \<Longrightarrow> attempt m k w = attempt m k w'"
  by simp

declare option.case_cong_weak [run_congs] sum.case_cong_weak [run_congs]

section \<open>Invariants of programs\<close>

text \<open>\<open>keeps I m\<close>: whatever \<open>m\<close> returns, it leaves \<open>I\<close> true if it found it true.\<close>

definition keeps :: "('w \<Rightarrow> bool) \<Rightarrow> ('w, 'e, 'a) prog \<Rightarrow> bool" where
  "keeps I m \<longleftrightarrow> (\<forall>w. I w \<longrightarrow> I (snd (m w)))"

definition frame :: "('w \<Rightarrow> 'c) \<Rightarrow> ('w, 'e, 'a) prog \<Rightarrow> bool" where
  "frame f m \<longleftrightarrow> (\<forall>w. f (snd (m w)) = f w)"

lemma keepsI: "(\<And>w r w'. I w \<Longrightarrow> m w = (r, w') \<Longrightarrow> I w') \<Longrightarrow> keeps I m"
  unfolding keeps_def by (metis prod.collapse)

lemma keepsD: "keeps I m \<Longrightarrow> I w \<Longrightarrow> m w = (r, w') \<Longrightarrow> I w'"
  by (auto simp: keeps_def dest!: spec[of _ w])

lemma frame_keeps: "frame f m \<longleftrightarrow> (\<forall>c. keeps (\<lambda>w. f w = c) m)"
  by (auto simp: frame_def keeps_def)

lemma frameI: "(\<And>c. keeps (\<lambda>w. f w = c) m) \<Longrightarrow> frame f m"
  by (simp add: frame_keeps)

lemma frameD: "frame f m \<Longrightarrow> m w = (r, w') \<Longrightarrow> f w' = f w"
  by (auto simp: frame_def dest: spec[of _ w])

lemma keeps_of_frame: "frame f m \<Longrightarrow> keeps (\<lambda>w. P (f w)) m"
  by (auto simp: frame_def keeps_def)

lemma keeps_ret [keeps_intros]: "keeps I (ret x)"
  by (simp add: keeps_def ret_def)

lemma keeps_fail [keeps_intros]: "keeps I (fail e)"
  by (simp add: keeps_def fail_def)

lemma keeps_call [keeps_intros]:
  "keeps I m \<Longrightarrow> (\<And>x. keeps I (k x)) \<Longrightarrow> keeps I (call m k)"
  by (rule keepsI) (auto simp: call_def dest: keepsD split: prod.splits sum.splits)

lemma keeps_attempt [keeps_intros]:
  "keeps I m \<Longrightarrow> (\<And>r. keeps I (k r)) \<Longrightarrow> keeps I (attempt m k)"
  by (rule keepsI) (auto simp: attempt_def dest: keepsD split: prod.splits)

lemma keeps_if [keeps_intros]: "keeps I a \<Longrightarrow> keeps I b \<Longrightarrow> keeps I (if c then a else b)"
  by simp

lemma keeps_case_option [keeps_intros]:
  "keeps I a \<Longrightarrow> (\<And>x. keeps I (f x)) \<Longrightarrow> keeps I (case v of None \<Rightarrow> a | Some x \<Rightarrow> f x)"
  by (simp split: option.split)

lemma keeps_case_sum [keeps_intros]:
  "(\<And>x. keeps I (f x)) \<Longrightarrow> (\<And>y. keeps I (g y)) \<Longrightarrow>
   keeps I (case v of Inl x \<Rightarrow> f x | Inr y \<Rightarrow> g y)"
  by (simp split: sum.split)

lemma keeps_case_prod [keeps_intros]:
  "(\<And>x y. keeps I (f x y)) \<Longrightarrow> keeps I (case v of (x, y) \<Rightarrow> f x y)"
  by (simp split: prod.split)

lemma frame_call_ret: "frame f m \<Longrightarrow> frame f (call m (\<lambda>_. ret x))"
  unfolding frame_keeps by (blast intro: keeps_call keeps_ret)

section \<open>Lists\<close>

lemma map_update_where_id: "(\<And>x. x \<in> set xs \<Longrightarrow> P x \<Longrightarrow> f x = x) \<Longrightarrow>
    map (\<lambda>x. if P x then f x else x) xs = xs"
  by (induction xs) auto

lemma distinct_map_eq:
  "distinct (map f xs) \<Longrightarrow> x \<in> set xs \<Longrightarrow> y \<in> set xs \<Longrightarrow> f x = f y \<Longrightarrow> x = y"
  by (auto simp: distinct_map dest: inj_onD)

lemma find_Some_D: "find P xs = Some x \<Longrightarrow> x \<in> set xs \<and> P x"
  by (auto simp: find_Some_iff in_set_conv_nth)

lemma find_None_D: "find P xs = None \<Longrightarrow> x \<in> set xs \<Longrightarrow> \<not> P x"
  by (auto simp: find_None_iff)

lemma find_unique:
  assumes "x \<in> set xs" and "P x" and "\<And>y. y \<in> set xs \<Longrightarrow> P y \<Longrightarrow> y = x"
  shows "find P xs = Some x"
proof (cases "find P xs")
  case None
  then show ?thesis using assms(1,2) by (auto simp: find_None_iff)
next
  case (Some y)
  then show ?thesis using assms(3) find_Some_D[OF Some] by simp
qed

lemma find_append: "find P (xs @ ys) = (case find P xs of None \<Rightarrow> find P ys | Some x \<Rightarrow> Some x)"
  by (induction xs) auto

end
