(* ===== verification/Errors.thy ===== *)
theory Errors
  imports Prelude
begin

text \<open>
  The sentinel errors of every package, one datatype per \<open>errors.go\<close>, and the error type the
  programs return. An error of PostgreSQL is one of the three the code tells apart: no row,
  SQLSTATE 23505, anything else. \<open>Error_text\<close> is \<open>err.Error()\<close> of the sentinels the handlers
  send to the client.
\<close>

datatype user_err =
    EmailTaken | InvalidCredentials | UserNotFound | InvalidRefreshToken
  | ExpiredRefreshToken | InvalidEmail | InvalidPassword

datatype org_err =
    OrgNotFound | NotOrgMember | InsufficientPermissions | InvalidOrgName
  | InvalidInviteRole | InvalidInviteEmail | InviteNotFound | InviteExpired
  | InviteAlreadyAccepted | AlreadyOrgMember | InviteCodeNotFound | InviteCodeInactive

datatype svc_err =
    ServiceNotFound | APIKeyNotFound | APIKeyAlreadyRevoked | InvalidServiceName
  | ServiceNameTooLong | DuplicateServiceName | SvcNotOrgMember | SvcInsufficientPermissions

datatype auth_err =
    InvalidAPIKeyFormat | InvalidAPIKey | APIKeyRevoked | InvalidToken | ExpiredToken

datatype ai_err = AIRateLimited | BadResponse | ProviderFailure

datatype pg_err = NoRows | UniqueViolation | OtherPg string

datatype redis_err = RedisNil | RedisFail string

datatype err =
    UserE user_err | OrgE org_err | SvcE svc_err | AuthE auth_err | AiE ai_err
  | RateLimited | LogNotFound
  | PgE pg_err | RedisE redis_err | OtherE string

fun user_text :: "user_err \<Rightarrow> string" where
  "user_text EmailTaken = ''email already taken''"
| "user_text InvalidCredentials = ''invalid credentials''"
| "user_text UserNotFound = ''user not found''"
| "user_text InvalidRefreshToken = ''invalid refresh token''"
| "user_text ExpiredRefreshToken = ''refresh token expired''"
| "user_text InvalidEmail = ''invalid email format''"
| "user_text InvalidPassword = ''password must be at least 8 characters''"

fun org_text :: "org_err \<Rightarrow> string" where
  "org_text OrgNotFound = ''organization not found''"
| "org_text NotOrgMember = ''not an organization member''"
| "org_text InsufficientPermissions = ''insufficient permissions''"
| "org_text InvalidOrgName = ''organization name is required''"
| "org_text InvalidInviteRole = ''invalid invite role''"
| "org_text InvalidInviteEmail = ''invalid email format''"
| "org_text InviteNotFound = ''invite not found''"
| "org_text InviteExpired = ''invite expired''"
| "org_text InviteAlreadyAccepted = ''invite already accepted''"
| "org_text AlreadyOrgMember = ''already an organization member''"
| "org_text InviteCodeNotFound = ''invite code not found''"
| "org_text InviteCodeInactive = ''invite code is inactive''"

fun svc_text :: "svc_err \<Rightarrow> string" where
  "svc_text ServiceNotFound = ''service not found''"
| "svc_text APIKeyNotFound = ''api key not found''"
| "svc_text APIKeyAlreadyRevoked = ''api key already revoked''"
| "svc_text InvalidServiceName = ''service name is required''"
| "svc_text ServiceNameTooLong = ''service name must be at most 255 characters''"
| "svc_text DuplicateServiceName = ''service name already exists in this organization''"
| "svc_text SvcNotOrgMember = ''not an organization member''"
| "svc_text SvcInsufficientPermissions = ''insufficient permissions''"

text \<open>
  The idiom of every single-row query: \<open>if errors.Is(err, pgx.ErrNoRows) { return nil, e }\<close>
  and the same for a unique violation.
\<close>

definition on_no_rows :: "err \<Rightarrow> ('w, err, 'a) prog \<Rightarrow> ('w, err, 'a) prog" where
  "on_no_rows e m w = (case m w of (Inl (PgE NoRows), w') \<Rightarrow> (Inl e, w') | rw \<Rightarrow> rw)"

definition on_unique :: "err \<Rightarrow> ('w, err, 'a) prog \<Rightarrow> ('w, err, 'a) prog" where
  "on_unique e m w = (case m w of (Inl (PgE UniqueViolation), w') \<Rightarrow> (Inl e, w') | rw \<Rightarrow> rw)"

lemma on_no_rows_Inr [prog_simps]: "on_no_rows e m w = (Inr x, w') \<longleftrightarrow> m w = (Inr x, w')"
  by (auto simp: on_no_rows_def split: prod.splits sum.splits err.splits pg_err.splits)

lemma on_no_rows_Inl [prog_simps]:
  "on_no_rows e m w = (Inl f, w') \<longleftrightarrow>
     (m w = (Inl (PgE NoRows), w') \<and> f = e) \<or> (m w = (Inl f, w') \<and> f \<noteq> PgE NoRows)"
  by (auto simp: on_no_rows_def split: prod.splits sum.splits err.splits pg_err.splits)

lemma on_unique_Inr [prog_simps]: "on_unique e m w = (Inr x, w') \<longleftrightarrow> m w = (Inr x, w')"
  by (auto simp: on_unique_def split: prod.splits sum.splits err.splits pg_err.splits)

lemma on_unique_Inl [prog_simps]:
  "on_unique e m w = (Inl f, w') \<longleftrightarrow>
     (m w = (Inl (PgE UniqueViolation), w') \<and> f = e) \<or>
     (m w = (Inl f, w') \<and> f \<noteq> PgE UniqueViolation)"
  by (auto simp: on_unique_def split: prod.splits sum.splits err.splits pg_err.splits)

lemma on_no_rows_run [run_rules]:
  "m w = (Inr x, w1) \<Longrightarrow> on_no_rows e m w = (Inr x, w1)"
  "m w = (Inl f, w1) \<Longrightarrow> on_no_rows e m w = (Inl (if f = PgE NoRows then e else f), w1)"
  by (auto simp: on_no_rows_def split: err.splits pg_err.splits)

lemma on_unique_run [run_rules]:
  "m w = (Inr x, w1) \<Longrightarrow> on_unique e m w = (Inr x, w1)"
  "m w = (Inl f, w1) \<Longrightarrow> on_unique e m w = (Inl (if f = PgE UniqueViolation then e else f), w1)"
  by (auto simp: on_unique_def split: err.splits pg_err.splits)

lemma on_no_rows_cong_run [run_congs]: "w = w' \<Longrightarrow> on_no_rows e m w = on_no_rows e m w'"
  by simp

lemma on_unique_cong_run [run_congs]: "w = w' \<Longrightarrow> on_unique e m w = on_unique e m w'"
  by simp

lemma snd_on_no_rows [simp]: "snd (on_no_rows e m w) = snd (m w)"
  by (auto simp: on_no_rows_def split: prod.splits sum.splits err.splits pg_err.splits)

lemma snd_on_unique [simp]: "snd (on_unique e m w) = snd (m w)"
  by (auto simp: on_unique_def split: prod.splits sum.splits err.splits pg_err.splits)

lemma keeps_on_no_rows [keeps_intros]: "keeps I m \<Longrightarrow> keeps I (on_no_rows e m)"
  by (simp add: keeps_def)

lemma keeps_on_unique [keeps_intros]: "keeps I m \<Longrightarrow> keeps I (on_unique e m)"
  by (simp add: keeps_def)

end
