(* ===== verification/Go_Strings.thy ===== *)
theory Go_Strings
  imports Prelude "HOL-Library.Word" "HOL-Library.Sublist"
begin

text \<open>
  The functions of Go's standard library the program uses on strings and integers. A Go string
  is a sequence of bytes, so it is a \<open>string\<close> here (a list of 8-bit characters), and
  \<open>len\<close> is \<open>length\<close>. \<open>strings.TrimSpace\<close> removes the UTF-8 encodings of all Unicode
  spaces; \<open>utf8.RuneCountInString\<close> counts an invalid byte as one rune; \<open>int\<close> is 64 bits
  wide. The upper-case table beyond ASCII is a parameter of \<open>strings.ToUpper\<close>.
\<close>

section \<open>Prefixes and suffixes\<close>

definition HasPrefix :: "string \<Rightarrow> string \<Rightarrow> bool" where
  "HasPrefix s p = prefix p s"

definition TrimPrefix :: "string \<Rightarrow> string \<Rightarrow> string" where
  "TrimPrefix s p = (if prefix p s then drop (length p) s else s)"

definition TrimSuffix :: "string \<Rightarrow> string \<Rightarrow> string" where
  "TrimSuffix s p = (if suffix p s then take (length s - length p) s else s)"

text \<open>\<open>strings.CutPrefix\<close>: the rest, and whether the prefix was there.\<close>

definition CutPrefix :: "string \<Rightarrow> string \<Rightarrow> string \<times> bool" where
  "CutPrefix s p = (if prefix p s then (drop (length p) s, True) else (s, False))"

lemma CutPrefix_True: "CutPrefix s p = (r, True) \<longleftrightarrow> s = p @ r"
  by (auto simp: CutPrefix_def prefix_def split: if_splits)

section \<open>Searching for a byte\<close>

text \<open>The index of the first (last) occurrence of a byte, or -1.\<close>

fun IndexByte :: "string \<Rightarrow> char \<Rightarrow> int" where
  "IndexByte [] c = -1"
| "IndexByte (x # xs) c =
     (if x = c then 0 else (let i = IndexByte xs c in if i < 0 then -1 else i + 1))"

fun LastIndexByte :: "string \<Rightarrow> char \<Rightarrow> int" where
  "LastIndexByte [] c = -1"
| "LastIndexByte (x # xs) c =
     (let i = LastIndexByte xs c in if 0 \<le> i then i + 1 else if x = c then 0 else -1)"

lemma IndexByte_none: "IndexByte s c < 0 \<longleftrightarrow> c \<notin> set s"
  by (induction s) (auto simp: Let_def)

lemma IndexByte_minus1: "IndexByte s c < 0 \<longleftrightarrow> IndexByte s c = -1"
  by (induction s) (auto simp: Let_def)

lemma IndexByte_ge: "-1 \<le> IndexByte s c"
  by (induction s) (auto simp: Let_def)

lemma IndexByte_first:
  "0 \<le> IndexByte s c \<Longrightarrow>
     nat (IndexByte s c) < length s \<and> s ! nat (IndexByte s c) = c \<and>
     c \<notin> set (take (nat (IndexByte s c)) s)"
proof (induction s)
  case Nil
  then show ?case by simp
next
  case (Cons x xs)
  show ?case
  proof (cases "x = c")
    case True
    then show ?thesis by simp
  next
    case False
    with Cons.prems have "0 \<le> IndexByte xs c" by (auto simp: Let_def split: if_splits)
    with Cons.IH False show ?thesis by (auto simp: nat_add_distrib)
  qed
qed

lemma IndexByte_append: "c \<notin> set p \<Longrightarrow> IndexByte (p @ c # r) c = int (length p)"
  by (induction p) auto

lemma LastIndexByte_none: "LastIndexByte s c < 0 \<longleftrightarrow> c \<notin> set s"
  by (induction s) (auto simp: Let_def)

lemma LastIndexByte_last:
  "0 \<le> LastIndexByte s c \<Longrightarrow>
     nat (LastIndexByte s c) < length s \<and> s ! nat (LastIndexByte s c) = c \<and>
     c \<notin> set (drop (Suc (nat (LastIndexByte s c))) s)"
proof (induction s)
  case Nil
  then show ?case by simp
next
  case (Cons x xs)
  show ?case
  proof (cases "0 \<le> LastIndexByte xs c")
    case True
    with Cons.IH show ?thesis by (auto simp: nat_add_distrib)
  next
    case False
    with Cons.prems LastIndexByte_none[of xs c] show ?thesis
      by (auto simp: Let_def split: if_splits)
  qed
qed

section \<open>Splitting\<close>

text \<open>\<open>strings.Split(s, sep)\<close> for a one-byte separator.\<close>

fun Split :: "string \<Rightarrow> char \<Rightarrow> string list" where
  "Split [] c = [[]]"
| "Split (x # xs) c =
     (if x = c then [] # Split xs c
      else (case Split xs c of [] \<Rightarrow> [[x]] | y # ys \<Rightarrow> (x # y) # ys))"

text \<open>\<open>strings.Join\<close> with a one-byte separator.\<close>

fun Join :: "string list \<Rightarrow> char \<Rightarrow> string" where
  "Join [] c = []"
| "Join [x] c = x"
| "Join (x # y # ys) c = x @ c # Join (y # ys) c"

lemma Split_nonempty [simp]: "Split s c \<noteq> []"
  by (induction s) (auto split: list.splits)

lemma Split_no_sep: "p \<in> set (Split s c) \<Longrightarrow> c \<notin> set p"
  by (induction s arbitrary: p) (fastforce split: if_splits list.splits)+

lemma Join_Split: "Join (Split s c) c = s"
proof (induction s)
  case Nil
  then show ?case by simp
next
  case (Cons x xs)
  obtain y ys where "Split xs c = y # ys" by (cases "Split xs c") auto
  with Cons show ?case by (cases ys) auto
qed

lemma Split_single: "c \<notin> set s \<Longrightarrow> Split s c = [s]"
  by (induction s) auto

lemma Split_append: "c \<notin> set p \<Longrightarrow> Split (p @ c # r) c = p # Split r c"
  by (induction p) auto

lemma Split_Join: "ps \<noteq> [] \<Longrightarrow> \<forall>p \<in> set ps. c \<notin> set p \<Longrightarrow> Split (Join ps c) c = ps"
  by (induction ps c rule: Join.induct) (auto simp: Split_single Split_append)

section \<open>White space\<close>

text \<open>The UTF-8 encodings of the runes for which \<open>unicode.IsSpace\<close> holds.\<close>

definition space_runes :: "string list" where
  "space_runes =
     [[CHR 0x20], [CHR 0x09], [CHR 0x0A], [CHR 0x0B], [CHR 0x0C], [CHR 0x0D],
      [CHR 0xC2, CHR 0x85], [CHR 0xC2, CHR 0xA0], [CHR 0xE1, CHR 0x9A, CHR 0x80],
      [CHR 0xE2, CHR 0x80, CHR 0x80], [CHR 0xE2, CHR 0x80, CHR 0x81],
      [CHR 0xE2, CHR 0x80, CHR 0x82], [CHR 0xE2, CHR 0x80, CHR 0x83],
      [CHR 0xE2, CHR 0x80, CHR 0x84], [CHR 0xE2, CHR 0x80, CHR 0x85],
      [CHR 0xE2, CHR 0x80, CHR 0x86], [CHR 0xE2, CHR 0x80, CHR 0x87],
      [CHR 0xE2, CHR 0x80, CHR 0x88], [CHR 0xE2, CHR 0x80, CHR 0x89],
      [CHR 0xE2, CHR 0x80, CHR 0x8A], [CHR 0xE2, CHR 0x80, CHR 0xA8],
      [CHR 0xE2, CHR 0x80, CHR 0xA9], [CHR 0xE2, CHR 0x80, CHR 0xAF],
      [CHR 0xE2, CHR 0x81, CHR 0x9F], [CHR 0xE3, CHR 0x80, CHR 0x80]]"

text \<open>Remove leading members of \<open>ps\<close> as long as there are any.\<close>

function strip_left :: "string list \<Rightarrow> string \<Rightarrow> string" where
  "strip_left ps s =
     (case find (\<lambda>p. p \<noteq> [] \<and> prefix p s) ps of
        None \<Rightarrow> s
      | Some p \<Rightarrow> strip_left ps (drop (length p) s))"
  by pat_completeness auto
termination
proof (relation "measure (length \<circ> snd)", goal_cases)
  case 1
  then show ?case by simp
next
  case (2 ps s p)
  then have "p \<noteq> []" and "prefix p s" by (auto dest: find_Some_D)
  then show ?case by (cases s; cases p) auto
qed

declare strip_left.simps [simp del]

definition TrimLeftSpace :: "string \<Rightarrow> string" where
  "TrimLeftSpace s = strip_left space_runes s"

definition TrimRightSpace :: "string \<Rightarrow> string" where
  "TrimRightSpace s = rev (strip_left (map rev space_runes) (rev s))"

definition TrimSpace :: "string \<Rightarrow> string" where
  "TrimSpace s = TrimRightSpace (TrimLeftSpace s)"

lemma strip_left_suffix: "suffix (strip_left ps s) s"
proof (induction ps s rule: strip_left.induct)
  case (1 ps s)
  show ?case
  proof (cases "find (\<lambda>p. p \<noteq> [] \<and> prefix p s) ps")
    case None
    then show ?thesis by (subst strip_left.simps) simp
  next
    case (Some p)
    with 1 have "suffix (strip_left ps (drop (length p) s)) (drop (length p) s)" by blast
    with Some show ?thesis
      by (subst strip_left.simps) (auto intro: suffix_order.trans suffix_drop)
  qed
qed

lemma strip_left_clean: "p \<in> set ps \<Longrightarrow> p \<noteq> [] \<Longrightarrow> \<not> prefix p (strip_left ps s)"
proof (induction ps s rule: strip_left.induct)
  case (1 ps s)
  show ?case
  proof (cases "find (\<lambda>p. p \<noteq> [] \<and> prefix p s) ps")
    case None
    then have "strip_left ps s = s" by (subst strip_left.simps) simp
    with None "1.prems" show ?thesis by (auto simp: find_None_iff)
  next
    case (Some q)
    with 1 show ?thesis by (subst strip_left.simps) auto
  qed
qed

lemma strip_left_id: "\<forall>p \<in> set ps. p \<noteq> [] \<longrightarrow> \<not> prefix p s \<Longrightarrow> strip_left ps s = s"
  by (subst strip_left.simps) (auto simp: find_None_iff split: option.split dest: find_Some_D)

definition trimmed :: "string \<Rightarrow> bool" where
  "trimmed s \<longleftrightarrow> list_all (\<lambda>p. \<not> prefix p s \<and> \<not> suffix p s) space_runes"

lemma TrimRightSpace_prefix: "prefix (TrimRightSpace s) s"
  using strip_left_suffix[of "map rev space_runes" "rev s"]
  by (simp add: TrimRightSpace_def suffix_to_prefix)

lemma trimmed_iff:
  "trimmed s \<longleftrightarrow> (\<forall>p \<in> set space_runes. \<not> prefix p s \<and> \<not> suffix p s)"
  by (simp add: trimmed_def list_all_iff)

lemma space_rune_nonempty: "p \<in> set space_runes \<Longrightarrow> p \<noteq> []"
  by (auto simp: space_runes_def)

lemma trimmed_TrimSpace [simp]: "trimmed (TrimSpace s)"
  unfolding trimmed_iff
proof (intro ballI conjI)
  fix p assume p: "p \<in> set space_runes"
  note ne = space_rune_nonempty[OF p]
  have "\<not> prefix p (TrimLeftSpace s)"
    unfolding TrimLeftSpace_def using p ne by (rule strip_left_clean)
  then show "\<not> prefix p (TrimSpace s)"
    unfolding TrimSpace_def using TrimRightSpace_prefix prefix_order.trans by blast
  have "\<not> prefix (rev p) (strip_left (map rev space_runes) (rev (TrimLeftSpace s)))"
    by (rule strip_left_clean) (use p ne in auto)
  then show "\<not> suffix p (TrimSpace s)"
    by (simp add: TrimSpace_def TrimRightSpace_def suffix_to_prefix)
qed

lemma TrimSpace_trimmed [simp]: "trimmed s \<Longrightarrow> TrimSpace s = s"
  unfolding TrimSpace_def TrimLeftSpace_def TrimRightSpace_def
  by (auto simp: trimmed_iff strip_left_id suffix_to_prefix)

lemma TrimSpace_idem: "TrimSpace (TrimSpace s) = TrimSpace s"
  by simp

lemma TrimSpace_length: "length (TrimSpace s) \<le> length s"
proof -
  have "length (TrimSpace s) \<le> length (TrimLeftSpace s)"
    unfolding TrimSpace_def by (rule prefix_length_le[OF TrimRightSpace_prefix])
  also have "\<dots> \<le> length s"
    unfolding TrimLeftSpace_def by (rule suffix_length_le[OF strip_left_suffix])
  finally show ?thesis .
qed

lemma TrimSpace_set: "set (TrimSpace s) \<subseteq> set s"
proof -
  have "set (TrimSpace s) \<subseteq> set (TrimLeftSpace s)"
    unfolding TrimSpace_def by (rule set_mono_prefix[OF TrimRightSpace_prefix])
  also have "\<dots> \<subseteq> set s"
    unfolding TrimLeftSpace_def by (rule set_mono_suffix[OF strip_left_suffix])
  finally show ?thesis .
qed

section \<open>Case\<close>

definition ascii :: "char \<Rightarrow> bool" where
  "ascii c \<longleftrightarrow> (of_char c :: nat) < 128"

definition ascii_upper :: "char \<Rightarrow> char" where
  "ascii_upper c =
     (let n = (of_char c :: nat) in if 97 \<le> n \<and> n \<le> 122 then char_of (n - 32) else c)"

text \<open>\<open>upper\<close> is the Unicode case table, used only when some byte is not ASCII.\<close>

definition ToUpper :: "(string \<Rightarrow> string) \<Rightarrow> string \<Rightarrow> string" where
  "ToUpper upper s = (if list_all ascii s then map ascii_upper s else upper s)"

section \<open>Runes\<close>

definition cont_byte :: "nat \<Rightarrow> nat \<Rightarrow> char \<Rightarrow> bool" where
  "cont_byte lo hi c \<longleftrightarrow> lo \<le> (of_char c :: nat) \<and> (of_char c :: nat) \<le> hi"

text \<open>The number of bytes of the first rune of a non-empty string; 1 for an invalid byte.\<close>

fun rune_len :: "string \<Rightarrow> nat" where
  "rune_len [] = 0"
| "rune_len (c # s) =
     (let n = (of_char c :: nat); cont = cont_byte 128 191 in
      if 194 \<le> n \<and> n \<le> 223 then
        (case s of a # _ \<Rightarrow> if cont a then 2 else 1 | _ \<Rightarrow> 1)
      else if 224 \<le> n \<and> n \<le> 239 then
        (case s of a # b # _ \<Rightarrow>
           if cont_byte (if n = 224 then 160 else 128) (if n = 237 then 159 else 191) a \<and> cont b
           then 3 else 1
         | _ \<Rightarrow> 1)
      else if 240 \<le> n \<and> n \<le> 244 then
        (case s of a # b # d # _ \<Rightarrow>
           if cont_byte (if n = 240 then 144 else 128) (if n = 244 then 143 else 191) a
              \<and> cont b \<and> cont d
           then 4 else 1
         | _ \<Rightarrow> 1)
      else 1)"

lemma rune_len_pos: "s \<noteq> [] \<Longrightarrow> 0 < rune_len s"
  by (cases s) (auto simp: Let_def split: list.splits)

text \<open>\<open>utf8.RuneCountInString\<close>\<close>

function rune_count :: "string \<Rightarrow> nat" where
  "rune_count s = (if s = [] then 0 else Suc (rune_count (drop (rune_len s) s)))"
  by pat_completeness auto
termination
  by (relation "measure length") (auto simp: rune_len_pos)

declare rune_count.simps [simp del]

lemma rune_count_Nil [simp]: "rune_count [] = 0"
  by (simp add: rune_count.simps)

lemma rune_count_le_length: "rune_count s \<le> length s"
proof (induction s rule: rune_count.induct)
  case (1 s)
  show ?case
  proof (cases "s = []")
    case False
    with 1 have "rune_count (drop (rune_len s) s) \<le> length s - rune_len s" by simp
    moreover have "length s - rune_len s < length s" using False by (simp add: rune_len_pos)
    ultimately have "Suc (rune_count (drop (rune_len s) s)) \<le> length s" by linarith
    with False show ?thesis by (subst rune_count.simps) simp
  qed simp
qed

lemma rune_count_ascii: "list_all ascii s \<Longrightarrow> rune_count s = length s"
proof (induction s)
  case (Cons c s)
  then have "rune_len (c # s) = 1" by (simp add: ascii_def Let_def)
  with Cons show ?case by (subst rune_count.simps) simp
qed simp

section \<open>Integers\<close>

text \<open>Go's \<open>int\<close>, \<open>int64\<close> and \<open>time.Duration\<close>: 64 bits, two's complement.\<close>

definition wrap64 :: "int \<Rightarrow> int" where
  "wrap64 x = sint (word_of_int x :: 64 word)"

lemma wrap64_id: "- (2 ^ 63) \<le> x \<Longrightarrow> x < 2 ^ 63 \<Longrightarrow> wrap64 x = x"
  unfolding wrap64_def by (subst sint_sbintrunc') (simp add: signed_take_bit_int_eq_self)

lemma wrap64_range: "- (2 ^ 63) \<le> wrap64 x \<and> wrap64 x < 2 ^ 63"
  using sint_range_size[of "word_of_int x :: 64 word"] by (simp add: wrap64_def word_size)

text \<open>Go's \<open>/\<close> truncates towards zero.\<close>

definition quot :: "int \<Rightarrow> int \<Rightarrow> int" where
  "quot a b = sgn a * sgn b * (\<bar>a\<bar> div \<bar>b\<bar>)"

definition digit_val :: "char \<Rightarrow> int option" where
  "digit_val c = (let n = (of_char c :: int) in if 48 \<le> n \<and> n \<le> 57 then Some (n - 48) else None)"

fun digits_val :: "int \<Rightarrow> string \<Rightarrow> int option" where
  "digits_val acc [] = Some acc"
| "digits_val acc (c # cs) =
     (case digit_val c of None \<Rightarrow> None | Some d \<Rightarrow> digits_val (10 * acc + d) cs)"

text \<open>\<open>strconv.Atoi\<close>; \<open>None\<close> is any error (syntax or range).\<close>

definition Atoi :: "string \<Rightarrow> int option" where
  "Atoi s =
     (let (neg, ds) =
        (case s of c # cs \<Rightarrow> if c = CHR ''-'' then (True, cs)
                            else if c = CHR ''+'' then (False, cs) else (False, s)
         | [] \<Rightarrow> (False, []))
      in if ds = [] then None
         else (case digits_val 0 ds of
             None \<Rightarrow> None
           | Some v \<Rightarrow> (let n = (if neg then - v else v)
                       in if - (2 ^ 63) \<le> n \<and> n < 2 ^ 63 then Some n else None)))"

lemma Atoi_range: "Atoi s = Some n \<Longrightarrow> - (2 ^ 63) \<le> n \<and> n < 2 ^ 63"
  by (auto simp: Atoi_def Let_def split: if_splits option.splits prod.splits)

text \<open>\<open>strconv.Itoa\<close>\<close>

fun dec_digits :: "nat \<Rightarrow> string" where
  "dec_digits n =
     (if n < 10 then [char_of (48 + n)] else dec_digits (n div 10) @ [char_of (48 + n mod 10)])"

declare dec_digits.simps [simp del]

definition Itoa :: "int \<Rightarrow> string" where
  "Itoa i = (if i < 0 then CHR ''-'' # dec_digits (nat (- i)) else dec_digits (nat i))"

text \<open>\<open>strconv.ParseBool\<close>\<close>

definition ParseBool :: "string \<Rightarrow> bool option" where
  "ParseBool s =
     (if s \<in> set [''1'', ''t'', ''T'', ''TRUE'', ''true'', ''True''] then Some True
      else if s \<in> set [''0'', ''f'', ''F'', ''FALSE'', ''false'', ''False''] then Some False
      else None)"

section \<open>Hexadecimal\<close>

definition hex_digits :: string where
  "hex_digits = ''0123456789abcdef''"

text \<open>\<open>hex.EncodeToString\<close>\<close>

definition EncodeToString :: "string \<Rightarrow> string" where
  "EncodeToString bs =
     concat (map (\<lambda>b. let n = (of_char b :: nat) in [hex_digits ! (n div 16), hex_digits ! (n mod 16)]) bs)"

lemma length_EncodeToString: "length (EncodeToString bs) = 2 * length bs"
  by (induction bs) (auto simp: EncodeToString_def Let_def)

lemma EncodeToString_digits: "set (EncodeToString bs) \<subseteq> set hex_digits"
proof -
  have "hex_digits ! (of_char b div 16) \<in> set hex_digits" for b :: char
    by (rule nth_mem) (use of_char_of[of "of_char b :: nat"] in
        \<open>auto simp: hex_digits_def intro: less_mult_imp_div_less\<close>)
  moreover have "hex_digits ! (of_char b mod 16) \<in> set hex_digits" for b :: char
    by (rule nth_mem) (simp add: hex_digits_def)
  ultimately show ?thesis by (auto simp: EncodeToString_def Let_def)
qed

end
