(* ===== verification/Schema.thy ===== *)
theory Schema
  imports Errors Go_Strings
begin

text \<open>
  The PostgreSQL schema of migrations/ as a record of tables (lists of rows, in insertion
  order), the world the programs run in, and the environment: everything the programs call
  that is not under src/ (clocks, random sources, UUID generators, bcrypt, SHA-256, the
  database connection). Each effect reads the environment at the world's \<open>tick\<close> and
  advances it, so the environment may answer every call differently.
\<close>

section \<open>Rows\<close>

text \<open>Nanoseconds since the epoch, and durations in nanoseconds.\<close>

type_synonym time = int
type_synonym duration = int

definition Second :: duration where "Second = 1000000000"
definition Millisecond :: duration where "Millisecond = 1000000"
definition Minute :: duration where "Minute = 60 * Second"
definition Hour :: duration where "Hour = 60 * Minute"

lemmas duration_defs = Second_def Minute_def Hour_def

record User =
  u_id :: string
  u_email :: string
  u_password_hash :: string
  u_created_at :: time

record RefreshToken =
  rt_id :: string
  rt_user_id :: string
  rt_token_hash :: string
  rt_expires_at :: time
  rt_created_at :: time

record Organization =
  o_id :: string
  o_name :: string
  o_created_by :: string
  o_created_at :: time
  o_updated_at :: time

record OrgMember =
  m_org_id :: string
  m_user_id :: string
  m_role :: string
  m_joined_at :: time

record OrgInvite =
  i_id :: string
  i_org_id :: string
  i_invited_by :: string
  i_email :: string
  i_role :: string
  i_token_hash :: string
  i_expires_at :: time
  i_accepted_at :: "time option"
  i_created_at :: time

record OrgInviteCode =
  c_id :: string
  c_org_id :: string
  c_code :: string
  c_created_by :: string
  c_default_role :: string
  c_is_active :: bool
  c_created_at :: time

text \<open>Nullable columns are options; the queries read them with \<open>COALESCE(_, '')\<close>.\<close>

record ServiceRow =
  s_id :: string
  s_org_id :: string
  s_name :: string
  s_description :: "string option"
  s_created_by :: string
  s_created_at :: time
  s_updated_at :: time
  s_deleted_at :: "time option"

record APIKeyRow =
  k_id :: string
  k_service_id :: string
  k_org_id :: string
  k_prefix :: string
  k_key_hash :: string
  k_label :: "string option"
  k_created_by :: string
  k_created_at :: time
  k_revoked_at :: "time option"
  k_last_used_at :: "time option"
  k_rotated_from_id :: "string option"

text \<open>A JSON object: its keys and the values' JSON texts.\<close>

type_synonym json_object = "(string \<times> string) list"

record AuditRow =
  a_id :: string
  a_org_id :: "string option"
  a_actor_id :: "string option"
  a_actor_type :: string
  a_action :: string
  a_resource_type :: string
  a_resource_id :: "string option"
  a_metadata :: json_object
  a_ip_address :: "string option"
  a_created_at :: time

record LogRow =
  l_id :: string
  l_org_id :: string
  l_service_id :: string
  l_timestamp :: time
  l_severity :: string
  l_message :: string
  l_metadata :: json_object
  l_ingested_at :: time

record database =
  users :: "User list"
  refresh_tokens :: "RefreshToken list"
  organizations :: "Organization list"
  org_members :: "OrgMember list"
  org_invites :: "OrgInvite list"
  org_invite_codes :: "OrgInviteCode list"
  services :: "ServiceRow list"
  service_api_keys :: "APIKeyRow list"
  audit_events :: "AuditRow list"
  logs :: "LogRow list"

definition empty_db :: database where
  "empty_db = \<lparr>users = [], refresh_tokens = [], organizations = [], org_members = [],
     org_invites = [], org_invite_codes = [], services = [], service_api_keys = [],
     audit_events = [], logs = []\<rparr>"

section \<open>The world and the environment\<close>

text \<open>\<open>'r\<close> is the state of the Redis server, which only its client looks into.\<close>

record 'r world =
  db :: database
  redis :: 'r
  tick :: nat

record env =
  clk :: "nat \<Rightarrow> time"
  uuid :: "nat \<Rightarrow> string"
  pg_fault :: "nat \<Rightarrow> string option"
  rand_int :: "nat \<Rightarrow> nat \<Rightarrow> nat option"
  rand_bytes :: "nat \<Rightarrow> nat \<Rightarrow> string option"
  bcrypt_gen :: "nat \<Rightarrow> string \<Rightarrow> string option"
  bcrypt_cmp :: "string \<Rightarrow> string \<Rightarrow> bool"
  sha256 :: "string \<Rightarrow> string"
  pg_uuid :: "string \<Rightarrow> string option"
  pg_inet :: "string \<Rightarrow> string option"
  parse_address :: "string \<Rightarrow> bool"
  uni_upper :: "string \<Rightarrow> string"
  uuid_ok :: "string \<Rightarrow> bool"

type_synonym ('r, 'a) app = "('r world, err, 'a) prog"

text \<open>\<open>time.Now()\<close> and \<open>uuid.NewString()\<close>\<close>

definition Now :: "env \<Rightarrow> ('r, time) app" where
  "Now e w = (Inr (clk e (tick w)), w\<lparr>tick := Suc (tick w)\<rparr>)"

definition NewString :: "env \<Rightarrow> ('r, string) app" where
  "NewString e w = (Inr (uuid e (tick w)), w\<lparr>tick := Suc (tick w)\<rparr>)"

text \<open>
  \<open>rand.Int(rand.Reader, max)\<close>, \<open>rand.Read\<close> into a buffer of \<open>n\<close> zero bytes, and
  \<open>bcrypt.GenerateFromPassword(_, 12)\<close>
\<close>

definition RandInt :: "env \<Rightarrow> nat \<Rightarrow> ('r, nat) app" where
  "RandInt e m w =
     ((case rand_int e (tick w) m of None \<Rightarrow> Inl (OtherE ''rand'') | Some n \<Rightarrow> Inr n),
      w\<lparr>tick := Suc (tick w)\<rparr>)"

definition RandRead :: "env \<Rightarrow> nat \<Rightarrow> ('r, string) app" where
  "RandRead e n w =
     ((case rand_bytes e (tick w) n of
         None \<Rightarrow> Inl (OtherE ''rand'')
       | Some b \<Rightarrow> Inr (take n (b @ replicate n (CHR 0x00)))),
      w\<lparr>tick := Suc (tick w)\<rparr>)"

definition GenerateFromPassword :: "env \<Rightarrow> string \<Rightarrow> ('r, string) app" where
  "GenerateFromPassword e pw w =
     ((case bcrypt_gen e (tick w) pw of None \<Rightarrow> Inl (OtherE ''bcrypt'') | Some h \<Rightarrow> Inr h),
      w\<lparr>tick := Suc (tick w)\<rparr>)"

lemmas env_call_defs = Now_def NewString_def RandInt_def RandRead_def GenerateFromPassword_def

section \<open>Statements\<close>

text \<open>
  A statement gets the server's \<open>now()\<close>, a fresh \<open>gen_random_uuid()\<close> and the database; it
  fails without effect or returns its rows and the new database.
\<close>

type_synonym 'a stmt = "time \<Rightarrow> string \<Rightarrow> database \<Rightarrow> (pg_err + 'a) \<times> database"

definition pg :: "env \<Rightarrow> 'a stmt \<Rightarrow> ('r, 'a) app" where
  "pg e q w =
     (let n = tick w; w1 = w\<lparr>tick := Suc n\<rparr> in
      case pg_fault e n of
        Some f \<Rightarrow> (Inl (PgE (OtherPg f)), w1)
      | None \<Rightarrow>
          (case q (clk e n) (uuid e n) (db w) of
             (Inl f, _) \<Rightarrow> (Inl (PgE f), w1)
           | (Inr x, d) \<Rightarrow> (Inr x, w1\<lparr>db := d\<rparr>)))"

text \<open>
  A transaction: \<open>Begin\<close>, the body, \<open>Commit\<close>, with the deferred \<open>Rollback\<close> on every
  path that does not commit. \<open>Begin\<close> and \<open>Commit\<close> may fail as a statement may.
\<close>

definition transaction :: "env \<Rightarrow> ('r, 'a) app \<Rightarrow> ('r, 'a) app" where
  "transaction e body w =
     (case pg e (\<lambda>_ _ d. (Inr (), d)) w of
        (Inl f, w1) \<Rightarrow> (Inl f, w1)
      | (Inr _, w1) \<Rightarrow>
          (case body w1 of
             (Inl f, w2) \<Rightarrow> (Inl f, w2\<lparr>db := db w1\<rparr>)
           | (Inr x, w2) \<Rightarrow>
               (case pg e (\<lambda>_ _ d. (Inr (), d)) w2 of
                  (Inl f, w3) \<Rightarrow> (Inl f, w3\<lparr>db := db w1\<rparr>)
                | (Inr _, w3) \<Rightarrow> (Inr x, w3))))"

text \<open>A query for one row by a key: the first match, or \<open>pgx.ErrNoRows\<close>.\<close>

definition select_row :: "(database \<Rightarrow> 'a list) \<Rightarrow> ('a \<Rightarrow> bool) \<Rightarrow> 'a stmt" where
  "select_row tbl p t u d = (case find p (tbl d) of None \<Rightarrow> (Inl NoRows, d) | Some x \<Rightarrow> (Inr x, d))"

text \<open>A query computed from the database.\<close>

definition select_val :: "(database \<Rightarrow> 'a) \<Rightarrow> 'a stmt" where
  "select_val f t u d = (Inr (f d), d)"

text \<open>
  A text argument for a \<open>uuid\<close> parameter: the server parses it (\<open>pg_uuid\<close>, which accepts
  several spellings of one UUID) or rejects the statement with SQLSTATE 22P02.
\<close>

definition with_uuid :: "env \<Rightarrow> string \<Rightarrow> (string \<Rightarrow> 'a stmt) \<Rightarrow> 'a stmt" where
  "with_uuid e s q t u d =
     (case pg_uuid e s of None \<Rightarrow> (Inl (OtherPg ''22P02''), d) | Some i \<Rightarrow> q i t u d)"

text \<open>The server reads the text it prints for a UUID as that UUID.\<close>

definition uuid_law :: "env \<Rightarrow> bool" where
  "uuid_law e \<longleftrightarrow>
     (\<forall>n. pg_uuid e (uuid e n) = Some (uuid e n)) \<and>
     (\<forall>s i. pg_uuid e s = Some i \<longrightarrow> pg_uuid e i = Some i)"

text \<open>
  An insert or update in the order the server checks it: lengths (22001), CHECK constraints
  (23514), unique indexes (23505), foreign keys (23503).
\<close>

definition constrained ::
    "bool \<Rightarrow> bool \<Rightarrow> bool \<Rightarrow> bool \<Rightarrow> 'a \<Rightarrow> database \<Rightarrow> database \<Rightarrow> (pg_err + 'a) \<times> database" where
  "constrained fits chk uniq fk x d d' =
     (if \<not> fits then (Inl (OtherPg ''22001''), d)
      else if \<not> chk then (Inl (OtherPg ''23514''), d)
      else if \<not> uniq then (Inl UniqueViolation, d)
      else if \<not> fk then (Inl (OtherPg ''23503''), d)
      else (Inr x, d'))"

definition varchar :: "nat \<Rightarrow> string \<Rightarrow> bool" where
  "varchar n s \<longleftrightarrow> rune_count s \<le> n"

text \<open>\<open>RETURNING\<close>: a part of the row.\<close>

definition returning :: "('a \<Rightarrow> 'b) \<Rightarrow> (pg_err + 'a) \<times> database \<Rightarrow> (pg_err + 'b) \<times> database" where
  "returning f rd = (map_sum (\<lambda>x. x) f (fst rd), snd rd)"

lemma constrained_Inr:
  "constrained fits chk uniq fk x d d1 = (Inr y, d2) \<longleftrightarrow>
     fits \<and> chk \<and> uniq \<and> fk \<and> y = x \<and> d2 = d1"
  by (auto simp: constrained_def)

lemma pg_run [run_rules]:
  "pg_fault e (tick w) = None \<Longrightarrow> q (clk e (tick w)) (uuid e (tick w)) (db w) = (Inr x, d) \<Longrightarrow>
   pg e q w = (Inr x, w\<lparr>db := d, tick := Suc (tick w)\<rparr>)"
  "pg_fault e (tick w) = None \<Longrightarrow> q (clk e (tick w)) (uuid e (tick w)) (db w) = (Inl f, d) \<Longrightarrow>
   pg e q w = (Inl (PgE f), w\<lparr>tick := Suc (tick w)\<rparr>)"
  "pg_fault e (tick w) = Some g \<Longrightarrow> pg e q w = (Inl (PgE (OtherPg g)), w\<lparr>tick := Suc (tick w)\<rparr>)"
  by (simp_all add: pg_def Let_def)

lemma pg_cong_run [run_congs]: "w = w' \<Longrightarrow> pg e q w = pg e q w'"
  by simp

lemma transaction_run [run_rules]:
  "pg_fault e (tick w) = None \<Longrightarrow> body (w\<lparr>tick := Suc (tick w)\<rparr>) = (Inr x, w1) \<Longrightarrow>
   pg_fault e (tick w1) = None \<Longrightarrow> transaction e body w = (Inr x, w1\<lparr>tick := Suc (tick w1)\<rparr>)"
  "pg_fault e (tick w) = None \<Longrightarrow> body (w\<lparr>tick := Suc (tick w)\<rparr>) = (Inl f, w1) \<Longrightarrow>
   transaction e body w = (Inl f, w1\<lparr>db := db w\<rparr>)"
  by (simp_all add: transaction_def pg_def Let_def)

lemma transaction_cong_run [run_congs]: "w = w' \<Longrightarrow> transaction e m w = transaction e m w'"
  by simp

lemmas stmt_defs [sql_defs] =
  select_row_def select_val_def with_uuid_def constrained_def

section \<open>Inserting a row\<close>

text \<open>
  One function per table a statement inserts into: the row it would store, against the
  constraints of its migration.
\<close>

definition insert_user :: "User \<Rightarrow> database \<Rightarrow> (pg_err + User) \<times> database" where
  "insert_user r d =
     constrained True True
       (u_id r \<notin> u_id ` set (users d) \<and> u_email r \<notin> u_email ` set (users d)) True
       r d (d\<lparr>users := users d @ [r]\<rparr>)"

definition insert_refresh_token ::
    "RefreshToken \<Rightarrow> database \<Rightarrow> (pg_err + RefreshToken) \<times> database" where
  "insert_refresh_token r d =
     constrained True True
       (rt_id r \<notin> rt_id ` set (refresh_tokens d) \<and>
        rt_token_hash r \<notin> rt_token_hash ` set (refresh_tokens d))
       (rt_user_id r \<in> u_id ` set (users d))
       r d (d\<lparr>refresh_tokens := refresh_tokens d @ [r]\<rparr>)"

definition insert_organization ::
    "Organization \<Rightarrow> database \<Rightarrow> (pg_err + Organization) \<times> database" where
  "insert_organization r d =
     constrained (varchar 255 (o_name r)) True
       (o_id r \<notin> o_id ` set (organizations d))
       (o_created_by r \<in> u_id ` set (users d))
       r d (d\<lparr>organizations := organizations d @ [r]\<rparr>)"

definition insert_org_member :: "OrgMember \<Rightarrow> database \<Rightarrow> (pg_err + OrgMember) \<times> database" where
  "insert_org_member r d =
     constrained (varchar 20 (m_role r))
       (m_role r \<in> set [''owner'', ''admin'', ''developer'', ''viewer''])
       ((m_org_id r, m_user_id r) \<notin> (\<lambda>m. (m_org_id m, m_user_id m)) ` set (org_members d))
       (m_org_id r \<in> o_id ` set (organizations d) \<and> m_user_id r \<in> u_id ` set (users d))
       r d (d\<lparr>org_members := org_members d @ [r]\<rparr>)"

definition insert_org_invite :: "OrgInvite \<Rightarrow> database \<Rightarrow> (pg_err + OrgInvite) \<times> database" where
  "insert_org_invite r d =
     constrained (varchar 255 (i_email r) \<and> varchar 20 (i_role r) \<and> varchar 64 (i_token_hash r))
       (i_role r \<in> set [''admin'', ''developer'', ''viewer''])
       (i_id r \<notin> i_id ` set (org_invites d) \<and>
        i_token_hash r \<notin> i_token_hash ` set (org_invites d))
       (i_org_id r \<in> o_id ` set (organizations d) \<and> i_invited_by r \<in> u_id ` set (users d))
       r d (d\<lparr>org_invites := org_invites d @ [r]\<rparr>)"

definition insert_org_invite_code ::
    "OrgInviteCode \<Rightarrow> database \<Rightarrow> (pg_err + OrgInviteCode) \<times> database" where
  "insert_org_invite_code r d =
     constrained (varchar 20 (c_code r) \<and> varchar 20 (c_default_role r))
       (c_default_role r \<in> set [''admin'', ''developer'', ''viewer''])
       (c_id r \<notin> c_id ` set (org_invite_codes d) \<and>
        c_code r \<notin> c_code ` set (org_invite_codes d))
       (c_org_id r \<in> o_id ` set (organizations d) \<and> c_created_by r \<in> u_id ` set (users d))
       r d (d\<lparr>org_invite_codes := org_invite_codes d @ [r]\<rparr>)"

text \<open>The partial unique index \<open>uq_services_org_name_active\<close>\<close>

definition name_free :: "string \<Rightarrow> string \<Rightarrow> ServiceRow list \<Rightarrow> bool" where
  "name_free org name rows \<longleftrightarrow>
     \<not> list_ex (\<lambda>s. s_org_id s = org \<and> s_name s = name \<and> s_deleted_at s = None) rows"

definition insert_service :: "ServiceRow \<Rightarrow> database \<Rightarrow> (pg_err + ServiceRow) \<times> database" where
  "insert_service r d =
     constrained (varchar 255 (s_name r)) True
       (s_id r \<notin> s_id ` set (services d) \<and> name_free (s_org_id r) (s_name r) (services d))
       (s_org_id r \<in> o_id ` set (organizations d) \<and> s_created_by r \<in> u_id ` set (users d))
       r d (d\<lparr>services := services d @ [r]\<rparr>)"

definition insert_api_key :: "APIKeyRow \<Rightarrow> database \<Rightarrow> (pg_err + APIKeyRow) \<times> database" where
  "insert_api_key r d =
     constrained
       (varchar 16 (k_prefix r) \<and> varchar 255 (k_key_hash r) \<and>
        (case k_label r of None \<Rightarrow> True | Some l \<Rightarrow> varchar 100 l))
       (case k_revoked_at r of None \<Rightarrow> True | Some t \<Rightarrow> k_created_at r \<le> t)
       (k_id r \<notin> k_id ` set (service_api_keys d) \<and>
        k_prefix r \<notin> k_prefix ` set (service_api_keys d))
       (k_service_id r \<in> s_id ` set (services d) \<and> k_org_id r \<in> o_id ` set (organizations d) \<and>
        k_created_by r \<in> u_id ` set (users d) \<and>
        (case k_rotated_from_id r of None \<Rightarrow> True | Some i \<Rightarrow> i \<in> k_id ` set (service_api_keys d)))
       r d (d\<lparr>service_api_keys := service_api_keys d @ [r]\<rparr>)"

definition insert_audit_event :: "AuditRow \<Rightarrow> database \<Rightarrow> (pg_err + AuditRow) \<times> database" where
  "insert_audit_event r d =
     constrained (varchar 20 (a_actor_type r) \<and> varchar 50 (a_action r) \<and> varchar 50 (a_resource_type r))
       True (a_id r \<notin> a_id ` set (audit_events d))
       ((case a_org_id r of None \<Rightarrow> True | Some i \<Rightarrow> i \<in> o_id ` set (organizations d)) \<and>
        (case a_actor_id r of None \<Rightarrow> True | Some i \<Rightarrow> i \<in> u_id ` set (users d)))
       r d (d\<lparr>audit_events := audit_events d @ [r]\<rparr>)"

definition insert_log :: "LogRow \<Rightarrow> database \<Rightarrow> (pg_err + LogRow) \<times> database" where
  "insert_log r d =
     constrained (varchar 10 (l_severity r))
       (l_severity r \<in> set [''DEBUG'', ''INFO'', ''WARN'', ''ERROR'', ''FATAL''])
       (l_id r \<notin> l_id ` set (logs d))
       (l_org_id r \<in> o_id ` set (organizations d) \<and> l_service_id r \<in> s_id ` set (services d))
       r d (d\<lparr>logs := logs d @ [r]\<rparr>)"

lemmas insert_defs [sql_defs] =
  insert_user_def insert_refresh_token_def insert_organization_def insert_org_member_def
  insert_org_invite_def insert_org_invite_code_def insert_service_def insert_api_key_def
  insert_audit_event_def insert_log_def

section \<open>The constraints as an invariant\<close>

definition users_ok :: "database \<Rightarrow> bool" where
  "users_ok d \<longleftrightarrow> distinct (map u_id (users d)) \<and> distinct (map u_email (users d))"

definition refresh_tokens_ok :: "database \<Rightarrow> bool" where
  "refresh_tokens_ok d \<longleftrightarrow>
     distinct (map rt_id (refresh_tokens d)) \<and> distinct (map rt_token_hash (refresh_tokens d)) \<and>
     rt_user_id ` set (refresh_tokens d) \<subseteq> u_id ` set (users d)"

definition orgs_ok :: "database \<Rightarrow> bool" where
  "orgs_ok d \<longleftrightarrow>
     distinct (map o_id (organizations d)) \<and>
     o_created_by ` set (organizations d) \<subseteq> u_id ` set (users d) \<and>
     distinct (map (\<lambda>m. (m_org_id m, m_user_id m)) (org_members d)) \<and>
     m_org_id ` set (org_members d) \<subseteq> o_id ` set (organizations d) \<and>
     m_user_id ` set (org_members d) \<subseteq> u_id ` set (users d) \<and>
     m_role ` set (org_members d) \<subseteq> {''owner'', ''admin'', ''developer'', ''viewer''}"

definition invites_ok :: "database \<Rightarrow> bool" where
  "invites_ok d \<longleftrightarrow>
     distinct (map i_id (org_invites d)) \<and> distinct (map i_token_hash (org_invites d)) \<and>
     i_role ` set (org_invites d) \<subseteq> {''admin'', ''developer'', ''viewer''} \<and>
     distinct (map c_id (org_invite_codes d)) \<and> distinct (map c_code (org_invite_codes d)) \<and>
     c_default_role ` set (org_invite_codes d) \<subseteq> {''admin'', ''developer'', ''viewer''}"

definition active_names :: "ServiceRow list \<Rightarrow> (string \<times> string) list" where
  "active_names rows =
     map (\<lambda>s. (s_org_id s, s_name s)) (filter (\<lambda>s. s_deleted_at s = None) rows)"

definition services_ok :: "database \<Rightarrow> bool" where
  "services_ok d \<longleftrightarrow>
     distinct (map s_id (services d)) \<and> distinct (active_names (services d)) \<and>
     s_org_id ` set (services d) \<subseteq> o_id ` set (organizations d)"

definition api_keys_ok :: "database \<Rightarrow> bool" where
  "api_keys_ok d \<longleftrightarrow>
     distinct (map k_id (service_api_keys d)) \<and> distinct (map k_prefix (service_api_keys d)) \<and>
     k_service_id ` set (service_api_keys d) \<subseteq> s_id ` set (services d)"

definition logs_ok :: "database \<Rightarrow> bool" where
  "logs_ok d \<longleftrightarrow>
     distinct (map l_id (logs d)) \<and>
     l_severity ` set (logs d) \<subseteq> {''DEBUG'', ''INFO'', ''WARN'', ''ERROR'', ''FATAL''} \<and>
     l_service_id ` set (logs d) \<subseteq> s_id ` set (services d)"

definition db_ok :: "database \<Rightarrow> bool" where
  "db_ok d \<longleftrightarrow> users_ok d \<and> refresh_tokens_ok d \<and> orgs_ok d \<and> invites_ok d \<and> services_ok d \<and>
     api_keys_ok d \<and> logs_ok d"

lemmas ok_defs =
  db_ok_def users_ok_def refresh_tokens_ok_def orgs_ok_def invites_ok_def services_ok_def
  api_keys_ok_def logs_ok_def

lemma db_ok_empty: "db_ok empty_db"
  by (simp add: ok_defs empty_db_def active_names_def)

lemma name_free_active: "name_free org name rows \<longleftrightarrow> (org, name) \<notin> set (active_names rows)"
  by (auto simp: name_free_def active_names_def list_ex_iff)

text \<open>Every insert keeps the constraints of the whole database.\<close>

lemma constrained_elim:
  assumes "constrained fits chk uniq fk x d d1 = (r, d2)"
    and "P d" and "fits \<Longrightarrow> chk \<Longrightarrow> uniq \<Longrightarrow> fk \<Longrightarrow> P d1"
  shows "P d2"
  using assms by (simp add: constrained_def split: if_split_asm)

lemmas ok_simps = ok_defs subset_insertI2 name_free_active

lemma insert_user_ok: "db_ok d \<Longrightarrow> insert_user r d = (x, d') \<Longrightarrow> db_ok d'"
  unfolding insert_user_def by (erule constrained_elim) (simp_all add: ok_simps)

lemma insert_refresh_token_ok: "db_ok d \<Longrightarrow> insert_refresh_token r d = (x, d') \<Longrightarrow> db_ok d'"
  unfolding insert_refresh_token_def by (erule constrained_elim) (simp_all add: ok_simps)

lemma insert_organization_ok: "db_ok d \<Longrightarrow> insert_organization r d = (x, d') \<Longrightarrow> db_ok d'"
  unfolding insert_organization_def by (erule constrained_elim) (simp_all add: ok_simps)

lemma insert_org_member_ok: "db_ok d \<Longrightarrow> insert_org_member r d = (x, d') \<Longrightarrow> db_ok d'"
  unfolding insert_org_member_def by (erule constrained_elim) (simp_all add: ok_simps)

lemma insert_org_invite_ok: "db_ok d \<Longrightarrow> insert_org_invite r d = (x, d') \<Longrightarrow> db_ok d'"
  unfolding insert_org_invite_def by (erule constrained_elim) (simp_all add: ok_simps)

lemma insert_org_invite_code_ok: "db_ok d \<Longrightarrow> insert_org_invite_code r d = (x, d') \<Longrightarrow> db_ok d'"
  unfolding insert_org_invite_code_def by (erule constrained_elim) (simp_all add: ok_simps)

lemma insert_service_ok: "db_ok d \<Longrightarrow> insert_service r d = (x, d') \<Longrightarrow> db_ok d'"
  unfolding insert_service_def by (erule constrained_elim) (simp_all add: ok_simps active_names_def)

lemma insert_api_key_ok: "db_ok d \<Longrightarrow> insert_api_key r d = (x, d') \<Longrightarrow> db_ok d'"
  unfolding insert_api_key_def by (erule constrained_elim) (simp_all add: ok_simps)

lemma insert_audit_event_ok: "db_ok d \<Longrightarrow> insert_audit_event r d = (x, d') \<Longrightarrow> db_ok d'"
  unfolding insert_audit_event_def by (erule constrained_elim) (simp_all add: ok_simps)

lemma insert_log_ok: "db_ok d \<Longrightarrow> insert_log r d = (x, d') \<Longrightarrow> db_ok d'"
  unfolding insert_log_def by (erule constrained_elim) (simp_all add: ok_simps)

lemmas insert_ok =
  insert_user_ok insert_refresh_token_ok insert_organization_ok insert_org_member_ok
  insert_org_invite_ok insert_org_invite_code_ok insert_service_ok insert_api_key_ok
  insert_audit_event_ok insert_log_ok

section \<open>Invariants of the primitive effects\<close>

text \<open>\<open>keeps_db P\<close>: a property of the database that the program keeps.\<close>

abbreviation keeps_db :: "(database \<Rightarrow> bool) \<Rightarrow> ('r, 'a) app \<Rightarrow> bool" where
  "keeps_db P \<equiv> keeps (\<lambda>w. P (db w))"

definition stmt_keeps :: "(database \<Rightarrow> bool) \<Rightarrow> 'a stmt \<Rightarrow> bool" where
  "stmt_keeps P q \<longleftrightarrow> (\<forall>t u d. P d \<longrightarrow> P (snd (q t u d)))"

lemma stmt_keepsI: "(\<And>t u d r d'. P d \<Longrightarrow> q t u d = (r, d') \<Longrightarrow> P d') \<Longrightarrow> stmt_keeps P q"
  unfolding stmt_keeps_def by (metis prod.collapse)

lemma stmt_keepsD: "stmt_keeps P q \<Longrightarrow> P d \<Longrightarrow> q t u d = (r, d') \<Longrightarrow> P d'"
  unfolding stmt_keeps_def by (metis snd_conv)

lemma keeps_pg [keeps_intros]: "stmt_keeps P q \<Longrightarrow> keeps_db P (pg e q)"
  by (rule keepsI) (auto simp: pg_def Let_def dest: stmt_keepsD
      split: option.splits prod.splits sum.splits)

lemma stmt_keeps_insert [keeps_intros]:
  "stmt_keeps db_ok (\<lambda>t u. insert_user (f0 t u))"
  "stmt_keeps db_ok (\<lambda>t u. insert_refresh_token (f1 t u))"
  "stmt_keeps db_ok (\<lambda>t u. insert_organization (f2 t u))"
  "stmt_keeps db_ok (\<lambda>t u. insert_org_member (f3 t u))"
  "stmt_keeps db_ok (\<lambda>t u. insert_org_invite (f4 t u))"
  "stmt_keeps db_ok (\<lambda>t u. insert_org_invite_code (f5 t u))"
  "stmt_keeps db_ok (\<lambda>t u. insert_service (f6 t u))"
  "stmt_keeps db_ok (\<lambda>t u. insert_api_key (f7 t u))"
  "stmt_keeps db_ok (\<lambda>t u. insert_audit_event (f8 t u))"
  "stmt_keeps db_ok (\<lambda>t u. insert_log (f9 t u))"
  by (rule stmt_keepsI, erule (1) insert_ok)+

lemma stmt_keeps_select_row [keeps_intros]: "stmt_keeps P (select_row tbl p)"
  by (simp add: stmt_keeps_def select_row_def split: option.split)

lemma stmt_keeps_select_val [keeps_intros]: "stmt_keeps P (select_val f)"
  by (simp add: stmt_keeps_def select_val_def)

lemma stmt_keeps_with_uuid [keeps_intros]:
  "(\<And>i. stmt_keeps P (q i)) \<Longrightarrow> stmt_keeps P (with_uuid e s q)"
  by (simp add: stmt_keeps_def with_uuid_def split: option.split)

lemma stmt_keeps_returning [keeps_intros]:
  "(\<And>t u d r d'. P d \<Longrightarrow> q t u d = (r, d') \<Longrightarrow> P d') \<Longrightarrow>
   stmt_keeps P (\<lambda>t u d. returning f (q t u d))"
  unfolding stmt_keeps_def returning_def by (metis prod.collapse snd_conv)

lemma returning_Inr: "returning f rd = (Inr y, d') \<longleftrightarrow> (\<exists>x. rd = (Inr x, d') \<and> y = f x)"
  by (cases rd; cases "fst rd") (auto simp: returning_def)

lemma keeps_Now [keeps_intros]: "keeps_db P (Now e)"
  by (simp add: keeps_def Now_def)

lemma keeps_NewString [keeps_intros]: "keeps_db P (NewString e)"
  by (simp add: keeps_def NewString_def)

lemma keeps_RandInt [keeps_intros]: "keeps_db P (RandInt e m)"
  by (simp add: keeps_def RandInt_def)

lemma keeps_RandRead [keeps_intros]: "keeps_db P (RandRead e m)"
  by (simp add: keeps_def RandRead_def)

lemma keeps_GenerateFromPassword [keeps_intros]: "keeps_db P (GenerateFromPassword e pw)"
  by (simp add: keeps_def GenerateFromPassword_def)

lemma keeps_transaction [keeps_intros]:
  assumes "keeps_db P body"
  shows "keeps_db P (transaction e body)"
proof (rule keepsI)
  fix w r w' assume "P (db w)" and tx: "transaction e body w = (r, w')"
  then have "P (db (snd (body (w\<lparr>tick := Suc (tick w)\<rparr>))))"
    using assms by (simp add: keeps_def)
  with \<open>P (db w)\<close> tx show "P (db w')"
    by (auto simp: transaction_def pg_def Let_def split: option.splits prod.splits sum.splits)
qed

text \<open>A transaction that returns an error leaves the database as it was.\<close>

lemma transaction_atomic:
  "transaction e body w = (Inl f, w') \<Longrightarrow> db w' = db w"
  by (auto simp: transaction_def pg_def Let_def split: option.splits prod.splits sum.splits)

text \<open>\<open>quiet m\<close>: only the tick moves, and not backwards.\<close>

definition quiet :: "('r, 'a) app \<Rightarrow> bool" where
  "quiet m \<longleftrightarrow> (\<forall>w r w'. m w = (r, w') \<longrightarrow> db w' = db w \<and> redis w' = redis w \<and> tick w \<le> tick w')"

lemma quietD: "quiet m \<Longrightarrow> m w = (r, w') \<Longrightarrow> db w' = db w \<and> redis w' = redis w \<and> tick w \<le> tick w'"
  by (auto simp: quiet_def)

lemma quietI: "(\<And>w r w'. m w = (r, w') \<Longrightarrow> db w' = db w \<and> redis w' = redis w \<and> tick w \<le> tick w') \<Longrightarrow> quiet m"
  by (simp add: quiet_def)

lemma quiet_snd: "quiet m \<longleftrightarrow>
    (\<forall>w. db (snd (m w)) = db w \<and> redis (snd (m w)) = redis w \<and> tick w \<le> tick (snd (m w)))"
  unfolding quiet_def by (metis prod.collapse snd_conv)

lemma keeps_quiet: "quiet m \<Longrightarrow> keeps (\<lambda>w. P (db w) (redis w)) m"
  by (rule keepsI, frule (1) quietD) simp

lemma quiet_Now: "quiet (Now e)"
  by (rule quietI) (auto simp: Now_def)

lemma quiet_NewString: "quiet (NewString e)"
  by (rule quietI) (auto simp: NewString_def)

lemma quiet_RandInt: "quiet (RandInt e m)"
  by (rule quietI) (auto simp: RandInt_def)

lemma quiet_RandRead: "quiet (RandRead e m)"
  by (rule quietI) (auto simp: RandRead_def)

lemma quiet_GenerateFromPassword: "quiet (GenerateFromPassword e pw)"
  by (rule quietI) (auto simp: GenerateFromPassword_def)

lemma quiet_ret: "quiet (ret x)"
  by (rule quietI) (simp add: ret_def)

lemma quiet_fail: "quiet (fail x)"
  by (rule quietI) (simp add: fail_def)

lemma quiet_call: "quiet m \<Longrightarrow> (\<And>x. quiet (k x)) \<Longrightarrow> quiet (call m k)"
  by (rule quietI) (force simp: call_def dest: quietD split: prod.splits sum.splits)

lemma quiet_attempt:
  assumes "quiet m" and "\<And>r. quiet (k r)"
  shows "quiet (attempt m k)"
proof (rule quietI)
  fix w r w' assume run: "attempt m k w = (r, w')"
  obtain v w1 where m: "m w = (v, w1)" by fastforce
  then have "k v w1 = (r, w')" using run by (simp add: attempt_def)
  from quietD[OF assms(1) m] quietD[OF assms(2) this]
  show "db w' = db w \<and> redis w' = redis w \<and> tick w \<le> tick w'" by simp
qed

lemma quiet_if: "quiet a \<Longrightarrow> quiet b \<Longrightarrow> quiet (if c then a else b)"
  by simp

lemmas quiet_intros =
  quiet_Now quiet_NewString quiet_RandInt quiet_RandRead quiet_GenerateFromPassword
  quiet_ret quiet_fail quiet_call quiet_attempt quiet_if

lemma pg_Inl_db: "pg e q w = (Inl f, w') \<Longrightarrow> db w' = db w \<and> redis w' = redis w"
  by (auto simp: pg_def Let_def split: option.splits prod.splits sum.splits)

lemma pg_Inr:
  "pg e q w = (Inr x, w') \<longleftrightarrow>
     pg_fault e (tick w) = None \<and>
     (\<exists>d. q (clk e (tick w)) (uuid e (tick w)) (db w) = (Inr x, d) \<and>
          w' = w\<lparr>tick := Suc (tick w), db := d\<rparr>)"
  by (auto simp: pg_def Let_def split: option.splits prod.splits sum.splits)

lemma transaction_Inr:
  assumes "transaction e body w = (Inr x, w')"
  obtains w1 w2 where "db w1 = db w" and "redis w1 = redis w" and "tick w1 = Suc (tick w)"
    and "body w1 = (Inr x, w2)" and "db w' = db w2" and "redis w' = redis w2"
proof -
  obtain w2 where "body (w\<lparr>tick := Suc (tick w)\<rparr>) = (Inr x, w2)" and "w' = w2\<lparr>tick := Suc (tick w2)\<rparr>"
    using assms
    by (auto simp: transaction_def pg_def Let_def split: option.splits prod.splits sum.splits)
  then show thesis using that[of "w\<lparr>tick := Suc (tick w)\<rparr>" w2] by simp
qed

section \<open>Invariants over the database and Redis\<close>

abbreviation keeps_world :: "(database \<Rightarrow> 'r \<Rightarrow> bool) \<Rightarrow> ('r, 'a) app \<Rightarrow> bool" where
  "keeps_world P \<equiv> keeps (\<lambda>w. P (db w) (redis w))"

lemma keeps_world_pg: "(\<And>s. stmt_keeps (\<lambda>d. P d s) q) \<Longrightarrow> keeps_world P (pg e q)"
  by (rule keepsI) (auto simp: pg_def Let_def dest: stmt_keepsD
      split: option.splits prod.splits sum.splits)

lemma pg_tick: "pg e q w = (r, w') \<Longrightarrow> tick w' = Suc (tick w)"
  by (auto simp: pg_def Let_def split: option.splits prod.splits sum.splits)

lemma stmt_pure_quiet:
  assumes "\<And>P. stmt_keeps P q"
  shows "quiet (pg e q)"
proof (rule quietI)
  fix w r w' assume run: "pg e q w = (r, w')"
  have "keeps_world (\<lambda>d s. d = db w \<and> s = redis w) (pg e q)" by (intro keeps_world_pg assms)
  from keepsD[OF this _ run] pg_tick[OF run] show "db w' = db w \<and> redis w' = redis w \<and> tick w \<le> tick w'" by simp
qed

lemma quiet_on_no_rows: "quiet m \<Longrightarrow> quiet (on_no_rows x m)"
  by (simp add: quiet_snd)

lemma keeps_world_effects:
  "keeps_world P (Now e)" "keeps_world P (NewString e)" "keeps_world P (RandInt e m)"
  "keeps_world P (RandRead e m)" "keeps_world P (GenerateFromPassword e pw)"
  by (rule keeps_quiet quiet_intros)+

text \<open>A statement does not reach Redis.\<close>

lemma pg_redis: "pg e q w = (r, w') \<Longrightarrow> redis w' = redis w"
  by (auto simp: pg_def Let_def split: option.splits prod.splits sum.splits)

lemma transaction_redis:
  assumes "\<And>c. keeps (\<lambda>w. redis w = c) body" and "transaction e body w = (r, w')"
  shows "redis w' = redis w"
proof -
  have "redis (snd (body v)) = redis v" for v
    using assms(1)[of "redis v"] by (simp add: keeps_def)
  then have "redis w2 = redis v" if "body v = (r2, w2)" for v r2 w2
    using that by (metis snd_conv)
  then show ?thesis
    using assms(2)
    by (fastforce simp: transaction_def pg_def Let_def split: option.splits prod.splits sum.splits)
qed

lemma keeps_redis_pg [keeps_intros]: "keeps (\<lambda>w. redis w = c) (pg e q)"
  by (rule keepsI) (auto dest: pg_redis)

text \<open>What a program returns when it starts in a world with \<open>I\<close>\<close>

definition yields :: "('w \<Rightarrow> bool) \<Rightarrow> ('a \<Rightarrow> bool) \<Rightarrow> ('w, 'e, 'a) prog \<Rightarrow> bool" where
  "yields I Q m \<longleftrightarrow> (\<forall>w x w'. I w \<longrightarrow> m w = (Inr x, w') \<longrightarrow> Q x)"

lemma yieldsI: "(\<And>w x w'. I w \<Longrightarrow> m w = (Inr x, w') \<Longrightarrow> Q x) \<Longrightarrow> yields I Q m"
  by (auto simp: yields_def)

lemma keeps_call_yields:
  assumes "keeps I m" and "yields I Q m" and "\<And>x. Q x \<Longrightarrow> keeps I (k x)"
  shows "keeps I (call m k)"
proof (rule keepsI)
  fix w r w' assume "I w" and run: "call m k w = (r, w')"
  obtain v w1 where m: "m w = (v, w1)" by fastforce
  have I1: "I w1" using keepsD[OF assms(1) \<open>I w\<close> m] .
  show "I w'"
  proof (cases v)
    case (Inl x)
    then show ?thesis using run m I1 by (simp add: call_def)
  next
    case (Inr x)
    then have "Q x" using assms(2) m \<open>I w\<close> by (auto simp: yields_def)
    then show ?thesis using run m Inr I1 keepsD[OF assms(3)] by (auto simp: call_def)
  qed
qed

end
