(* ===== verification/Redis_Store.thy ===== *)
theory Redis_Store
  imports Schema
begin

text \<open>
  internal/db/redis.go: the handle every component gets, and the interface of the server behind
  it. The server is not code of the repository, so it is a record of functions over an
  arbitrary state. What the code relies on is the locale \<open>redis_server\<close>: a command that
  succeeds does what its documentation says to an abstract key space with deadlines, one that
  fails may have been executed up to some point, and a read changes nothing. The locale
  \<open>healthy_redis\<close> adds that no command fails. Both are interpreted on a server that keeps the
  key space itself and can be taken down.
\<close>

section \<open>The client\<close>

datatype redis_cmd =
    CmdSet string string duration
  | CmdDel string
  | CmdIncr string
  | CmdExpire string duration

text \<open>Go's \<open>Set\<close> and \<open>Del\<close> are pipelines of one command here.\<close>

record 'r redis_client =
  r_get :: "time \<Rightarrow> string \<Rightarrow> 'r \<Rightarrow> (redis_err + string) \<times> 'r"
  r_exists :: "time \<Rightarrow> string \<Rightarrow> 'r \<Rightarrow> (redis_err + int) \<times> 'r"
  r_exec :: "time \<Rightarrow> redis_cmd list \<Rightarrow> 'r \<Rightarrow> (redis_err + int list) \<times> 'r"
  r_publish :: "time \<Rightarrow> string \<Rightarrow> string \<Rightarrow> 'r \<Rightarrow> (redis_err + unit) \<times> 'r"

record 'r RedisStore =
  rs_client :: "'r redis_client option"
  rs_available :: bool

text \<open>\<open>ConnectRedis\<close>: \<open>REDIS_ADDR\<close>, the client it makes, and whether the ping succeeded.\<close>

definition ConnectRedis :: "string \<Rightarrow> 'r redis_client \<Rightarrow> bool \<Rightarrow> 'r RedisStore" where
  "ConnectRedis addr cl ping_ok =
     (if addr = [] then \<lparr>rs_client = None, rs_available = False\<rparr>
      else if \<not> ping_ok then \<lparr>rs_client = Some cl, rs_available = False\<rparr>
      else \<lparr>rs_client = Some cl, rs_available = True\<rparr>)"

text \<open>
  \<open>Connect\<close> of internal/db/postgres.go, over the making of a pool and its ping. Every failure
  ends the process, here or in \<open>main\<close>.
\<close>

definition postgres_Connect :: "(string \<Rightarrow> string) \<Rightarrow> (string \<Rightarrow> string + 'p) \<Rightarrow> ('p \<Rightarrow> bool) \<Rightarrow> string + 'p" where
  "postgres_Connect getenv newPool ping =
     (let databaseURL = getenv ''DATABASE_URL'' in
      if databaseURL = [] then Inl ''DATABASE_URL environment variable is required''
      else
        (case newPool databaseURL of
           Inl x \<Rightarrow> Inl x
         | Inr pool \<Rightarrow> if ping pool then Inr pool else Inl ''failed to connect to postgres''))"

definition IsAvailable :: "'r RedisStore \<Rightarrow> bool" where
  "IsAvailable r \<longleftrightarrow> rs_available r \<and> rs_client r \<noteq> None"

text \<open>The guard \<open>c.redis != nil && c.redis.IsAvailable()\<close>\<close>

fun usable :: "'r RedisStore option \<Rightarrow> bool" where
  "usable None = False"
| "usable (Some r) = IsAvailable r"

text \<open>
  One round trip through \<open>Client()\<close>. A call on a nil client panics in Go; the handlers'
  \<open>Recover\<close> turns the panic into an error.
\<close>

definition with_client ::
    "env \<Rightarrow> 'r RedisStore option \<Rightarrow> ('r redis_client \<Rightarrow> time \<Rightarrow> 'r \<Rightarrow> (redis_err + 'a) \<times> 'r) \<Rightarrow>
     ('r, 'a) app" where
  "with_client e rs op w =
     (case rs of
        None \<Rightarrow> (Inl (OtherE ''nil pointer dereference''), w)
      | Some r \<Rightarrow>
          (case rs_client r of
             None \<Rightarrow> (Inl (OtherE ''nil pointer dereference''), w)
           | Some c \<Rightarrow>
               (case op c (clk e (tick w)) (redis w) of
                  (Inl x, s) \<Rightarrow> (Inl (RedisE x), w\<lparr>redis := s, tick := Suc (tick w)\<rparr>)
                | (Inr v, s) \<Rightarrow> (Inr v, w\<lparr>redis := s, tick := Suc (tick w)\<rparr>))))"

lemma keeps_with_client [keeps_intros]: "keeps_db P (with_client e rs op)"
  by (rule keepsI) (auto simp: with_client_def split: option.splits prod.splits sum.splits)

lemma frame_with_client: "frame db (with_client e rs op)"
  by (rule frameI) (rule keeps_with_client)

text \<open>The handle of a configured server: its client and what the ping at start said.\<close>

definition store_of :: "'r redis_client \<Rightarrow> bool \<Rightarrow> 'r RedisStore option" where
  "store_of C b = Some \<lparr>rs_client = Some C, rs_available = b\<rparr>"

lemma with_client_store_of:
  "with_client e (store_of C b) op w =
     (case op C (clk e (tick w)) (redis w) of
        (Inl x, s) \<Rightarrow> (Inl (RedisE x), w\<lparr>redis := s, tick := Suc (tick w)\<rparr>)
      | (Inr v, s) \<Rightarrow> (Inr v, w\<lparr>redis := s, tick := Suc (tick w)\<rparr>))"
  by (simp add: with_client_def store_of_def)

lemma usable_store_of: "usable (store_of C b) = b"
  by (simp add: store_of_def IsAvailable_def)

lemma with_client_cong_run [run_congs]: "w = w' \<Longrightarrow> with_client e rs op w = with_client e rs op w'"
  by simp

lemma ConnectRedis_available:
  "IsAvailable (ConnectRedis addr cl ping_ok) \<longleftrightarrow> addr \<noteq> [] \<and> ping_ok"
  by (simp add: ConnectRedis_def IsAvailable_def)

text \<open>
  What the code stores it encodes with \<open>encoding/json\<close>; a codec is the pair of \<open>Marshal\<close> and
  \<open>Unmarshal\<close> at one type. \<open>codec_law\<close> is the round trip the code relies on.
\<close>

record 'a codec =
  Marshal :: "'a \<Rightarrow> string"
  Unmarshal :: "string \<Rightarrow> 'a option"

definition codec_law :: "'a codec \<Rightarrow> bool" where
  "codec_law J \<longleftrightarrow> (\<forall>x. Unmarshal J (Marshal J x) = Some x)"

section \<open>The abstract key space\<close>

datatype redis_val = RStr string | RInt int

type_synonym keyspace = "string \<rightharpoonup> redis_val \<times> time option"

definition live :: "keyspace \<Rightarrow> time \<Rightarrow> string \<Rightarrow> redis_val option" where
  "live K t k =
     (case K k of
        None \<Rightarrow> None
      | Some (v, None) \<Rightarrow> Some v
      | Some (v, Some d) \<Rightarrow> if t < d then Some v else None)"

text \<open>A zero expiration means none; the server rejects a negative one.\<close>

fun apply_cmd :: "time \<Rightarrow> redis_cmd \<Rightarrow> keyspace \<Rightarrow> int \<times> keyspace" where
  "apply_cmd t (CmdSet k v ttl) K =
     (if ttl < 0 then (0, K)
      else (1, K(k \<mapsto> (RStr v, if ttl = 0 then None else Some (t + ttl)))))"
| "apply_cmd t (CmdDel k) K = (if live K t k = None then 0 else 1, K(k := None))"
| "apply_cmd t (CmdIncr k) K =
     (case live K t k of
        None \<Rightarrow> (1, K(k \<mapsto> (RInt 1, None)))
      | Some (RInt n) \<Rightarrow> (n + 1, K(k \<mapsto> (RInt (n + 1), snd (the (K k)))))
      | Some (RStr s) \<Rightarrow>
          (case Atoi s of
             None \<Rightarrow> (0, K)
           | Some n \<Rightarrow> (n + 1, K(k \<mapsto> (RInt (n + 1), snd (the (K k)))))))"
| "apply_cmd t (CmdExpire k ttl) K =
     (case live K t k of
        None \<Rightarrow> (0, K)
      | Some v \<Rightarrow> (1, if ttl \<le> 0 then K(k := None) else K(k \<mapsto> (v, Some (t + ttl)))))"

fun apply_cmds :: "time \<Rightarrow> redis_cmd list \<Rightarrow> keyspace \<Rightarrow> int list \<times> keyspace" where
  "apply_cmds t [] K = ([], K)"
| "apply_cmds t (c # cs) K =
     (let (n, K1) = apply_cmd t c K; (ns, K2) = apply_cmds t cs K1 in (n # ns, K2))"

fun cmd_key :: "redis_cmd \<Rightarrow> string" where
  "cmd_key (CmdSet k v ttl) = k"
| "cmd_key (CmdDel k) = k"
| "cmd_key (CmdIncr k) = k"
| "cmd_key (CmdExpire k ttl) = k"

lemma live_mono: "t \<le> t' \<Longrightarrow> live K t' k = None \<or> live K t' k = live K t k"
  by (auto simp: live_def split: option.splits)

lemma live_antimono: "t \<le> t' \<Longrightarrow> live K t' k = Some v \<Longrightarrow> live K t k = Some v"
  using live_mono[of t t' K k] by auto

lemma apply_cmd_other: "k \<noteq> cmd_key c \<Longrightarrow> snd (apply_cmd t c K) k = K k"
  by (cases c) (auto split: option.splits redis_val.splits)

lemma apply_cmds_other:
  "k \<notin> cmd_key ` set cs \<Longrightarrow> snd (apply_cmds t cs K) k = K k"
proof (induction cs arbitrary: K)
  case (Cons c cs)
  then show ?case by (auto simp: Let_def case_prod_beta apply_cmd_other)
qed simp

lemma live_cong: "K' k = K k \<Longrightarrow> live K' t k = live K t k"
  by (simp add: live_def)

text \<open>The text a \<open>GET\<close> returns.\<close>

fun val_text :: "redis_val \<Rightarrow> string" where
  "val_text (RStr s) = s"
| "val_text (RInt n) = Itoa n"

section \<open>The contract of the server\<close>

locale redis_server =
  fixes C :: "'r redis_client"
    and kspace :: "'r \<Rightarrow> keyspace"
  assumes get_pure: "r_get C t k s = (r, s') \<Longrightarrow> kspace s' = kspace s"
    and get_hit: "r_get C t k s = (Inr v, s') \<Longrightarrow>
      map_option val_text (live (kspace s) t k) = Some v"
    and get_miss: "r_get C t k s = (Inl RedisNil, s') \<Longrightarrow> live (kspace s) t k = None"
    and exists_pure: "r_exists C t k s = (r', s') \<Longrightarrow> kspace s' = kspace s"
    and exists_ok: "r_exists C t k s = (Inr n, s') \<Longrightarrow> 0 < n \<longleftrightarrow> live (kspace s) t k \<noteq> None"
    and exec_ok: "r_exec C t cs s = (Inr ns, s') \<Longrightarrow> apply_cmds t cs (kspace s) = (ns, kspace s')"
    and exec_fail: "r_exec C t cs s = (Inl x, s') \<Longrightarrow>
      \<exists>n. kspace s' = snd (apply_cmds t (take n cs) (kspace s))"
    and publish_pure: "r_publish C t ch p s = (r'', s') \<Longrightarrow> kspace s' = kspace s"
begin

text \<open>A command cannot touch a key it does not name, even when it fails.\<close>

lemma exec_other:
  assumes "r_exec C t cs s = (r, s')" and "k \<notin> cmd_key ` set cs"
  shows "kspace s' k = kspace s k"
proof (cases r)
  case (Inl x)
  then obtain n where "kspace s' = snd (apply_cmds t (take n cs) (kspace s))"
    using assms(1) exec_fail by blast
  moreover have "k \<notin> cmd_key ` set (take n cs)"
    using assms(2) by (auto dest: in_set_takeD)
  ultimately show ?thesis by (simp add: apply_cmds_other)
next
  case (Inr ns)
  with assms(1) have "apply_cmds t cs (kspace s) = (ns, kspace s')" by (simp only: exec_ok)
  then show ?thesis using assms(2) apply_cmds_other[of k cs t "kspace s"] by simp
qed

lemma set_ok:
  "r_exec C t [CmdSet k v ttl] s = (Inr ns, s') \<Longrightarrow> 0 < ttl \<Longrightarrow>
   kspace s' = (kspace s)(k \<mapsto> (RStr v, Some (t + ttl)))"
  by (auto dest!: exec_ok)

lemma set_any:
  assumes "r_exec C t [CmdSet k v ttl] s = (r, s')"
  shows "kspace s' = kspace s \<or> (0 \<le> ttl \<and> kspace s' = (kspace s)(k \<mapsto> (RStr v, if ttl = 0 then None else Some (t + ttl))))"
proof (cases r)
  case (Inl x)
  then obtain n where "kspace s' = snd (apply_cmds t (take n [CmdSet k v ttl]) (kspace s))"
    using assms exec_fail by blast
  then show ?thesis by (cases n) (auto split: if_splits)
next
  case (Inr ns)
  with assms have "apply_cmds t [CmdSet k v ttl] (kspace s) = (ns, kspace s')" by (simp only: exec_ok)
  then show ?thesis by (auto split: if_splits)
qed

lemma del_any:
  assumes "r_exec C t [CmdDel k] s = (r, s')"
  shows "kspace s' = kspace s \<or> kspace s' = (kspace s)(k := None)"
proof (cases r)
  case (Inl x)
  then obtain n where "kspace s' = snd (apply_cmds t (take n [CmdDel k]) (kspace s))"
    using assms exec_fail by blast
  then show ?thesis by (cases n) auto
next
  case (Inr ns)
  with assms have "apply_cmds t [CmdDel k] (kspace s) = (ns, kspace s')" by (simp only: exec_ok)
  then show ?thesis by auto
qed

lemma del_ok: "r_exec C t [CmdDel k] s = (Inr ns, s') \<Longrightarrow> kspace s' = (kspace s)(k := None)"
  by (auto dest!: exec_ok)

end

text \<open>A server that answers every command.\<close>

locale healthy_redis = redis_server +
  assumes get_up: "r_get C t k s = (Inl x, s') \<Longrightarrow> x = RedisNil"
    and exists_up: "r_exists C t k s \<noteq> (Inl x, s')"
    and exec_up: "r_exec C t cs s \<noteq> (Inl x, s')"
begin

lemma exec_total: obtains ns s' where "r_exec C t cs s = (Inr ns, s')"
  and "apply_cmds t cs (kspace s) = (ns, kspace s')"
  using exec_up exec_ok by (metis obj_sumE prod.exhaust)

lemma get_eq:
  "\<exists>s'. r_get C t k s =
      ((case live (kspace s) t k of None \<Rightarrow> Inl RedisNil | Some v \<Rightarrow> Inr (val_text v)), s') \<and>
    kspace s' = kspace s"
proof -
  obtain r s' where g: "r_get C t k s = (r, s')" by (metis prod.exhaust)
  show ?thesis
  proof (cases r)
    case (Inl x)
    with g get_up[of t k s] get_miss[of t k s] get_pure[OF g] show ?thesis by auto
  next
    case (Inr u)
    with g get_hit[of t k s u s'] get_pure[OF g] show ?thesis by auto
  qed
qed

end

section \<open>A server that meets the contract\<close>

text \<open>
  The key space itself, with a switch: a server that is down fails every command without
  executing it.
\<close>

record mem_redis =
  cells :: keyspace
  down :: bool

definition mem_client :: "mem_redis redis_client" where
  "mem_client =
     \<lparr>r_get = (\<lambda>t k s. if down s then (Inl (RedisFail ''down''), s)
        else (case live (cells s) t k of
                None \<Rightarrow> (Inl RedisNil, s)
              | Some v \<Rightarrow> (Inr (val_text v), s))),
      r_exists = (\<lambda>t k s. if down s then (Inl (RedisFail ''down''), s)
        else (Inr (if live (cells s) t k = None then 0 else 1), s)),
      r_exec = (\<lambda>t cs s. if down s then (Inl (RedisFail ''down''), s)
        else (let (ns, K) = apply_cmds t cs (cells s) in (Inr ns, s\<lparr>cells := K\<rparr>))),
      r_publish = (\<lambda>t ch p s. if down s then (Inl (RedisFail ''down''), s) else (Inr (), s))\<rparr>"

interpretation mem: redis_server mem_client cells
proof (unfold_locales, goal_cases)
  case (7 t cs s x s')
  then have "cells s' = cells s"
    by (auto simp: mem_client_def Let_def split: if_splits prod.splits)
  then show ?case by (intro exI[of _ 0]) simp
qed (auto simp: mem_client_def Let_def split: if_splits option.splits prod.splits)

text \<open>The same server without the switch.\<close>

definition up_client :: "keyspace redis_client" where
  "up_client =
     \<lparr>r_get = (\<lambda>t k K. case live K t k of
                None \<Rightarrow> (Inl RedisNil, K)
              | Some v \<Rightarrow> (Inr (val_text v), K)),
      r_exists = (\<lambda>t k K. (Inr (if live K t k = None then 0 else 1), K)),
      r_exec = (\<lambda>t cs K. let (ns, K') = apply_cmds t cs K in (Inr ns, K')),
      r_publish = (\<lambda>t ch p K. (Inr (), K))\<rparr>"

interpretation up: healthy_redis up_client id
  by unfold_locales
     (auto simp: up_client_def Let_def split: option.splits redis_val.splits prod.splits)

end
