(* ===== verification/Sample.thy ===== *)
theory Sample
  imports Redis_Store
begin

text \<open>
  A concrete environment the witnesses evaluate the programs in: a clock that advances a
  second per effect, distinct identifiers, a database that never fails, a hash that can be
  inverted and a case table that changes nothing.
\<close>

definition sample_env :: env where
  "sample_env =
     \<lparr>clk = (\<lambda>n. int n * 1000000000),
      uuid = (\<lambda>n. CHR ''u'' # replicate n (CHR ''0'')),
      pg_fault = (\<lambda>n. None),
      rand_int = (\<lambda>n m. Some 0),
      rand_bytes = (\<lambda>n m. Some []),
      bcrypt_gen = (\<lambda>n pw. Some (''bcrypt:'' @ pw)),
      bcrypt_cmp = (\<lambda>h pw. h = ''bcrypt:'' @ pw),
      sha256 = (\<lambda>s. s),
      pg_uuid = Some,
      pg_inet = Some,
      parse_address = (\<lambda>s. CHR ''@'' \<in> set s),
      uni_upper = (\<lambda>s. s),
      uuid_ok = (\<lambda>s. s \<noteq> [])\<rparr>"

definition sample_world :: "'r \<Rightarrow> 'r world" where
  "sample_world s = \<lparr>db = empty_db, redis = s, tick = 0\<rparr>"

lemma sample_env_simps [run_rules]:
  "clk sample_env n = int n * 1000000000"
  "uuid sample_env n = CHR ''u'' # replicate n (CHR ''0'')"
  "pg_fault sample_env n = None"
  "rand_int sample_env n m = Some 0"
  "rand_bytes sample_env n m = Some []"
  "bcrypt_gen sample_env n pw = Some (''bcrypt:'' @ pw)"
  "bcrypt_cmp sample_env h pw \<longleftrightarrow> h = ''bcrypt:'' @ pw"
  "sha256 sample_env s = s"
  "pg_uuid sample_env s = Some s"
  "pg_inet sample_env s = Some s"
  "parse_address sample_env s \<longleftrightarrow> CHR ''@'' \<in> set s"
  "uni_upper sample_env s = s"
  "uuid_ok sample_env s \<longleftrightarrow> s \<noteq> []"
  by (simp_all add: sample_env_def)

lemma sample_uuid_law: "uuid_law sample_env"
  by (simp add: uuid_law_def sample_env_def)

lemmas run_defs =
  env_call_defs returning_def select_row_def select_val_def with_uuid_def constrained_def insert_defs
  with_client_store_of usable_store_of up_client_def mem_client_def live_def
  hex_digits_def empty_db_def sample_world_def Let_def

lemmas sample_defs = sample_env_def sample_world_def empty_db_def

text \<open>
  A codec for the witnesses: strings are written with their length in unary in front, \<open>111:abc\<close>.
\<close>

fun tally :: "string \<Rightarrow> nat \<times> string" where
  "tally [] = (0, [])"
| "tally (c # s) = (if c = CHR ''1'' then (let (n, r) = tally s in (Suc n, r)) else (0, c # s))"

definition net_enc :: "string \<Rightarrow> string" where
  "net_enc s = replicate (length s) (CHR ''1'') @ CHR '':'' # s"

definition net_dec :: "string \<Rightarrow> (string \<times> string) option" where
  "net_dec s = (case tally s of
     (n, c # r) \<Rightarrow> if c = CHR '':'' \<and> n \<le> length r then Some (take n r, drop n r) else None
   | (n, []) \<Rightarrow> None)"

lemma tally_replicate: "tally (replicate n (CHR ''1'') @ CHR '':'' # r) = (n, CHR '':'' # r)"
  by (induction n) simp_all

lemma net_dec_enc [simp]: "net_dec (net_enc s @ r) = Some (s, r)"
  by (simp add: net_dec_def net_enc_def tally_replicate)

definition net_enc_list :: "string list \<Rightarrow> string" where
  "net_enc_list xs = concat (map net_enc xs)"

fun net_dec_list :: "nat \<Rightarrow> string \<Rightarrow> string list option" where
  "net_dec_list 0 s = (if s = [] then Some [] else None)"
| "net_dec_list (Suc n) s =
     (case net_dec s of
        None \<Rightarrow> None
      | Some (x, r) \<Rightarrow> (case net_dec_list n r of None \<Rightarrow> None | Some xs \<Rightarrow> Some (x # xs)))"

lemma net_dec_enc_list: "net_dec_list (length xs) (net_enc_list xs) = Some xs"
  by (induction xs) (simp_all add: net_enc_list_def)

end
