(* ===== verification/Jwt.thy ===== *)
theory Jwt
  imports Sample
begin

text \<open>
  internal/auth/jwt.go: the \<open>TokenManager\<close> interface and the JWT service that implements it.
  The JWT library is a parameter: it signs claims, truncates dates to its precision, and
  parses a token with a key function that sees the token's signing method. The locale
  \<open>token_manager\<close> is what the user and organisation services rely on: no operation touches
  the database or Redis, and a refresh token comes with its own hash.
\<close>

record Claims =
  UserID :: string
  Role :: string
  IssuedAt :: time
  ExpiresAt :: time

record 'r TokenManager =
  GenerateAccessToken :: "string \<Rightarrow> string \<Rightarrow> ('r, string) app"
  VerifyAccessToken :: "string \<Rightarrow> ('r, Claims) app"
  GenerateRefreshToken :: "('r, string \<times> string) app"
  HashToken :: "string \<Rightarrow> string"

section \<open>The library\<close>

datatype signing_method = HS256 | OtherMethod string

datatype jwt_error = TokenExpired | OtherJwtError string

text \<open>
  \<open>jwt_parse now token keyfunc\<close>: the claims and \<open>token.Valid\<close>. The library calls the key
  function with the method in the token's header and fails when that does.
\<close>

record jwt_lib =
  jwt_sign :: "string \<Rightarrow> Claims \<Rightarrow> string option"
  jwt_date :: "time \<Rightarrow> time"
  jwt_parse :: "time \<Rightarrow> string \<Rightarrow> (signing_method \<Rightarrow> err + string) \<Rightarrow> jwt_error + Claims \<times> bool"

text \<open>
  What its documentation says of signed claims: parsed with the key they were signed with they
  are the claims, valid until they expire; a key function that refuses the method, or another
  key, makes the parse fail.
\<close>

definition jwt_lib_law :: "jwt_lib \<Rightarrow> bool" where
  "jwt_lib_law L \<longleftrightarrow>
     (\<forall>now key c tok kf. jwt_sign L key c = Some tok \<longrightarrow>
        jwt_parse L now tok kf =
          (case kf HS256 of
             Inl x \<Rightarrow> Inl (OtherJwtError ''keyfunc'')
           | Inr k \<Rightarrow> if k \<noteq> key then Inl (OtherJwtError ''signature'')
                      else if ExpiresAt c \<le> now then Inl TokenExpired
                      else Inr (c, True)))"

section \<open>The service\<close>

record JWTService =
  secret :: string
  expiryHours :: int

text \<open>\<open>JWT_SECRET\<close> and \<open>JWT_EXPIRY_HOURS\<close>, the empty string when unset\<close>

definition NewJWTService :: "string \<Rightarrow> string \<Rightarrow> err + JWTService" where
  "NewJWTService jwt_secret raw =
     (if jwt_secret = [] then Inl (OtherE ''JWT_SECRET environment variable is required'')
      else if raw \<noteq> [] then
        (case Atoi raw of
           None \<Rightarrow> Inl (OtherE ''invalid JWT_EXPIRY_HOURS'')
         | Some parsed \<Rightarrow> Inr \<lparr>secret = jwt_secret, expiryHours = parsed\<rparr>)
      else Inr \<lparr>secret = jwt_secret, expiryHours = 1\<rparr>)"

definition jwt_GenerateAccessToken ::
    "env \<Rightarrow> jwt_lib \<Rightarrow> JWTService \<Rightarrow> string \<Rightarrow> string \<Rightarrow> ('r, string) app" where
  "jwt_GenerateAccessToken e L s userID role =
     call (Now e) (\<lambda>now.
       let claims = \<lparr>UserID = userID, Role = role, IssuedAt = jwt_date L now,
                     ExpiresAt = jwt_date L (now + wrap64 (expiryHours s * Hour))\<rparr>
       in case jwt_sign L (secret s) claims of
            None \<Rightarrow> fail (OtherE ''sign'')
          | Some tok \<Rightarrow> ret tok)"

definition jwt_VerifyAccessToken :: "env \<Rightarrow> jwt_lib \<Rightarrow> JWTService \<Rightarrow> string \<Rightarrow> ('r, Claims) app" where
  "jwt_VerifyAccessToken e L s tokenString =
     call (Now e) (\<lambda>now.
       case jwt_parse L now tokenString
              (\<lambda>m. if m \<noteq> HS256 then Inl (AuthE InvalidToken) else Inr (secret s)) of
         Inl x \<Rightarrow> if x = TokenExpired then fail (AuthE ExpiredToken) else fail (AuthE InvalidToken)
       | Inr (claims, valid) \<Rightarrow> if \<not> valid then fail (AuthE InvalidToken) else ret claims)"

definition jwt_HashToken :: "env \<Rightarrow> string \<Rightarrow> string" where
  "jwt_HashToken e raw = EncodeToString (sha256 e raw)"

definition jwt_GenerateRefreshToken :: "env \<Rightarrow> ('r, string \<times> string) app" where
  "jwt_GenerateRefreshToken e = call (NewString e) (\<lambda>raw. ret (raw, jwt_HashToken e raw))"

definition jwt_manager :: "env \<Rightarrow> jwt_lib \<Rightarrow> JWTService \<Rightarrow> 'r TokenManager" where
  "jwt_manager e L s =
     \<lparr>GenerateAccessToken = jwt_GenerateAccessToken e L s,
      VerifyAccessToken = jwt_VerifyAccessToken e L s,
      GenerateRefreshToken = jwt_GenerateRefreshToken e,
      HashToken = jwt_HashToken e\<rparr>"

section \<open>The interface\<close>

locale token_manager =
  fixes T :: "'r TokenManager"
  assumes quiet_access: "quiet (GenerateAccessToken T u r)"
    and quiet_verify: "quiet (VerifyAccessToken T s)"
    and quiet_refresh: "quiet (GenerateRefreshToken T)"
    and refresh_hash: "GenerateRefreshToken T w = (Inr (raw, h), w') \<Longrightarrow> h = HashToken T raw"
begin

lemmas manager_quiet = quiet_access quiet_verify quiet_refresh

lemma keeps_manager:
  "keeps (\<lambda>w. P (db w) (redis w)) (GenerateAccessToken T u r)"
  "keeps (\<lambda>w. P (db w) (redis w)) (VerifyAccessToken T s)"
  "keeps (\<lambda>w. P (db w) (redis w)) (GenerateRefreshToken T)"
  by (rule keeps_quiet manager_quiet)+

end

interpretation jwt: token_manager "jwt_manager e L s"
proof (unfold_locales, goal_cases)
  case (1 u r)
  then show ?case
    by (auto simp: jwt_manager_def jwt_GenerateAccessToken_def Let_def
        intro!: quiet_intros split: option.splits)
next
  case (2 t)
  then show ?case
    by (auto simp: jwt_manager_def jwt_VerifyAccessToken_def
        intro!: quiet_intros split: sum.splits)
next
  case 3
  then show ?case
    by (auto simp: jwt_manager_def jwt_GenerateRefreshToken_def intro!: quiet_intros)
next
  case (4 w raw h w')
  then show ?case
    by (auto simp: jwt_manager_def jwt_GenerateRefreshToken_def prog_simps)
qed

lemma verify_own:
  assumes "jwt_lib_law L"
    and "jwt_GenerateAccessToken e L s userID role w = (Inr tok, w1)"
  shows "jwt_VerifyAccessToken e L s' tok w2 =
    ((if secret s' \<noteq> secret s then Inl (AuthE InvalidToken)
      else if jwt_date L (clk e (tick w) + wrap64 (expiryHours s * Hour)) \<le> clk e (tick w2)
      then Inl (AuthE ExpiredToken)
      else Inr \<lparr>UserID = userID, Role = role, IssuedAt = jwt_date L (clk e (tick w)),
                ExpiresAt = jwt_date L (clk e (tick w) + wrap64 (expiryHours s * Hour))\<rparr>),
     w2\<lparr>tick := Suc (tick w2)\<rparr>)"
  using assms
  by (auto simp: jwt_GenerateAccessToken_def jwt_VerifyAccessToken_def jwt_lib_law_def call_def
      Now_def ret_def fail_def Let_def split: option.splits)

text \<open>
  A token the service has just signed verifies to the user and role it was made for, as
  long as the clock has not reached the expiry in it, and is reported expired from then on;
  a service with another secret rejects it as invalid.
\<close>

theorem VerifyAccessToken_own:
  assumes "jwt_lib_law L"
    and "jwt_GenerateAccessToken e L s userID role w = (Inr tok, w1)"
  shows "fst (jwt_VerifyAccessToken e L s' tok w2) =
    (if secret s' \<noteq> secret s then Inl (AuthE InvalidToken)
     else if jwt_date L (clk e (tick w) + wrap64 (expiryHours s * Hour)) \<le> clk e (tick w2)
     then Inl (AuthE ExpiredToken)
     else Inr \<lparr>UserID = userID, Role = role, IssuedAt = jwt_date L (clk e (tick w)),
               ExpiresAt = jwt_date L (clk e (tick w) + wrap64 (expiryHours s * Hour))\<rparr>)"
  by (simp add: verify_own[OF assms])

text \<open>A library that signs one token, for the witnesses.\<close>

definition sample_claims :: Claims where
  "sample_claims = \<lparr>UserID = ''alice'', Role = ''user'', IssuedAt = 0, ExpiresAt = 3600000000000\<rparr>"

definition sample_jwt :: jwt_lib where
  "sample_jwt =
     \<lparr>jwt_sign = (\<lambda>key c. if key = ''k'' \<and> c = sample_claims then Some ''token'' else None),
      jwt_date = (\<lambda>t. t),
      jwt_parse = (\<lambda>now tok kf.
        if tok \<noteq> ''token'' then Inl (OtherJwtError ''malformed'')
        else case kf HS256 of
               Inl x \<Rightarrow> Inl (OtherJwtError ''keyfunc'')
             | Inr k \<Rightarrow> if k \<noteq> ''k'' then Inl (OtherJwtError ''signature'')
                        else if ExpiresAt sample_claims \<le> now then Inl TokenExpired
                        else Inr (sample_claims, True))\<rparr>"

lemma sample_jwt_law: "jwt_lib_law sample_jwt"
  by (simp add: jwt_lib_law_def sample_jwt_def split: if_splits)

theorem VerifyAccessToken_own_witness:
  "\<exists>w1. jwt_GenerateAccessToken sample_env sample_jwt \<lparr>secret = ''k'', expiryHours = 1\<rparr> ''alice'' ''user''
      (sample_world ()) = (Inr ''token'', w1) \<and>
    fst (jwt_VerifyAccessToken sample_env sample_jwt \<lparr>secret = ''k'', expiryHours = 1\<rparr> ''token'' w1)
      = Inr sample_claims"
proof -
  have gen: "jwt_GenerateAccessToken sample_env sample_jwt \<lparr>secret = ''k'', expiryHours = 1\<rparr>
      ''alice'' ''user'' (sample_world ()) = (Inr ''token'', sample_world ()\<lparr>tick := 1\<rparr>)"
    by (simp add: jwt_GenerateAccessToken_def call_def Now_def ret_def sample_defs sample_jwt_def
        sample_claims_def duration_defs wrap64_def)
  show ?thesis
    using gen VerifyAccessToken_own[OF sample_jwt_law gen,
        of "\<lparr>secret = ''k'', expiryHours = 1\<rparr>" "sample_world ()\<lparr>tick := 1\<rparr>"]
    by (simp add: sample_defs sample_jwt_def sample_claims_def duration_defs wrap64_def)
qed

end
