(* ===== verification/Http.thy ===== *)
theory Http
  imports Schema
begin

text \<open>
  pkg/response and what the handlers see of Echo: the JSON envelope they answer with, the path
  parameters, and the values the middleware leaves in the context. \<open>c.Bind\<close> is the body it
  produces, or \<open>None\<close> when it fails.
\<close>

datatype 'a reply = Success nat 'a | Failure nat string

type_synonym ('r, 'a) handler = "'r world \<Rightarrow> 'a reply \<times> 'r world"

definition answer :: "'a reply \<Rightarrow> ('r, 'a) handler" where
  "answer r w = (r, w)"

text \<open>
  \<open>result, err := m; if err != nil { return mapError(c, err) };\<close>
  \<open>return response.Success(c, code, f(result))\<close>
\<close>

definition respond ::
    "nat \<Rightarrow> (err \<Rightarrow> 'b reply) \<Rightarrow> ('a \<Rightarrow> 'b) \<Rightarrow> ('r, 'a) app \<Rightarrow> ('r, 'b) handler" where
  "respond code mapError f m w =
     (case m w of (Inl e, w') \<Rightarrow> (mapError e, w') | (Inr x, w') \<Rightarrow> (Success code (f x), w'))"

text \<open>
  The context: the request's Authorization header, \<open>c.Get(ContextKeyUserID).(string)\<close> (\<open>None\<close> when it is unset), the path
  parameters (the empty string when the route has none), and \<open>c.RealIP()\<close>.
\<close>

record ctx =
  auth_header :: string
  ctx_user :: "string option"
  ctx_role :: "string option"
  ctx_org_role :: "string option"
  p_id :: string
  p_serviceId :: string
  p_keyId :: string
  p_logId :: string
  real_ip :: string

type_synonym ('r, 'a) endpoint = "ctx \<Rightarrow> ('r, 'a) handler"

text \<open>
  \<open>if x, err := m; err != nil { return mapError(c, err) }; k\<close>
\<close>

definition guard :: "(err \<Rightarrow> 'b reply) \<Rightarrow> ('r, 'a) app \<Rightarrow> ('a \<Rightarrow> ('r, 'b) handler) \<Rightarrow> ('r, 'b) handler" where
  "guard mapError m k w =
     (case m w of (Inl e, w') \<Rightarrow> (mapError e, w') | (Inr x, w') \<Rightarrow> k x w')"

text \<open>\<open>userID, ok := ...; if !ok || userID == "" { return 401 unauthorized }\<close>\<close>

definition with_user :: "ctx \<Rightarrow> (string \<Rightarrow> ('r, 'a) handler) \<Rightarrow> ('r, 'a) handler" where
  "with_user c k =
     (case ctx_user c of
        None \<Rightarrow> answer (Failure 401 ''unauthorized'')
      | Some u \<Rightarrow> if u = [] then answer (Failure 401 ''unauthorized'') else k u)"

text \<open>\<open>if err := c.Bind(&req); err != nil { return 400 invalid request body }\<close>\<close>

definition with_body :: "'b option \<Rightarrow> ('b \<Rightarrow> ('r, 'a) handler) \<Rightarrow> ('r, 'a) handler" where
  "with_body b k =
     (case b of None \<Rightarrow> answer (Failure 400 ''invalid request body'') | Some x \<Rightarrow> k x)"

definition internal_error :: "'a reply" where
  "internal_error = Failure 500 ''internal server error''"

fun reply_status :: "'a reply \<Rightarrow> nat" where
  "reply_status (Success n x) = n"
| "reply_status (Failure n m) = n"

fun is_success :: "'a reply \<Rightarrow> bool" where
  "is_success (Success n x) = True"
| "is_success (Failure n m) = False"

lemma respond_world: "snd (respond code f g m w) = snd (m w)"
  by (auto simp: respond_def split: prod.splits sum.splits)

lemma respond_Success:
  "respond code f g m w = (Success n y, w') \<longleftrightarrow>
     (\<exists>x. m w = (Inr x, w') \<and> n = code \<and> y = g x) \<or>
     (\<exists>e. m w = (Inl e, w') \<and> f e = Success n y)"
  by (auto simp: respond_def split: prod.splits sum.splits)

lemma guard_cases:
  obtains (stop) e w' where "m w = (Inl e, w')" and "guard f m k w = (f e, w')"
  | (go) x w' where "m w = (Inr x, w')" and "guard f m k w = k x w'"
proof (cases "m w")
  case (Pair r w')
  then show thesis using stop go by (cases r) (simp_all add: guard_def)
qed

lemma guard_run [run_rules]:
  "m w = (Inr x, w1) \<Longrightarrow> guard f m k w = k x w1"
  "m w = (Inl g, w1) \<Longrightarrow> guard f m k w = (f g, w1)"
  by (simp_all add: guard_def)

lemma respond_run [run_rules]:
  "m w = (Inr x, w1) \<Longrightarrow> respond code f g m w = (Success code (g x), w1)"
  "m w = (Inl h, w1) \<Longrightarrow> respond code f g m w = (f h, w1)"
  by (simp_all add: respond_def)

lemma guard_cong_run [run_congs]: "w = w' \<Longrightarrow> guard f m k w = guard f m k w'"
  by simp

lemma respond_cong_run [run_congs]: "w = w' \<Longrightarrow> respond code f g m w = respond code f g m w'"
  by simp

text \<open>\<open>holds I h\<close>: the handler keeps an invariant of the world.\<close>

definition holds :: "('r world \<Rightarrow> bool) \<Rightarrow> ('r, 'a) handler \<Rightarrow> bool" where
  "holds I h \<longleftrightarrow> (\<forall>w. I w \<longrightarrow> I (snd (h w)))"

named_theorems holds_intros \<open>rules that a handler keeps an invariant\<close>

lemma holds_answer [holds_intros]: "holds I (answer r)"
  by (simp add: holds_def answer_def)

lemma holds_respond [holds_intros]: "keeps I m \<Longrightarrow> holds I (respond code f g m)"
  by (simp add: holds_def keeps_def respond_world)

lemma holds_guard [holds_intros]: "keeps I m \<Longrightarrow> (\<And>x. holds I (k x)) \<Longrightarrow> holds I (guard f m k)"
  by (fastforce simp: holds_def keeps_def guard_def split: prod.splits sum.splits)

lemma holds_with_user [holds_intros]: "(\<And>u. holds I (k u)) \<Longrightarrow> holds I (with_user c k)"
  by (simp add: with_user_def holds_answer split: option.split)

lemma holds_with_body [holds_intros]: "(\<And>x. holds I (k x)) \<Longrightarrow> holds I (with_body b k)"
  by (simp add: with_body_def holds_answer split: option.split)

lemma holds_if [holds_intros]: "holds I a \<Longrightarrow> holds I b \<Longrightarrow> holds I (if c then a else b)"
  by simp

lemma holdsD: "holds I h \<Longrightarrow> I w \<Longrightarrow> h w = (r, w') \<Longrightarrow> I w'"
  by (auto simp: holds_def dest: spec[of _ w])

end
