(* ===== verification/User.thy ===== *)
theory User
  imports Jwt Http
begin

text \<open>
  internal/user: accounts and refresh tokens. The repository's queries, the service with its
  optional Redis cache in front of the refresh tokens, and the HTTP handlers. The lemmas show
  what each operation does to the accounts and to the sessions (the refresh tokens as a map from
  token hash to user and expiry), that a refresh consumes its token, and that all of them keep
  the schema's constraints.
\<close>

section \<open>Repository\<close>

definition CreateUser :: "env \<Rightarrow> string \<Rightarrow> string \<Rightarrow> ('r, string) app" where
  "CreateUser e email passwordHash =
     pg e (\<lambda>now i d. returning u_id (insert_user
       \<lparr>u_id = i, u_email = email, u_password_hash = passwordHash, u_created_at = now\<rparr> d))"

definition GetUserByEmail :: "env \<Rightarrow> string \<Rightarrow> ('r, User) app" where
  "GetUserByEmail e email =
     on_no_rows (UserE UserNotFound) (pg e (select_row users (\<lambda>u. u_email u = email)))"

definition GetUserByID :: "env \<Rightarrow> string \<Rightarrow> ('r, User) app" where
  "GetUserByID e userID =
     on_no_rows (UserE UserNotFound)
       (pg e (with_uuid e userID (\<lambda>i. select_row users (\<lambda>u. u_id u = i))))"

definition StoreRefreshToken :: "env \<Rightarrow> string \<Rightarrow> string \<Rightarrow> time \<Rightarrow> ('r, unit) app" where
  "StoreRefreshToken e userID tokenHash expiresAt =
     pg e (with_uuid e userID (\<lambda>uid now i d. returning (\<lambda>_. ()) (insert_refresh_token
       \<lparr>rt_id = i, rt_user_id = uid, rt_token_hash = tokenHash, rt_expires_at = expiresAt,
        rt_created_at = now\<rparr> d)))"

definition GetRefreshToken :: "env \<Rightarrow> string \<Rightarrow> ('r, RefreshToken) app" where
  "GetRefreshToken e tokenHash =
     on_no_rows (UserE InvalidRefreshToken)
       (pg e (select_row refresh_tokens (\<lambda>r. rt_token_hash r = tokenHash)))"

definition DeleteRefreshToken :: "env \<Rightarrow> string \<Rightarrow> ('r, unit) app" where
  "DeleteRefreshToken e tokenHash =
     pg e (\<lambda>now i d. (Inr (), d\<lparr>refresh_tokens :=
       filter (\<lambda>r. rt_token_hash r \<noteq> tokenHash) (refresh_tokens d)\<rparr>))"

definition DeleteAllRefreshTokens :: "env \<Rightarrow> string \<Rightarrow> ('r, unit) app" where
  "DeleteAllRefreshTokens e userID =
     pg e (with_uuid e userID (\<lambda>uid now i d. (Inr (), d\<lparr>refresh_tokens :=
       filter (\<lambda>r. rt_user_id r \<noteq> uid) (refresh_tokens d)\<rparr>)))"

lemmas user_repo_defs =
  CreateUser_def GetUserByEmail_def GetUserByID_def StoreRefreshToken_def GetRefreshToken_def
  DeleteRefreshToken_def DeleteAllRefreshTokens_def

section \<open>The refresh token cache\<close>

record 'r RefreshTokenCache =
  rc_IsAvailable :: bool
  rc_Set :: "string \<Rightarrow> string \<Rightarrow> duration \<Rightarrow> ('r, unit) app"
  rc_Get :: "string \<Rightarrow> ('r, string) app"
  rc_Delete :: "string \<Rightarrow> ('r, unit) app"

definition refreshTokenKeyPref :: string where "refreshTokenKeyPref = ''refresh:''"

definition RedisRefreshCache :: "env \<Rightarrow> 'r RedisStore option \<Rightarrow> 'r RefreshTokenCache" where
  "RedisRefreshCache e rs =
     \<lparr>rc_IsAvailable = usable rs,
      rc_Set = (\<lambda>tokenHash userID ttl.
        call (with_client e rs (\<lambda>c t. r_exec c t [CmdSet (refreshTokenKeyPref @ tokenHash) userID ttl]))
          (\<lambda>_. ret ())),
      rc_Get = (\<lambda>tokenHash. with_client e rs (\<lambda>c t. r_get c t (refreshTokenKeyPref @ tokenHash))),
      rc_Delete = (\<lambda>tokenHash.
        call (with_client e rs (\<lambda>c t. r_exec c t [CmdDel (refreshTokenKeyPref @ tokenHash)]))
          (\<lambda>_. ret ()))\<rparr>"

section \<open>Service\<close>

record 'r UserService =
  us_tokens :: "'r TokenManager"
  us_cache :: "'r RefreshTokenCache option"
  refreshTokenTTL :: duration

record AuthTokens =
  AccessToken :: string
  RefreshToken :: string

definition defaultRole :: string where "defaultRole = ''user''"

text \<open>\<open>NewService\<close>, with the value of \<open>REFRESH_TOKEN_EXPIRY_DAYS\<close>\<close>

definition NewService ::
    "'r TokenManager \<Rightarrow> 'r RefreshTokenCache option \<Rightarrow> string \<Rightarrow> err + 'r UserService" where
  "NewService tokens cache raw =
     (let mk = (\<lambda>days. \<lparr>us_tokens = tokens, us_cache = cache,
                        refreshTokenTTL = wrap64 (wrap64 (days * 24) * Hour)\<rparr>)
      in if raw \<noteq> [] then
           (case Atoi raw of None \<Rightarrow> Inl (OtherE ''Atoi'') | Some parsed \<Rightarrow> Inr (mk parsed))
         else Inr (mk 7))"

definition validateCredentials :: "env \<Rightarrow> string \<Rightarrow> string \<Rightarrow> err option" where
  "validateCredentials e email password =
     (if \<not> parse_address e email then Some (UserE InvalidEmail)
      else if rune_count password < 8 then Some (UserE InvalidPassword)
      else None)"

definition storeRefreshTokenInCache :: "'r UserService \<Rightarrow> string \<Rightarrow> string \<Rightarrow> ('r, unit) app" where
  "storeRefreshTokenInCache s tokenHash userID =
     (case us_cache s of
        None \<Rightarrow> ret ()
      | Some c \<Rightarrow> if \<not> rc_IsAvailable c then ret ()
                  else attempt (rc_Set c tokenHash userID (refreshTokenTTL s)) (\<lambda>_. ret ()))"

definition persistRefreshToken :: "env \<Rightarrow> 'r UserService \<Rightarrow> string \<Rightarrow> string \<Rightarrow> ('r, unit) app" where
  "persistRefreshToken e s userID tokenHash =
     call (Now e) (\<lambda>now.
       let expiresAt = now + refreshTokenTTL s in
       call (storeRefreshTokenInCache s tokenHash userID) (\<lambda>_.
       StoreRefreshToken e userID tokenHash expiresAt))"

definition revokeRefreshToken :: "env \<Rightarrow> 'r UserService \<Rightarrow> string \<Rightarrow> ('r, unit) app" where
  "revokeRefreshToken e s tokenHash =
     call (case us_cache s of
             None \<Rightarrow> ret ()
           | Some c \<Rightarrow> if rc_IsAvailable c then attempt (rc_Delete c tokenHash) (\<lambda>_. ret ())
                       else ret ())
       (\<lambda>_. DeleteRefreshToken e tokenHash)"

definition lookupStored :: "env \<Rightarrow> 'r UserService \<Rightarrow> string \<Rightarrow> ('r, string) app" where
  "lookupStored e s tokenHash =
     call (GetRefreshToken e tokenHash) (\<lambda>stored.
     call (Now e) (\<lambda>now.
       if rt_expires_at stored < now
       then attempt (revokeRefreshToken e s tokenHash) (\<lambda>_. fail (UserE ExpiredRefreshToken))
       else ret (rt_user_id stored)))"

definition lookupRefreshToken :: "env \<Rightarrow> 'r UserService \<Rightarrow> string \<Rightarrow> ('r, string) app" where
  "lookupRefreshToken e s tokenHash =
     (case us_cache s of
        None \<Rightarrow> lookupStored e s tokenHash
      | Some c \<Rightarrow>
          if rc_IsAvailable c then
            attempt (rc_Get c tokenHash) (\<lambda>r.
              case r of
                Inr userID \<Rightarrow> if userID \<noteq> [] then ret userID else lookupStored e s tokenHash
              | Inl _ \<Rightarrow> lookupStored e s tokenHash)
          else lookupStored e s tokenHash)"

definition issueTokenPair :: "env \<Rightarrow> 'r UserService \<Rightarrow> string \<Rightarrow> ('r, AuthTokens) app" where
  "issueTokenPair e s userID =
     call (GenerateAccessToken (us_tokens s) userID defaultRole) (\<lambda>accessToken.
     call (GenerateRefreshToken (us_tokens s)) (\<lambda>(rawToken, hashedToken).
     call (persistRefreshToken e s userID hashedToken) (\<lambda>_.
       ret \<lparr>AccessToken = accessToken, RefreshToken = rawToken\<rparr>)))"

definition Register :: "env \<Rightarrow> 'r UserService \<Rightarrow> string \<Rightarrow> string \<Rightarrow> ('r, AuthTokens) app" where
  "Register e s email password =
     (case validateCredentials e email password of
        Some x \<Rightarrow> fail x
      | None \<Rightarrow>
          attempt (GetUserByEmail e email) (\<lambda>r.
            case r of
              Inr _ \<Rightarrow> fail (UserE EmailTaken)
            | Inl x \<Rightarrow>
                if x \<noteq> UserE UserNotFound then fail x
                else
                  call (GenerateFromPassword e password) (\<lambda>passwordHash.
                  call (on_unique (UserE EmailTaken) (CreateUser e email passwordHash)) (\<lambda>userID.
                  issueTokenPair e s userID))))"

definition Login :: "env \<Rightarrow> 'r UserService \<Rightarrow> string \<Rightarrow> string \<Rightarrow> ('r, AuthTokens) app" where
  "Login e s email password =
     (case validateCredentials e email password of
        Some x \<Rightarrow> fail x
      | None \<Rightarrow>
          call (GetUserByEmail e email) (\<lambda>user.
            if \<not> bcrypt_cmp e (u_password_hash user) password then fail (UserE InvalidCredentials)
            else issueTokenPair e s (u_id user)))"

definition Refresh :: "env \<Rightarrow> 'r UserService \<Rightarrow> string \<Rightarrow> ('r, AuthTokens) app" where
  "Refresh e s rawRefreshToken =
     (if rawRefreshToken = [] then fail (UserE InvalidRefreshToken)
      else
        let tokenHash = HashToken (us_tokens s) rawRefreshToken in
        call (lookupRefreshToken e s tokenHash) (\<lambda>userID.
        call (revokeRefreshToken e s tokenHash) (\<lambda>_.
        call (GenerateAccessToken (us_tokens s) userID defaultRole) (\<lambda>accessToken.
        call (GenerateRefreshToken (us_tokens s)) (\<lambda>(rawToken, hashedToken).
        call (persistRefreshToken e s userID hashedToken) (\<lambda>_.
          ret \<lparr>AccessToken = accessToken, RefreshToken = rawToken\<rparr>))))))"

definition Logout :: "env \<Rightarrow> 'r UserService \<Rightarrow> string \<Rightarrow> ('r, unit) app" where
  "Logout e s rawRefreshToken =
     (if rawRefreshToken = [] then fail (UserE InvalidRefreshToken)
      else revokeRefreshToken e s (HashToken (us_tokens s) rawRefreshToken))"

section \<open>Handlers\<close>

record registerRequest =
  rq_email :: string
  rq_password :: string

fun user_mapServiceError :: "err \<Rightarrow> 'a reply" where
  "user_mapServiceError (UserE InvalidEmail) = Failure 400 (user_text InvalidEmail)"
| "user_mapServiceError (UserE InvalidPassword) = Failure 400 (user_text InvalidPassword)"
| "user_mapServiceError (UserE EmailTaken) = Failure 409 (user_text EmailTaken)"
| "user_mapServiceError (UserE InvalidCredentials) = Failure 401 (user_text InvalidCredentials)"
| "user_mapServiceError (UserE UserNotFound) = Failure 404 (user_text UserNotFound)"
| "user_mapServiceError (UserE InvalidRefreshToken) = Failure 401 (user_text InvalidRefreshToken)"
| "user_mapServiceError (UserE ExpiredRefreshToken) = Failure 401 (user_text ExpiredRefreshToken)"
| "user_mapServiceError _ = internal_error"

definition Register_handler ::
    "env \<Rightarrow> 'r UserService \<Rightarrow> registerRequest option \<Rightarrow> ('r, AuthTokens) handler" where
  "Register_handler e s body =
     with_body body (\<lambda>req. respond 201 user_mapServiceError (\<lambda>t. t)
       (Register e s (rq_email req) (rq_password req)))"

definition Login_handler ::
    "env \<Rightarrow> 'r UserService \<Rightarrow> registerRequest option \<Rightarrow> ('r, AuthTokens) handler" where
  "Login_handler e s body =
     with_body body (\<lambda>req. respond 200 user_mapServiceError (\<lambda>t. t)
       (Login e s (rq_email req) (rq_password req)))"

definition Refresh_handler ::
    "env \<Rightarrow> 'r UserService \<Rightarrow> string option \<Rightarrow> ('r, AuthTokens) handler" where
  "Refresh_handler e s body =
     with_body body (\<lambda>tok. respond 200 user_mapServiceError (\<lambda>t. t) (Refresh e s tok))"

definition Logout_handler ::
    "env \<Rightarrow> 'r UserService \<Rightarrow> string option \<Rightarrow> ('r, string) handler" where
  "Logout_handler e s body =
     with_body body (\<lambda>tok. respond 200 user_mapServiceError (\<lambda>_. ''logged out'') (Logout e s tok))"

section \<open>Sessions\<close>

text \<open>The refresh tokens as a map from token hash to user and expiry.\<close>

definition sessions :: "database \<Rightarrow> string \<rightharpoonup> string \<times> time" where
  "sessions d = map_of (map (\<lambda>r. (rt_token_hash r, (rt_user_id r, rt_expires_at r))) (refresh_tokens d))"

lemma sessions_cong: "refresh_tokens d' = refresh_tokens d \<Longrightarrow> sessions d' = sessions d"
  by (simp add: sessions_def)

lemma sessions_delete:
  "sessions (d\<lparr>refresh_tokens := filter (\<lambda>r. rt_token_hash r \<noteq> h) (refresh_tokens d)\<rparr>) =
   (sessions d)(h := None)"
proof -
  have "map_of (map (\<lambda>r. (rt_token_hash r, (rt_user_id r, rt_expires_at r)))
            (filter (\<lambda>r. rt_token_hash r \<noteq> h) xs)) =
        (map_of (map (\<lambda>r. (rt_token_hash r, (rt_user_id r, rt_expires_at r))) xs))(h := None)"
    for xs :: "RefreshToken list"
    by (induction xs) (auto simp: fun_upd_twist)
  then show ?thesis by (simp add: sessions_def)
qed

lemma sessions_None: "sessions d h = None \<longleftrightarrow> h \<notin> rt_token_hash ` set (refresh_tokens d)"
  by (force simp: sessions_def map_of_eq_None_iff)

lemma sessions_insert:
  assumes "rt_token_hash r \<notin> rt_token_hash ` set (refresh_tokens d)"
  shows "sessions (d\<lparr>refresh_tokens := refresh_tokens d @ [r]\<rparr>) =
    (sessions d)(rt_token_hash r \<mapsto> (rt_user_id r, rt_expires_at r))"
proof (rule ext)
  fix h
  have "sessions d (rt_token_hash r) = None" using assms by (simp add: sessions_None)
  then show "sessions (d\<lparr>refresh_tokens := refresh_tokens d @ [r]\<rparr>) h =
      ((sessions d)(rt_token_hash r \<mapsto> (rt_user_id r, rt_expires_at r))) h"
    by (auto simp: sessions_def map_add_def split: option.splits)
qed

lemma sessions_find:
  "sessions d h = Some (u, t) \<longleftrightarrow>
     (\<exists>r. find (\<lambda>r. rt_token_hash r = h) (refresh_tokens d) = Some r \<and>
          rt_user_id r = u \<and> rt_expires_at r = t)"
proof -
  have "map_of (map (\<lambda>r. (rt_token_hash r, (rt_user_id r, rt_expires_at r))) xs) h =
      map_option (\<lambda>r. (rt_user_id r, rt_expires_at r)) (find (\<lambda>r. rt_token_hash r = h) xs)"
    for xs :: "RefreshToken list"
    by (induction xs) auto
  then show ?thesis by (auto simp: sessions_def)
qed

section \<open>What the repository does\<close>

lemma keeps_CreateUser: "keeps_db db_ok (CreateUser e email h)"
  unfolding CreateUser_def by (intro keeps_intros) (erule (1) insert_user_ok)

lemma keeps_GetUserByEmail: "keeps_db P (GetUserByEmail e email)"
  unfolding GetUserByEmail_def by (intro keeps_intros)

lemma keeps_StoreRefreshToken: "keeps_db db_ok (StoreRefreshToken e u h t)"
  unfolding StoreRefreshToken_def by (intro keeps_intros) (erule (1) insert_refresh_token_ok)

lemma keeps_GetRefreshToken: "keeps_db P (GetRefreshToken e h)"
  unfolding GetRefreshToken_def by (intro keeps_intros)

lemma refresh_tokens_filter_ok: "db_ok d \<Longrightarrow> db_ok (d\<lparr>refresh_tokens := filter p (refresh_tokens d)\<rparr>)"
  by (auto simp: ok_defs distinct_map_filter)

lemma keeps_DeleteRefreshToken: "keeps_db db_ok (DeleteRefreshToken e h)"
  unfolding DeleteRefreshToken_def
  by (intro keeps_intros stmt_keepsI) (auto intro: refresh_tokens_filter_ok)

lemmas keeps_user_repo =
  keeps_CreateUser keeps_GetUserByEmail keeps_StoreRefreshToken keeps_GetRefreshToken
  keeps_DeleteRefreshToken

text \<open>\<open>only_tokens d d'\<close>: \<open>d'\<close> is \<open>d\<close> but for its refresh tokens.\<close>

definition only_tokens :: "database \<Rightarrow> database \<Rightarrow> bool" where
  "only_tokens d d' \<longleftrightarrow> d' = d\<lparr>refresh_tokens := refresh_tokens d'\<rparr>"

lemma only_tokens_refl [simp]: "only_tokens d d"
  by (simp add: only_tokens_def)

lemma only_tokens_trans: "only_tokens a b \<Longrightarrow> only_tokens b c \<Longrightarrow> only_tokens a c"
  by (cases a; cases b; cases c) (simp add: only_tokens_def)

lemma only_tokens_upd [simp]: "only_tokens d (d\<lparr>refresh_tokens := x\<rparr>)"
  by (simp add: only_tokens_def)

lemma StoreRefreshToken_Inr:
  assumes "StoreRefreshToken e u h t w = (Inr x, w')"
  shows "\<exists>i. pg_uuid e u = Some i \<and> sessions (db w) h = None \<and>
    sessions (db w') = (sessions (db w))(h \<mapsto> (i, t)) \<and> only_tokens (db w) (db w') \<and>
    redis w' = redis w"
  using assms
  by (auto simp: StoreRefreshToken_def pg_Inr with_uuid_def returning_Inr insert_refresh_token_def
      constrained_Inr sessions_None sessions_insert split: option.splits)

lemma DeleteRefreshToken_Inr:
  "DeleteRefreshToken e h w = (Inr x, w') \<Longrightarrow>
    sessions (db w') = (sessions (db w))(h := None) \<and> only_tokens (db w) (db w') \<and>
    redis w' = redis w"
  by (auto simp: DeleteRefreshToken_def pg_Inr sessions_delete)

lemma GetRefreshToken_Inr:
  "GetRefreshToken e h w = (Inr r, w') \<Longrightarrow>
    sessions (db w) h = Some (rt_user_id r, rt_expires_at r) \<and> db w' = db w \<and>
    redis w' = redis w \<and> tick w' = Suc (tick w)"
  by (auto simp: GetRefreshToken_def prog_simps pg_Inr select_row_def sessions_find
      split: option.splits)

lemma GetRefreshToken_gone:
  assumes "sessions (db w) h = None"
  obtains x w' where "GetRefreshToken e h w = (Inl x, w')"
    and "x = UserE InvalidRefreshToken \<or> (\<exists>m. x = PgE (OtherPg m))"
proof -
  have "find (\<lambda>r. rt_token_hash r = h) (refresh_tokens (db w)) = None"
    using assms by (auto simp: sessions_None find_None_iff)
  then have "\<exists>x w'. GetRefreshToken e h w = (Inl x, w') \<and>
      (x = UserE InvalidRefreshToken \<or> (\<exists>m. x = PgE (OtherPg m)))"
    by (auto simp: GetRefreshToken_def on_no_rows_def pg_def select_row_def Let_def
        split: option.splits)
  then show thesis using that by blast
qed

section \<open>The contract of the cache\<close>

text \<open>
  \<open>view s t h\<close> is what the cache would answer for a token hash at a time.
\<close>

locale refresh_cache =
  fixes e :: env
    and c :: "'r RefreshTokenCache"
    and view :: "'r \<Rightarrow> time \<Rightarrow> string \<Rightarrow> string option"
  assumes set_db: "frame db (rc_Set c h u ttl)"
    and get_db: "frame db (rc_Get c h)"
    and delete_db: "frame db (rc_Delete c h)"
    and get_view: "rc_Get c h w = (r, w') \<Longrightarrow> view (redis w') = view (redis w)"
    and get_hit: "rc_Get c h w = (Inr u, w') \<Longrightarrow> view (redis w) (clk e (tick w)) h = Some u"
    and set_other: "rc_Set c h u ttl w = (ru, w') \<Longrightarrow> h' \<noteq> h \<Longrightarrow>
      view (redis w') t h' = view (redis w) t h'"
    and delete_shrinks: "rc_Delete c h w = (ru, w') \<Longrightarrow>
      view (redis w') t h' = None \<or> view (redis w') t h' = view (redis w) t h'"

text \<open>A cache that deletes what it is told to delete.\<close>

locale reliable_refresh_cache = refresh_cache +
  assumes delete_done: "rc_Delete c h w = (ru, w') \<Longrightarrow> view (redis w') t h = None"

definition redis_view :: "('r \<Rightarrow> keyspace) \<Rightarrow> 'r \<Rightarrow> time \<Rightarrow> string \<Rightarrow> string option" where
  "redis_view kspace s t h = map_option val_text (live (kspace s) t (refreshTokenKeyPref @ h))"

context redis_server
begin

sublocale rc: refresh_cache e "RedisRefreshCache e (store_of C b)" "redis_view kspace" for e b
proof (unfold_locales, goal_cases)
  case (1 h u ttl)
  then show ?case by (simp add: RedisRefreshCache_def frame_call_ret frame_with_client)
next
  case (2 h)
  then show ?case by (simp add: RedisRefreshCache_def frame_with_client)
next
  case (3 h)
  then show ?case by (simp add: RedisRefreshCache_def frame_call_ret frame_with_client)
next
  case (4 h w r w')
  then have "kspace (redis w') = kspace (redis w)"
    by (auto simp: RedisRefreshCache_def with_client_store_of
        dest: get_pure split: prod.splits sum.splits)
  then show ?case by (intro ext) (simp add: redis_view_def)
next
  case (5 h w u w')
  then show ?case
    by (auto simp: RedisRefreshCache_def with_client_store_of redis_view_def
        dest: get_hit split: prod.splits sum.splits)
next
  case (6 h u ttl w ru w' h' t)
  then have "kspace (redis w') (refreshTokenKeyPref @ h') = kspace (redis w) (refreshTokenKeyPref @ h')"
    by (auto simp: RedisRefreshCache_def with_client_store_of call_def ret_def
        dest: exec_other[where k = "refreshTokenKeyPref @ h'"] split: prod.splits sum.splits)
  then show ?case by (simp add: redis_view_def live_def)
next
  case (7 h w ru w' t h')
  then have "kspace (redis w') = kspace (redis w) \<or>
      kspace (redis w') = (kspace (redis w))(refreshTokenKeyPref @ h := None)"
    by (auto simp: RedisRefreshCache_def with_client_store_of call_def ret_def
        dest!: del_any split: prod.splits sum.splits)
  then show ?case by (auto simp: redis_view_def live_def)
qed

end

context healthy_redis
begin

sublocale hrc: reliable_refresh_cache e "RedisRefreshCache e (store_of C b)" "redis_view kspace" for e b
proof (unfold_locales, goal_cases)
  case (1 h w ru w' t)
  then have "kspace (redis w') = (kspace (redis w))(refreshTokenKeyPref @ h := None)"
    using exec_up del_ok
    by (fastforce simp: RedisRefreshCache_def with_client_store_of call_def ret_def
        split: prod.splits sum.splits)
  then show ?case by (simp add: redis_view_def live_def)
qed

end

section \<open>The service over its interfaces\<close>

locale user_service = tm: token_manager "us_tokens s" for s :: "'r UserService" +
  fixes e :: env
    and view :: "'r \<Rightarrow> time \<Rightarrow> string \<Rightarrow> string option"
  assumes cache: "us_cache s = Some c \<Longrightarrow> refresh_cache e c view"
begin

abbreviation H :: "string \<Rightarrow> string" where
  "H \<equiv> HashToken (us_tokens s)"

lemma keeps_cache:
  assumes "us_cache s = Some c"
  shows "keeps_db P (rc_Set c h u ttl)" and "keeps_db P (rc_Get c h)" and "keeps_db P (rc_Delete c h)"
  using refresh_cache.set_db[OF cache[OF assms]] refresh_cache.get_db[OF cache[OF assms]]
    refresh_cache.delete_db[OF cache[OF assms]]
  by (simp_all add: keeps_of_frame)

lemma keeps_tokens:
  "keeps_db P (GenerateAccessToken (us_tokens s) u r)"
  "keeps_db P (GenerateRefreshToken (us_tokens s))"
  using tm.keeps_manager[of "\<lambda>d _. P d"] by simp_all

lemma keeps_storeRefreshTokenInCache: "keeps_db P (storeRefreshTokenInCache s h u)"
  unfolding storeRefreshTokenInCache_def
  by (auto intro!: keeps_intros dest: keeps_cache split: option.splits)

lemma keeps_persist: "keeps_db db_ok (persistRefreshToken e s u h)"
  unfolding persistRefreshToken_def Let_def
  by (intro keeps_intros keeps_storeRefreshTokenInCache keeps_user_repo)

lemma keeps_revoke: "keeps_db db_ok (revokeRefreshToken e s h)"
  unfolding revokeRefreshToken_def
  by (auto intro!: keeps_intros keeps_user_repo dest: keeps_cache split: option.splits)

lemma keeps_lookup: "keeps_db db_ok (lookupRefreshToken e s h)"
  unfolding lookupRefreshToken_def lookupStored_def
  by (auto intro!: keeps_intros keeps_user_repo keeps_revoke dest: keeps_cache
      split: option.splits sum.splits)

lemma keeps_issue: "keeps_db db_ok (issueTokenPair e s u)"
  unfolding issueTokenPair_def
  by (auto intro!: keeps_intros keeps_tokens keeps_persist)

lemma keeps_Register: "keeps_db db_ok (Register e s email pw)"
  unfolding Register_def
  by (auto intro!: keeps_intros keeps_user_repo keeps_issue split: option.splits sum.splits)

lemma keeps_Login: "keeps_db db_ok (Login e s email pw)"
  unfolding Login_def
  by (auto intro!: keeps_intros keeps_user_repo keeps_issue split: option.splits)

lemma keeps_Refresh: "keeps_db db_ok (Refresh e s raw)"
  unfolding Refresh_def Let_def
  by (auto intro!: keeps_intros keeps_tokens keeps_persist keeps_revoke keeps_lookup)

lemma keeps_Logout: "keeps_db db_ok (Logout e s raw)"
  unfolding Logout_def by (auto intro!: keeps_intros keeps_revoke)

text \<open>Whatever the cache does, the database changes as the queries say.\<close>

lemmas cache_db =
  frameD[OF refresh_cache.set_db[OF cache]] frameD[OF refresh_cache.get_db[OF cache]]
  frameD[OF refresh_cache.delete_db[OF cache]]

lemma storeRefreshTokenInCache_world:
  assumes "storeRefreshTokenInCache s h u w = (r, w')"
  shows "db w' = db w" and "us_cache s = Some c \<Longrightarrow> h' \<noteq> h \<Longrightarrow>
    view (redis w') t h' = view (redis w) t h'"
  using assms
  by (auto simp: storeRefreshTokenInCache_def prog_simps dest: cache_db
      refresh_cache.set_other[OF cache] split: option.splits if_splits)

lemma persist_Inr:
  assumes "persistRefreshToken e s u h w = (Inr x, w')"
  shows "\<exists>i. pg_uuid e u = Some i \<and> sessions (db w) h = None \<and>
      sessions (db w') = (sessions (db w))(h \<mapsto> (i, clk e (tick w) + refreshTokenTTL s)) \<and>
      only_tokens (db w) (db w')"
    and "us_cache s = Some c \<Longrightarrow> h' \<noteq> h \<Longrightarrow> view (redis w') t h' = view (redis w) t h'"
  using assms
  by (auto simp: persistRefreshToken_def prog_simps Let_def Now_def
      dest!: StoreRefreshToken_Inr dest: storeRefreshTokenInCache_world)

lemma revoke_Inr:
  assumes "revokeRefreshToken e s h w = (Inr x, w')"
  shows "sessions (db w') = (sessions (db w))(h := None)" and "only_tokens (db w) (db w')"
  using assms
  by (auto simp: revokeRefreshToken_def prog_simps dest!: DeleteRefreshToken_Inr dest: cache_db
      split: option.splits if_splits)

lemma lookupStored_Inr:
  "lookupStored e s h w = (Inr u, w') \<Longrightarrow>
     db w' = db w \<and> redis w' = redis w \<and>
     (\<exists>t. sessions (db w) h = Some (u, t) \<and> clk e (Suc (tick w)) \<le> t)"
  by (auto simp: lookupStored_def prog_simps Now_def dest!: GetRefreshToken_Inr split: if_splits)

lemma lookup_cases:
  assumes "lookupRefreshToken e s h w = (Inr u, w')"
  obtains (stored) v where "db v = db w" and "lookupStored e s h v = (Inr u, w')"
  | (hit) c where "us_cache s = Some c" and "rc_Get c h w = (Inr u, w')"
proof (cases "us_cache s")
  case None
  then show thesis using assms stored[of w] by (simp add: lookupRefreshToken_def)
next
  case (Some c)
  obtain r v where get: "rc_Get c h w = (r, v)" by (metis prod.exhaust)
  have "db v = db w" using cache_db(2)[OF Some get] .
  then show thesis using assms Some get stored hit
    by (cases r) (auto simp: lookupRefreshToken_def attempt_def ret_def split: if_splits)
qed

lemma lookup_Inr:
  assumes "lookupRefreshToken e s h w = (Inr u, w')"
  shows "db w' = db w"
    and "(\<exists>t. sessions (db w) h = Some (u, t)) \<or>
      (\<exists>c. us_cache s = Some c \<and> view (redis w) (clk e (tick w)) h = Some u)"
  using assms
  by (auto elim!: lookup_cases dest!: lookupStored_Inr
      dest: cache_db refresh_cache.get_hit[OF cache])

lemma access_token_world:
  "GenerateAccessToken (us_tokens s) u r w = (x, w') \<Longrightarrow> db w' = db w \<and> redis w' = redis w"
  by (simp add: quietD[OF tm.quiet_access])

lemma refresh_token_world:
  "GenerateRefreshToken (us_tokens s) w = (Inr (raw, h), w') \<Longrightarrow>
     h = H raw \<and> db w' = db w \<and> redis w' = redis w"
  using quietD[OF tm.quiet_refresh] tm.refresh_hash by blast

lemma Refresh_Inr:
  assumes "Refresh e s raw w = (Inr toks, w')"
  obtains u w1 w2 w3 where
    "raw \<noteq> []" and "lookupRefreshToken e s (H raw) w = (Inr u, w1)"
    and "revokeRefreshToken e s (H raw) w1 = (Inr (), w2)"
    and "db w3 = db w2" and "redis w3 = redis w2"
    and "persistRefreshToken e s u (H (RefreshToken toks)) w3 = (Inr (), w')"
proof -
  from assms obtain u w1 w2 acc w3 r h w4 where
    "raw \<noteq> []" and "lookupRefreshToken e s (H raw) w = (Inr u, w1)"
    and "revokeRefreshToken e s (H raw) w1 = (Inr (), w2)"
    and "GenerateAccessToken (us_tokens s) u defaultRole w2 = (Inr acc, w3)"
    and "GenerateRefreshToken (us_tokens s) w3 = (Inr (r, h), w4)"
    and "persistRefreshToken e s u h w4 = (Inr (), w')" and "RefreshToken toks = r"
    by (auto simp: Refresh_def prog_simps Let_def split: if_splits prod.splits)
  then show thesis
    using that[of u w1 w2 w4] access_token_world refresh_token_world by metis
qed

text \<open>A refresh moves one session: the old token's goes, the new token's comes.\<close>

lemma Refresh_sessions:
  assumes "Refresh e s raw w = (Inr toks, w')"
  shows "\<exists>u i t. ((\<exists>x. sessions (db w) (H raw) = Some (u, x)) \<or>
        (\<exists>c. us_cache s = Some c \<and> view (redis w) (clk e (tick w)) (H raw) = Some u)) \<and>
      pg_uuid e u = Some i \<and>
      sessions (db w') = (sessions (db w))(H raw := None, H (RefreshToken toks) \<mapsto> (i, t)) \<and>
      only_tokens (db w) (db w')"
proof (rule Refresh_Inr[OF assms])
  fix u w1 w2 w3
  assume look: "lookupRefreshToken e s (H raw) w = (Inr u, w1)"
    and rev: "revokeRefreshToken e s (H raw) w1 = (Inr (), w2)" and w3: "db w3 = db w2"
    and per: "persistRefreshToken e s u (H (RefreshToken toks)) w3 = (Inr (), w')"
  note l = lookup_Inr[OF look] and r = revoke_Inr[OF rev]
  from persist_Inr(1)[OF per] obtain i t where "pg_uuid e u = Some i"
    and "sessions (db w') = (sessions (db w3))(H (RefreshToken toks) \<mapsto> (i, t))"
    and "only_tokens (db w3) (db w')" by blast
  with l r w3 show ?thesis by (auto intro: only_tokens_trans)
qed

end

text \<open>With a cache that deletes, a revoked token is gone from both stores.\<close>

locale reliable_user_service = user_service +
  assumes reliable: "us_cache s = Some c \<Longrightarrow> reliable_refresh_cache e c view"
begin

definition gone :: "'a world \<Rightarrow> string \<Rightarrow> bool" where
  "gone w h \<longleftrightarrow> sessions (db w) h = None \<and>
     (\<forall>c. us_cache s = Some c \<longrightarrow> rc_IsAvailable c \<longrightarrow> (\<forall>t. view (redis w) t h = None))"

lemma goneI_same: "gone w h \<Longrightarrow> db w' = db w \<Longrightarrow> redis w' = redis w \<Longrightarrow> gone w' h"
  by (simp add: gone_def)

lemma revoke_gone:
  assumes "revokeRefreshToken e s h w = (Inr x, w')"
  shows "gone w' h"
proof -
  have "rc_IsAvailable c \<Longrightarrow> view (redis w') t h = None" if "us_cache s = Some c" for c t
    using assms that
    by (auto simp: revokeRefreshToken_def prog_simps dest!: DeleteRefreshToken_Inr
        dest: reliable_refresh_cache.delete_done[OF reliable])
  then show ?thesis using revoke_Inr(1)[OF assms] by (auto simp: gone_def)
qed

lemma persist_gone:
  assumes "persistRefreshToken e s u h w = (Inr x, w')" and "gone w h'" and "h' \<noteq> h"
  shows "gone w' h'"
  using assms persist_Inr[OF assms(1)] by (fastforce simp: gone_def)

lemma lookup_gone:
  assumes "gone w h"
  shows "\<exists>x w'. lookupRefreshToken e s h w = (Inl x, w') \<and>
    (x = UserE InvalidRefreshToken \<or> (\<exists>m. x = PgE (OtherPg m)))"
proof -
  have stored: "\<exists>x w'. lookupStored e s h v = (Inl x, w') \<and>
      (x = UserE InvalidRefreshToken \<or> (\<exists>m. x = PgE (OtherPg m)))" if "db v = db w" for v
    using GetRefreshToken_gone[of v h e] assms that
    by (fastforce simp: lookupStored_def call_def gone_def)
  show ?thesis
  proof (cases "us_cache s")
    case None
    then show ?thesis using stored by (simp add: lookupRefreshToken_def)
  next
    case (Some c)
    obtain r v where get: "rc_Get c h w = (r, v)" by (metis prod.exhaust)
    have v: "db v = db w" using cache_db(2)[OF Some get] .
    have "\<exists>f. r = Inl f" if "rc_IsAvailable c"
    proof (cases r)
      case (Inr u)
      then have "view (redis w) (clk e (tick w)) h = Some u"
        using refresh_cache.get_hit[OF cache[OF Some]] get by simp
      with assms Some that show ?thesis by (auto simp: gone_def)
    qed simp
    then show ?thesis
      using Some get stored[OF v] stored[of w]
      by (auto simp: lookupRefreshToken_def attempt_def)
  qed
qed

lemma Refresh_gone:
  assumes "gone w (H raw)"
  shows "\<exists>x w'. Refresh e s raw w = (Inl x, w') \<and>
    (x = UserE InvalidRefreshToken \<or> (\<exists>m. x = PgE (OtherPg m)))"
  using lookup_gone[OF assms] by (auto simp: Refresh_def Let_def fail_def call_def)

lemma Refresh_consumes:
  assumes "Refresh e s raw w = (Inr toks, w')" and "H (RefreshToken toks) \<noteq> H raw"
  shows "gone w' (H raw)"
  by (rule Refresh_Inr[OF assms(1)])
     (use revoke_gone persist_gone goneI_same assms(2) in metis)

lemma Logout_gone:
  "Logout e s raw w = (Inr x, w') \<Longrightarrow> gone w' (H raw)"
  by (auto simp: Logout_def fail_def split: if_splits intro: revoke_gone)

end

section \<open>The service as cmd/api wires it\<close>

definition main_user_service ::
    "env \<Rightarrow> jwt_lib \<Rightarrow> JWTService \<Rightarrow> 'r redis_client \<Rightarrow> bool \<Rightarrow> duration \<Rightarrow> 'r UserService" where
  "main_user_service e L j C b ttl =
     \<lparr>us_tokens = jwt_manager e L j, us_cache = Some (RedisRefreshCache e (store_of C b)),
      refreshTokenTTL = ttl\<rparr>"

lemma main_user_service_hash: "HashToken (us_tokens (main_user_service e L j C b ttl)) = jwt_HashToken e"
  by (simp add: main_user_service_def jwt_manager_def)

context redis_server
begin

lemma main_service: "user_service (main_user_service e L j C b ttl) e (redis_view kspace)"
  by (intro user_service.intro user_service_axioms.intro)
     (auto simp: main_user_service_def jwt.token_manager_axioms rc.refresh_cache_axioms)

sublocale us: user_service "main_user_service e L j C b ttl" e "redis_view kspace" for e L j b ttl
  by (rule main_service)

end

context healthy_redis
begin

lemma main_reliable: "reliable_user_service (main_user_service e L j C b ttl) e (redis_view kspace)"
  by (intro reliable_user_service.intro reliable_user_service_axioms.intro main_service)
     (auto simp: main_user_service_def hrc.reliable_refresh_cache_axioms)

sublocale rus: reliable_user_service "main_user_service e L j C b ttl" e "redis_view kspace"
  for e L j b ttl
  by (rule main_reliable)

end

section \<open>Accounts\<close>

lemma CreateUser_Inr:
  "CreateUser e email h w = (Inr i, w') \<Longrightarrow>
     (\<exists>t. db w' = (db w)\<lparr>users := users (db w) @
        [\<lparr>u_id = i, u_email = email, u_password_hash = h, u_created_at = t\<rparr>]\<rparr>) \<and>
     email \<notin> u_email ` set (users (db w)) \<and> redis w' = redis w"
  by (auto simp: CreateUser_def pg_Inr returning_Inr insert_user_def constrained_Inr)

lemma GetUserByEmail_db: "GetUserByEmail e email w = (r, w') \<Longrightarrow> db w' = db w \<and> redis w' = redis w"
  by (cases r) (auto simp: GetUserByEmail_def prog_simps pg_Inr select_row_def
      dest: pg_Inl_db split: option.splits)

lemma GetUserByEmail_eq:
  "GetUserByEmail e email w =
     ((case pg_fault e (tick w) of
         Some f \<Rightarrow> Inl (PgE (OtherPg f))
       | None \<Rightarrow> (case find (\<lambda>u. u_email u = email) (users (db w)) of
                   None \<Rightarrow> Inl (UserE UserNotFound) | Some u \<Rightarrow> Inr u)),
      w\<lparr>tick := Suc (tick w)\<rparr>)"
  by (auto simp: GetUserByEmail_def on_no_rows_def pg_def select_row_def Let_def split: option.splits)

lemma find_email_last:
  "email \<notin> u_email ` set us \<Longrightarrow> u_email r = email \<Longrightarrow>
   find (\<lambda>u. u_email u = email) (us @ [r]) = Some r"
  by (induction us) auto

context user_service
begin

lemma issue_Inr:
  assumes "issueTokenPair e s u w = (Inr toks, w')"
  shows "only_tokens (db w) (db w')"
    and "\<exists>i t. pg_uuid e u = Some i \<and>
      sessions (db w') = (sessions (db w))(H (RefreshToken toks) \<mapsto> (i, t))"
proof -
  from assms obtain acc w1 r h w2 where
    a: "GenerateAccessToken (us_tokens s) u defaultRole w = (Inr acc, w1)"
    and r: "GenerateRefreshToken (us_tokens s) w1 = (Inr (r, h), w2)"
    and p: "persistRefreshToken e s u h w2 = (Inr (), w')" and toks: "RefreshToken toks = r"
    by (auto simp: issueTokenPair_def prog_simps split: prod.splits)
  have "db w2 = db w" "h = H r" using access_token_world[OF a] refresh_token_world[OF r] by simp_all
  then show "only_tokens (db w) (db w')"
    and "\<exists>i t. pg_uuid e u = Some i \<and>
      sessions (db w') = (sessions (db w))(H (RefreshToken toks) \<mapsto> (i, t))"
    using persist_Inr(1)[OF p] toks by auto
qed

lemma Register_Inr:
  assumes "Register e s email pw w = (Inr toks, w')"
  obtains i h n t where
    "email \<notin> u_email ` set (users (db w))" and "bcrypt_gen e n pw = Some h"
    and "users (db w') = users (db w) @
      [\<lparr>u_id = i, u_email = email, u_password_hash = h, u_created_at = t\<rparr>]"
    and "validateCredentials e email pw = None"
    and "\<exists>i' t. pg_uuid e i = Some i' \<and>
      sessions (db w') = (sessions (db w))(H (RefreshToken toks) \<mapsto> (i', t))"
proof -
  from assms obtain x w1 h w2 i w3 where v: "validateCredentials e email pw = None"
    and g: "GetUserByEmail e email w = (Inl x, w1)"
    and b: "GenerateFromPassword e pw w1 = (Inr h, w2)"
    and c: "CreateUser e email h w2 = (Inr i, w3)"
    and p: "issueTokenPair e s i w3 = (Inr toks, w')"
    by (auto simp: Register_def prog_simps split: option.splits sum.splits if_splits)
  have w2: "db w2 = db w" and n: "bcrypt_gen e (tick w1) pw = Some h"
    using GetUserByEmail_db[OF g] b by (auto simp: GenerateFromPassword_def split: option.splits)
  from CreateUser_Inr[OF c] w2 obtain t where new: "email \<notin> u_email ` set (users (db w))"
    and w3: "db w3 = (db w)\<lparr>users := users (db w) @
      [\<lparr>u_id = i, u_email = email, u_password_hash = h, u_created_at = t\<rparr>]\<rparr>" by auto
  have "users (db w') = users (db w3)"
    using issue_Inr(1)[OF p] unfolding only_tokens_def by (metis database.select_convs(1) database.surjective database.update_convs(2))
  moreover have "sessions (db w3) = sessions (db w)" using w3 by (simp add: sessions_def)
  ultimately show thesis
    using that[OF new n _ v] issue_Inr(2)[OF p] w3 by simp
qed

end

end
