(* ===== verification/User_Props.thy ===== *)
theory User_Props
  imports User
begin

text \<open>
  What internal/user promises: rotation and single use of refresh tokens, expiry, the limits of
  a logout while Redis is out, registration and login.
\<close>

section \<open>Properties\<close>

text \<open>
  C26: a successful refresh replaces one session by another: the session of the presented
  token (found in the cache or the table) is removed, one for the same user is added under the
  hash of the token returned, and nothing else in the database changes.
\<close>

theorem Refresh_rotates:
  assumes "redis_server C kspace"
    and "Refresh e (main_user_service e L j C b ttl) raw w = (Inr toks, w')"
  shows "\<exists>u i t.
    ((\<exists>x. sessions (db w) (jwt_HashToken e raw) = Some (u, x)) \<or>
     redis_view kspace (redis w) (clk e (tick w)) (jwt_HashToken e raw) = Some u) \<and>
    pg_uuid e u = Some i \<and>
    sessions (db w') = (sessions (db w))
      (jwt_HashToken e raw := None, jwt_HashToken e (RefreshToken toks) \<mapsto> (i, t)) \<and>
    only_tokens (db w) (db w')"
  using user_service.Refresh_sessions[OF redis_server.main_service[OF assms(1)] assms(2)]
  by (auto simp: main_user_service_hash)

definition sample_user_db :: database where
  "sample_user_db = empty_db
     \<lparr>users := [\<lparr>u_id = ''alice'', u_email = ''a@b'', u_password_hash = ''bcrypt:password'', u_created_at = 0\<rparr>],
      refresh_tokens := [\<lparr>rt_id = ''t1'', rt_user_id = ''alice'', rt_token_hash = ''61'',
        rt_expires_at = 5000000000, rt_created_at = 0\<rparr>]\<rparr>"

definition sample_signer :: jwt_lib where
  "sample_signer = sample_jwt\<lparr>jwt_sign := (\<lambda>key c. Some ''signed'')\<rparr>"

abbreviation sample_user_service :: "'r redis_client \<Rightarrow> bool \<Rightarrow> 'r UserService" where
  "sample_user_service C b \<equiv>
     main_user_service sample_env sample_signer \<lparr>secret = ''k'', expiryHours = 1\<rparr> C b 1000"

lemmas user_run =
  Refresh_def Register_def Login_def Logout_def lookupRefreshToken_def lookupStored_def
  revokeRefreshToken_def persistRefreshToken_def issueTokenPair_def storeRefreshTokenInCache_def
  validateCredentials_def user_repo_defs main_user_service_def jwt_manager_def RedisRefreshCache_def
  jwt_GenerateAccessToken_def jwt_GenerateRefreshToken_def jwt_HashToken_def EncodeToString_def
  sample_user_db_def sample_signer_def sample_jwt_def run_defs refreshTokenKeyPref_def
  defaultRole_def

lemma sample_refresh:
  "\<exists>toks w'. Refresh sample_env (sample_user_service up_client True) ''a''
      \<lparr>db = sample_user_db, redis = Map.empty, tick = 0\<rparr> = (Inr toks, w') \<and>
    jwt_HashToken sample_env (RefreshToken toks) \<noteq> jwt_HashToken sample_env ''a''"
  by (simp add: user_run run_rules cong: run_congs)

theorem Refresh_rotates_witness:
  "\<exists>toks w'. Refresh sample_env (sample_user_service up_client True) ''a''
      \<lparr>db = sample_user_db, redis = Map.empty, tick = 0\<rparr> = (Inr toks, w') \<and>
    only_tokens sample_user_db (db w')"
proof -
  obtain toks w' where r: "Refresh sample_env (sample_user_service up_client True) ''a''
      \<lparr>db = sample_user_db, redis = Map.empty, tick = 0\<rparr> = (Inr toks, w')"
    using sample_refresh by blast
  from Refresh_rotates[OF up.redis_server_axioms r] r show ?thesis by auto
qed



text \<open>
  C36: the service reports a logout as done even when Redis did not delete the token; the
  token then still buys a new session once Redis answers again.
\<close>

theorem Logout_cache_outage:
  "\<exists>w1 toks w2.
     Logout sample_env (sample_user_service mem_client True) ''a''
       \<lparr>db = sample_user_db,
        redis = \<lparr>cells = [''refresh:61'' \<mapsto> (RStr ''alice'', None)], down = True\<rparr>, tick = 0\<rparr> = (Inr (), w1) \<and>
     sessions (db w1) ''61'' = None \<and>
     Refresh sample_env (sample_user_service mem_client True) ''a''
       (w1\<lparr>redis := (redis w1)\<lparr>down := False\<rparr>\<rparr>) = (Inr toks, w2)"
  by (simp add: user_run sessions_def run_rules cong: run_congs)

text \<open>\<open>Refresh\<close> in its two halves, which no transaction spans\<close>

definition refresh_commit :: "env \<Rightarrow> 'r UserService \<Rightarrow> string \<Rightarrow> string \<Rightarrow> ('r, AuthTokens) app" where
  "refresh_commit e s tokenHash userID =
     call (revokeRefreshToken e s tokenHash) (\<lambda>_.
     call (GenerateAccessToken (us_tokens s) userID defaultRole) (\<lambda>accessToken.
     call (GenerateRefreshToken (us_tokens s)) (\<lambda>(rawToken, hashedToken).
     call (persistRefreshToken e s userID hashedToken) (\<lambda>_.
       ret \<lparr>AccessToken = accessToken, RefreshToken = rawToken\<rparr>))))"

lemma Refresh_halves:
  "raw \<noteq> [] \<Longrightarrow> Refresh e s raw =
     call (lookupRefreshToken e s (HashToken (us_tokens s) raw)) (refresh_commit e s (HashToken (us_tokens s) raw))"
  by (simp add: Refresh_def refresh_commit_def[abs_def] Let_def)

text \<open>Two requests with one token, interleaved: both look it up, then both exchange it.\<close>

definition concurrent_refreshes :: "env \<Rightarrow> 'r UserService \<Rightarrow> string \<Rightarrow> ('r, AuthTokens \<times> AuthTokens) app" where
  "concurrent_refreshes e s raw =
     (let tokenHash = HashToken (us_tokens s) raw in
      call (lookupRefreshToken e s tokenHash) (\<lambda>u1.
      call (lookupRefreshToken e s tokenHash) (\<lambda>u2.
      call (refresh_commit e s tokenHash u1) (\<lambda>t1.
      call (refresh_commit e s tokenHash u2) (\<lambda>t2.
        ret (t1, t2))))))"

text \<open>
  C25: two refreshes at once: two requests with one refresh token, each of which finds the session
  before the other removes it, both succeed, with two tokens that each open a session of the user.
\<close>

theorem Refresh_race:
  "\<exists>t1 t2 w'. concurrent_refreshes sample_env (sample_user_service up_client False) ''a''
      \<lparr>db = sample_user_db, redis = Map.empty, tick = 0\<rparr> = (Inr (t1, t2), w') \<and>
    RefreshToken t1 \<noteq> RefreshToken t2 \<and>
    map_option fst (sessions (db w') (jwt_HashToken sample_env (RefreshToken t1))) = Some ''alice'' \<and>
    map_option fst (sessions (db w') (jwt_HashToken sample_env (RefreshToken t2))) = Some ''alice''"
  by (simp add: sessions_def concurrent_refreshes_def refresh_commit_def user_run run_rules cong: run_congs)

text \<open>
  An expired session cannot be refreshed when the cache is not in use: the request is
  refused with the expiry error and the session is removed.
\<close>

theorem Refresh_expired:
  assumes "raw \<noteq> []" and "sessions (db w) (jwt_HashToken e raw) = Some (u, x)"
    and "x < clk e (Suc (tick w))" and "\<forall>n. pg_fault e n = None"
  shows "\<exists>w'. Refresh e (main_user_service e L j C False ttl) raw w = (Inl (UserE ExpiredRefreshToken), w') \<and>
    sessions (db w') = (sessions (db w))(jwt_HashToken e raw := None)"
proof -
  obtain r where "find (\<lambda>r. rt_token_hash r = jwt_HashToken e raw) (refresh_tokens (db w)) = Some r"
    and "rt_expires_at r = x" using assms(2) by (auto simp: sessions_find)
  then show ?thesis
    using assms(1,3,4)
    by (simp add: Refresh_def lookupRefreshToken_def lookupStored_def revokeRefreshToken_def
        main_user_service_def jwt_manager_def RedisRefreshCache_def store_of_def IsAvailable_def
        GetRefreshToken_def DeleteRefreshToken_def on_no_rows_def pg_def select_row_def Now_def
        Let_def call_def attempt_def ret_def fail_def sessions_delete)
qed

theorem Refresh_expired_witness:
  "\<exists>w'. Refresh sample_env (sample_user_service up_client False) ''a''
      \<lparr>db = sample_user_db, redis = Map.empty, tick = 9\<rparr> = (Inl (UserE ExpiredRefreshToken), w')"
  using Refresh_expired[of "''a''" "\<lparr>db = sample_user_db, redis = Map.empty, tick = 9\<rparr>" sample_env
      "''alice''" 5000000000 sample_signer "\<lparr>secret = ''k'', expiryHours = 1\<rparr>" up_client 1000]
  by (auto simp: sample_user_db_def sample_defs sessions_def jwt_HashToken_def EncodeToString_def
      hex_digits_def)



text \<open>
  REFRESH_TOKEN_EXPIRY_DAYS is the lifetime of a session in days, exactly, up to 106751
  days; the product overflows for the next value, which makes every session expired at birth.
\<close>

theorem NewService_ttl:
  "(raw \<noteq> [] \<and> Atoi raw = Some days \<and> 0 \<le> days \<and> days \<le> 106751 \<longrightarrow>
     NewService T cache raw =
       Inr \<lparr>us_tokens = T, us_cache = cache, refreshTokenTTL = days * 24 * Hour\<rparr>) \<and>
   NewService T cache [] =
     Inr \<lparr>us_tokens = T, us_cache = cache, refreshTokenTTL = 7 * 24 * Hour\<rparr> \<and>
   (\<exists>s. NewService T cache ''106752'' = Inr s \<and> refreshTokenTTL s < 0)"
proof -
  have w: "wrap64 (wrap64 (n * 24) * Hour) = n * 24 * Hour" if "0 \<le> n" "n \<le> 106751" for n
    using that by (simp add: wrap64_id duration_defs)
  have "Atoi ''106752'' = Some 106752" by code_simp
  moreover have "wrap64 (wrap64 (106752 * 24) * Hour) < 0" by code_simp
  ultimately show ?thesis using w[of days] w[of 7] by (simp add: NewService_def)
qed

theorem NewService_ttl_witness:
  "\<exists>T :: nat TokenManager. NewService T None ''30'' =
     Inr \<lparr>us_tokens = T, us_cache = None, refreshTokenTTL = 30 * 24 * Hour\<rparr>"
proof -
  have a: "Atoi ''30'' = Some 30" by code_simp
  have "NewService T None ''30'' =
     Inr \<lparr>us_tokens = T, us_cache = None, refreshTokenTTL = 30 * 24 * Hour\<rparr>" for T :: "nat TokenManager"
    using NewService_ttl[of "''30''" 30 T None] a by simp
  then show ?thesis by blast
qed

text \<open>
  An address is registered once: a second registration, with any password that passes
  validation, is refused as taken, and changes no table.
\<close>

theorem Register_taken:
  assumes "email \<in> u_email ` set (users (db w))" and "validateCredentials e email pw = None"
    and "pg_fault e (tick w) = None"
  shows "Register e s email pw w = (Inl (UserE EmailTaken), w\<lparr>tick := Suc (tick w)\<rparr>)"
proof -
  obtain u where "find (\<lambda>u. u_email u = email) (users (db w)) = Some u"
    using assms(1) find_None_D by (metis (mono_tags, lifting) image_iff not_None_eq)
  with assms(2,3) show ?thesis
    by (simp add: Register_def GetUserByEmail_eq attempt_def fail_def)
qed

theorem Register_taken_witness:
  "fst (Register sample_env (sample_user_service up_client True) ''a@b'' ''different''
      \<lparr>db = sample_user_db, redis = Map.empty, tick = 0\<rparr>) = Inl (UserE EmailTaken)"
  by (subst Register_taken)
     (simp_all add: sample_user_db_def validateCredentials_def sample_env_simps rune_count_ascii ascii_def)

end
