(* ===== verification/Api_Key.thy ===== *)
theory Api_Key
  imports Sample
begin

text \<open>
  internal/auth/apikey.go: keys of the form \<open>ll_<prefix>_<secret>\<close>. The prefix part has eight
  characters of an alphabet without the underscore, the secret is the hexadecimal text of
  sixteen random bytes. The lemmas show that the parser accepts exactly the keys of that shape
  and recovers the prefix of every generated key.
\<close>

definition apiKeyPrefixLen :: nat where "apiKeyPrefixLen = 8"
definition apiKeySecretLen :: nat where "apiKeySecretLen = 16"
definition apiKeyChars :: string where "apiKeyChars = ''abcdefghijklmnopqrstuvwxyz0123456789''"
definition apiKeyScheme :: string where "apiKeyScheme = ''ll_''"

text \<open>An index outside the alphabet would panic.\<close>

primrec randomString :: "env \<Rightarrow> nat \<Rightarrow> ('r, string) app" where
  "randomString e 0 = ret []"
| "randomString e (Suc n) =
     call (RandInt e (length apiKeyChars)) (\<lambda>i.
       if i < length apiKeyChars
       then call (randomString e n) (\<lambda>s. ret (apiKeyChars ! i # s))
       else fail (OtherE ''index out of range''))"

definition GenerateAPIKey :: "env \<Rightarrow> ('r, string \<times> string) app" where
  "GenerateAPIKey e =
     call (randomString e apiKeyPrefixLen) (\<lambda>prefixPart.
     call (RandRead e apiKeySecretLen) (\<lambda>secretBytes.
       let pfx = apiKeyScheme @ prefixPart;
           raw = pfx @ ''_'' @ EncodeToString secretBytes
       in ret (raw, pfx)))"

definition HashAPIKey :: "env \<Rightarrow> string \<Rightarrow> ('r, string) app" where
  "HashAPIKey e raw = GenerateFromPassword e raw"

definition ValidateAPIKey :: "env \<Rightarrow> string \<Rightarrow> string \<Rightarrow> err option" where
  "ValidateAPIKey e raw hash = (if bcrypt_cmp e hash raw then None else Some (AuthE InvalidAPIKey))"

definition ExtractAPIKeyPrefix :: "string \<Rightarrow> err + string" where
  "ExtractAPIKeyPrefix raw =
     (if \<not> HasPrefix raw apiKeyScheme then Inl (AuthE InvalidAPIKeyFormat)
      else let rest = TrimPrefix raw apiKeyScheme;
               underscore = IndexByte rest (CHR ''_'')
           in if underscore \<noteq> int apiKeyPrefixLen then Inl (AuthE InvalidAPIKeyFormat)
              else Inr (apiKeyScheme @ take (nat underscore) rest))"

lemmas api_key_consts =
  apiKeyPrefixLen_def apiKeySecretLen_def apiKeyScheme_def

section \<open>Generated keys\<close>

lemma quiet_randomString: "quiet (randomString e n)"
  by (induction n) (auto intro!: quiet_intros)

lemma randomString_Inr:
  "randomString e n w = (Inr s, w') \<Longrightarrow> length s = n \<and> set s \<subseteq> set apiKeyChars"
proof (induction n arbitrary: s w)
  case (Suc n)
  then show ?case by (fastforce simp: prog_simps split: if_splits)
qed (auto simp: prog_simps)

lemma no_underscore: "CHR ''_'' \<notin> set apiKeyChars" "CHR ''_'' \<notin> set hex_digits"
  by (simp_all add: apiKeyChars_def hex_digits_def)

lemma quiet_GenerateAPIKey: "quiet (GenerateAPIKey e)"
  by (auto simp: GenerateAPIKey_def Let_def intro!: quiet_intros quiet_randomString)

lemma quiet_HashAPIKey: "quiet (HashAPIKey e raw)"
  by (simp add: HashAPIKey_def quiet_intros)

lemma RandRead_length: "RandRead e n w = (Inr b, w') \<Longrightarrow> length b = n"
  by (auto simp: RandRead_def split: option.splits)

lemma GenerateAPIKey_shape:
  assumes "GenerateAPIKey e w = (Inr (raw, pfx), w')"
  obtains body secret where "raw = apiKeyScheme @ body @ CHR ''_'' # EncodeToString secret"
    and "pfx = apiKeyScheme @ body" and "length body = 8" and "length secret = 16"
    and "set body \<subseteq> set apiKeyChars"
  using assms
  by (auto simp: GenerateAPIKey_def prog_simps Let_def api_key_consts
      dest!: randomString_Inr RandRead_length)

lemma ExtractAPIKeyPrefix_build:
  assumes "length body = 8" and "CHR ''_'' \<notin> set body"
  shows "ExtractAPIKeyPrefix (apiKeyScheme @ body @ CHR ''_'' # rest) = Inr (apiKeyScheme @ body)"
  using assms
  by (simp add: ExtractAPIKeyPrefix_def HasPrefix_def TrimPrefix_def IndexByte_append Let_def
      api_key_consts)

text \<open>
  C31: the prefix the generator returns is the one the parser reads from the raw key, and
  the raw key has 44 bytes, below the 72 that bcrypt reads.
\<close>

theorem GenerateAPIKey_extract:
  assumes "GenerateAPIKey e w = (Inr (raw, pfx), w')"
  shows "ExtractAPIKeyPrefix raw = Inr pfx \<and> length raw = 44 \<and> length pfx = 11"
proof (rule GenerateAPIKey_shape[OF assms])
  fix body secret
  assume "raw = apiKeyScheme @ body @ CHR ''_'' # EncodeToString secret"
    and "pfx = apiKeyScheme @ body" and "length body = 8" and "length secret = 16"
    and "set body \<subseteq> set apiKeyChars"
  then show ?thesis
    using ExtractAPIKeyPrefix_build[of body "EncodeToString secret"] no_underscore(1)
    by (auto simp: length_EncodeToString apiKeyScheme_def)
qed

theorem GenerateAPIKey_extract_witness:
  "\<exists>raw pfx w'. GenerateAPIKey sample_env (sample_world ()) = (Inr (raw, pfx), w') \<and>
     ExtractAPIKeyPrefix raw = Inr pfx \<and> length raw = 44 \<and> length pfx = 11"
proof -
  have "\<exists>raw pfx w'. GenerateAPIKey sample_env (sample_world ()) = (Inr (raw, pfx), w')"
    by (simp add: GenerateAPIKey_def call_def ret_def RandInt_def RandRead_def sample_defs
        api_key_consts eval_nat_numeral apiKeyChars_def)
  then show ?thesis using GenerateAPIKey_extract by blast
qed

text \<open>
  The parser accepts a raw key exactly when it is the scheme, eight bytes without an
  underscore, an underscore and any rest; it then returns the scheme with those eight bytes,
  and otherwise the format error.
\<close>

theorem ExtractAPIKeyPrefix_iff:
  "ExtractAPIKeyPrefix raw =
     (if \<exists>body rest. raw = ''ll_'' @ body @ ''_'' @ rest \<and> length body = 8 \<and> CHR ''_'' \<notin> set body
      then Inr (take 11 raw) else Inl (AuthE InvalidAPIKeyFormat))"
proof (cases "ExtractAPIKeyPrefix raw")
  case (Inl f)
  then have "f = AuthE InvalidAPIKeyFormat"
    by (auto simp: ExtractAPIKeyPrefix_def Let_def split: if_splits)
  moreover have "\<nexists>body rest. raw = ''ll_'' @ body @ ''_'' @ rest \<and> length body = 8 \<and>
      CHR ''_'' \<notin> set body"
    using Inl ExtractAPIKeyPrefix_build by (force simp: apiKeyScheme_def)
  ultimately show ?thesis using Inl by simp
next
  case (Inr p)
  then obtain rest where raw: "raw = apiKeyScheme @ rest" and i: "IndexByte rest (CHR ''_'') = 8"
    and p: "p = apiKeyScheme @ take 8 rest"
    by (auto simp: ExtractAPIKeyPrefix_def HasPrefix_def TrimPrefix_def Let_def prefix_def
        api_key_consts split: if_splits)
  have "8 < length rest" and "rest ! 8 = CHR ''_''" and "CHR ''_'' \<notin> set (take 8 rest)"
    using IndexByte_first[of rest "CHR ''_''"] i by simp_all
  then have "rest = take 8 rest @ ''_'' @ drop 9 rest"
    using id_take_nth_drop[of 8 rest] by simp
  with \<open>8 < length rest\<close> \<open>CHR ''_'' \<notin> set (take 8 rest)\<close> raw
  have "\<exists>body rest'. raw = ''ll_'' @ body @ ''_'' @ rest' \<and> length body = 8 \<and> CHR ''_'' \<notin> set body"
    by (intro exI[of _ "take 8 rest"] exI[of _ "drop 9 rest"]) (simp add: apiKeyScheme_def)
  with Inr raw p show ?thesis by (simp add: apiKeyScheme_def)
qed

end
