(* ===== verification/Go_Time.thy ===== *)
theory Go_Time
  imports Schema
begin

text \<open>
  \<open>time.Now().UTC().Format\<close> with the three layouts the rate limiter uses: the proleptic
  Gregorian date of a time, printed to the day, the hour or the minute. The lemmas show that two
  times have the same text exactly when they fall in the same day, hour or minute. A time before
  1970 is read as the epoch.
\<close>

section \<open>Decimal numerals\<close>

lemma digit_val_char_of: "d < 10 \<Longrightarrow> digit_val (char_of (48 + d)) = Some (int d)" for d :: nat
proof -
  assume "d < 10"
  then have "(of_char (char_of (48 + d) :: char) :: nat) = 48 + d" by (simp add: of_char_of)
  then have "(of_char (char_of (48 + d) :: char) :: int) = 48 + int d"
    by (metis of_nat_add of_nat_numeral of_nat_of_char)
  with \<open>d < 10\<close> show ?thesis by (simp add: digit_val_def Let_def)
qed

lemma digits_val_append:
  "digits_val acc (xs @ ys) = (case digits_val acc xs of None \<Rightarrow> None | Some v \<Rightarrow> digits_val v ys)"
  by (induction xs arbitrary: acc) (auto split: option.splits)

lemma digits_val_dec_digits: "digits_val 0 (dec_digits n) = Some (int n)"
proof (induction n rule: dec_digits.induct)
  case (1 n)
  show ?case
  proof (cases "n < 10")
    case True
    then show ?thesis by (simp add: dec_digits.simps[of n] digit_val_char_of)
  next
    case False
    then have "digits_val 0 (dec_digits n) = Some (10 * int (n div 10) + int (n mod 10))"
      using 1 by (subst dec_digits.simps) (simp add: digits_val_append digit_val_char_of)
    also have "10 * int (n div 10) + int (n mod 10) = int n"
      by (metis mult_div_mod_eq of_nat_add of_nat_mult of_nat_numeral)
    finally show ?thesis .
  qed
qed

lemma dec_digits_inj: "dec_digits m = dec_digits n \<longleftrightarrow> m = n"
  by (metis digits_val_dec_digits of_nat_eq_iff option.inject)

definition pad2 :: "nat \<Rightarrow> string" where
  "pad2 n = (if n < 10 then CHR ''0'' # dec_digits n else dec_digits n)"

lemma length_pad2: "n < 100 \<Longrightarrow> length (pad2 n) = 2"
proof -
  assume "n < 100"
  moreover have "length (dec_digits m) = 1" if "m < 10" for m
    using that by (subst dec_digits.simps) simp
  moreover have "length (dec_digits n) = Suc (length (dec_digits (n div 10)))" if "\<not> n < 10"
    using that by (subst dec_digits.simps) simp
  ultimately show ?thesis by (simp add: pad2_def)
qed

lemma pad2_val: "digits_val 0 (pad2 n) = Some (int n)"
proof -
  have "digit_val CHR ''0'' = Some 0" by (simp add: digit_val_def)
  then show ?thesis by (simp add: pad2_def digits_val_dec_digits)
qed

lemma pad2_inj: "pad2 m = pad2 n \<longleftrightarrow> m = n"
  by (metis pad2_val of_nat_eq_iff option.inject)

definition pad4 :: "nat \<Rightarrow> string" where
  "pad4 n = replicate (4 - length (dec_digits n)) (CHR ''0'') @ dec_digits n"

lemma pad4_val: "digits_val 0 (pad4 n) = Some (int n)"
proof -
  have "digits_val 0 (replicate k (CHR ''0'')) = Some 0" for k
  proof (induction k)
    case (Suc k)
    have "digit_val CHR ''0'' = Some 0" by (simp add: digit_val_def)
    with Suc show ?case by simp
  qed simp
  then show ?thesis by (simp add: pad4_def digits_val_append digits_val_dec_digits)
qed

lemma pad4_inj: "pad4 m = pad4 n \<longleftrightarrow> m = n"
  by (metis pad4_val of_nat_eq_iff option.inject)

section \<open>The calendar\<close>

definition leap :: "nat \<Rightarrow> bool" where
  "leap y \<longleftrightarrow> y mod 4 = 0 \<and> (y mod 100 \<noteq> 0 \<or> y mod 400 = 0)"

definition year_len :: "nat \<Rightarrow> nat" where
  "year_len y = (if leap y then 366 else 365)"

definition month_lens :: "nat \<Rightarrow> nat list" where
  "month_lens y = [31, if leap y then 29 else 28, 31, 30, 31, 30, 31, 31, 30, 31, 30, 31]"

function split_year :: "nat \<Rightarrow> nat \<Rightarrow> nat \<times> nat" where
  "split_year y n = (if n < year_len y then (y, n) else split_year (Suc y) (n - year_len y))"
  by pat_completeness auto
termination by (relation "measure snd") (auto simp: year_len_def split: if_splits)

declare split_year.simps [simp del]

fun split_month :: "nat list \<Rightarrow> nat \<Rightarrow> nat \<times> nat" where
  "split_month [] n = (0, n)"
| "split_month (l # ls) n = (if n < l then (0, n) else let (m, d) = split_month ls (n - l) in (Suc m, d))"

text \<open>Year, month and day of a day counted from 1 January 1970\<close>

definition civil :: "nat \<Rightarrow> nat \<times> nat \<times> nat" where
  "civil n = (let (y, r) = split_year 1970 n; (m, d) = split_month (month_lens y) r in (y, Suc m, Suc d))"

text \<open>The day can be computed back, so different days have different dates.\<close>

definition day_of :: "nat \<times> nat \<times> nat \<Rightarrow> nat" where
  "day_of = (\<lambda>(y, m, d). (\<Sum>i\<in>{1970..<y}. year_len i) + sum_list (take (m - 1) (month_lens y)) + (d - 1))"

lemma split_year_sum:
  "split_year y n = (y', r) \<Longrightarrow> y \<le> y' \<and> r < year_len y' \<and> n = (\<Sum>i\<in>{y..<y'}. year_len i) + r"
proof (induction y n arbitrary: y' r rule: split_year.induct)
  case (1 y n)
  show ?case
  proof (cases "n < year_len y")
    case True
    with "1.prems" show ?thesis by (subst (asm) split_year.simps) auto
  next
    case False
    then have "split_year (Suc y) (n - year_len y) = (y', r)"
      using "1.prems" by (subst (asm) split_year.simps) simp
    with 1(1)[OF False this] False show ?thesis
      by (auto simp: sum.atLeast_Suc_lessThan)
  qed
qed

lemma split_month_sum:
  "split_month ls n = (m, d) \<Longrightarrow> n < sum_list ls \<Longrightarrow>
   m < length ls \<and> d < ls ! m \<and> n = sum_list (take m ls) + d"
proof (induction ls n arbitrary: m d rule: split_month.induct)
  case (2 l ls n)
  then show ?case
    by (cases "n < l") (fastforce simp: Let_def split: prod.splits)+
qed simp

lemma civil_day_of: "day_of (civil n) = n"
  and civil_bounds: "civil n = (y, m, d) \<Longrightarrow> m < 100 \<and> d < 100"
proof -
  obtain y' r where y: "split_year 1970 n = (y', r)" by fastforce
  obtain m' d' where m: "split_month (month_lens y') r = (m', d')" by fastforce
  note ys = split_year_sum[OF y]
  have "r < sum_list (month_lens y')" using ys by (auto simp: year_len_def month_lens_def split: if_splits)
  note ms = split_month_sum[OF m this]
  have c: "civil n = (y', Suc m', Suc d')" by (simp add: civil_def y m)
  show "day_of (civil n) = n" unfolding c using ys ms by (simp add: day_of_def)
  have m': "m' < 12" using ms by (simp add: month_lens_def)
  then have "month_lens y' ! m' \<le> 31"
    by (auto simp: month_lens_def less_Suc_eq numeral_eq_Suc)
  then have "m' < 99" and "d' < 99" using ms m' by linarith+
  then show "civil n = (y, m, d) \<Longrightarrow> m < 100 \<and> d < 100" by (simp add: c)
qed

lemma civil_inj: "civil m = civil n \<longleftrightarrow> m = n"
  using civil_day_of by metis

section \<open>Layouts\<close>

definition days_since :: "time \<Rightarrow> nat" where "days_since t = nat (t div (24 * Hour))"
definition hour_of :: "time \<Rightarrow> nat" where "hour_of t = nat (t div Hour) mod 24"
definition minute_of :: "time \<Rightarrow> nat" where "minute_of t = nat (t div Minute) mod 60"

text \<open>\<open>Format("20060102")\<close>, \<open>Format("2006010215")\<close>, \<open>Format("200601021504")\<close>\<close>

definition format_day :: "time \<Rightarrow> string" where
  "format_day t = (case civil (days_since t) of (y, m, d) \<Rightarrow> pad4 y @ pad2 m @ pad2 d)"

definition format_hour :: "time \<Rightarrow> string" where
  "format_hour t = format_day t @ pad2 (hour_of t)"

definition format_minute :: "time \<Rightarrow> string" where
  "format_minute t = format_hour t @ pad2 (minute_of t)"

lemma append_pad2_inj:
  "m < 100 \<Longrightarrow> n < 100 \<Longrightarrow> xs @ pad2 m = ys @ pad2 n \<longleftrightarrow> xs = ys \<and> m = n"
  using append_eq_append_conv[of "pad2 m" "pad2 n" xs ys] by (auto simp: length_pad2 pad2_inj)

lemma format_day_inj: "format_day t = format_day t' \<longleftrightarrow> days_since t = days_since t'"
proof -
  obtain y m d y' m' d' where c: "civil (days_since t) = (y, m, d)" "civil (days_since t') = (y', m', d')"
    by (metis prod_cases3)
  have b: "m < 100" "d < 100" "m' < 100" "d' < 100" using civil_bounds c by blast+
  have "format_day t = format_day t' \<longleftrightarrow> (y, m, d) = (y', m', d')"
    using append_pad2_inj[OF b(2,4), of "pad4 y @ pad2 m" "pad4 y' @ pad2 m'"]
      append_pad2_inj[OF b(1,3), of "pad4 y" "pad4 y'"]
    by (auto simp: format_day_def c pad4_inj)
  then show ?thesis using civil_inj c by metis
qed

lemma format_hour_inj:
  "format_hour t = format_hour t' \<longleftrightarrow> days_since t = days_since t' \<and> hour_of t = hour_of t'"
  by (simp add: format_hour_def append_pad2_inj hour_of_def format_day_inj
      less_trans[OF mod_less_divisor])

lemma format_minute_inj:
  "format_minute t = format_minute t' \<longleftrightarrow>
     days_since t = days_since t' \<and> hour_of t = hour_of t' \<and> minute_of t = minute_of t'"
  by (simp add: format_minute_def append_pad2_inj minute_of_def format_hour_inj
      less_trans[OF mod_less_divisor])

text \<open>The texts are equal exactly within one UTC day, hour or minute.\<close>

lemma div_split: "0 < b \<Longrightarrow> t div (a * b) = t' div (a * b) \<and> t div a mod b = t' div a mod b \<longleftrightarrow>
    t div a = t' div a" for t :: int
proof
  assume b: "0 < b" and "t div (a * b) = t' div (a * b) \<and> t div a mod b = t' div a mod b"
  then have "t div a div b = t' div a div b" "t div a mod b = t' div a mod b"
    by (simp_all add: zdiv_zmult2_eq)
  then show "t div a = t' div a" by (metis div_mult_mod_eq)
qed (simp add: zdiv_zmult2_eq)

lemma div_within:
  fixes x :: int
  assumes "0 < h" and "s mod h = 0" and "s \<le> x" and "x < s + h"
  shows "x div h = s div h"
proof -
  have s: "s = h * (s div h)" using assms(2) by auto
  have "x = (x - s) + h * (s div h)" using s by simp
  then have "x div h = s div h + (x - s) div h"
    using assms(1) by (metis div_mult_self2 less_irrefl add.commute)
  then show ?thesis using assms by (simp add: div_pos_pos_trivial)
qed

lemma format_day_eq: "0 \<le> t \<Longrightarrow> 0 \<le> t' \<Longrightarrow>
    format_day t = format_day t' \<longleftrightarrow> t div (24 * Hour) = t' div (24 * Hour)"
  by (auto simp: format_day_inj days_since_def duration_defs nat_eq_iff2 pos_imp_zdiv_nonneg_iff)

lemma format_hour_eq: "0 \<le> t \<Longrightarrow> 0 \<le> t' \<Longrightarrow>
    format_hour t = format_hour t' \<longleftrightarrow> t div Hour = t' div Hour"
proof -
  assume t: "0 \<le> t" "0 \<le> t'"
  have "nat (x div Hour) mod 24 = nat (x div Hour mod 24)" if "0 \<le> x" for x
    using that by (simp add: nat_mod_distrib duration_defs pos_imp_zdiv_nonneg_iff)
  then have "hour_of t = hour_of t' \<longleftrightarrow> t div Hour mod 24 = t' div Hour mod 24"
    using t by (simp add: hour_of_def eq_nat_nat_iff)
  then show ?thesis
    using format_day_eq[OF t] div_split[of 24 t Hour t']
    by (simp add: format_hour_inj format_day_inj mult.commute)
qed

end
