(* ===== verification/Rate_Limit.thy ===== *)
theory Rate_Limit
  imports Sample Go_Time
begin

text \<open>
  internal/ratelimit: the configuration and the fixed-window counters in Redis. The lemmas show
  that a limiter admits exactly the first \<open>limit\<close> requests of a key within a window, whatever
  other keys are doing, and that it admits everything when Redis cannot answer.
\<close>

section \<open>Configuration\<close>

record Config =
  Enabled :: bool
  IngestPerOrgHour :: int
  IngestPerOrgDay :: int
  AuthPerIPMinute :: int
  APIPerIPMinute :: int
  APIPerUserMinute :: int
  IngestRequestsPerIPMinute :: int
  AIRequestsPerOrgDay :: int

definition envInt :: "(string \<Rightarrow> string) \<Rightarrow> string \<Rightarrow> int \<Rightarrow> int" where
  "envInt getenv key fallback =
     (let raw = getenv key in
      if raw = [] then fallback
      else case Atoi raw of None \<Rightarrow> fallback | Some v \<Rightarrow> if v < 0 then fallback else v)"

definition envBool :: "(string \<Rightarrow> string) \<Rightarrow> string \<Rightarrow> bool \<Rightarrow> bool" where
  "envBool getenv key fallback =
     (let raw = getenv key in
      if raw = [] then fallback
      else case ParseBool raw of None \<Rightarrow> fallback | Some v \<Rightarrow> v)"

definition LoadConfig :: "(string \<Rightarrow> string) \<Rightarrow> Config" where
  "LoadConfig getenv =
     \<lparr>Enabled = envBool getenv ''RATE_LIMIT_ENABLED'' True,
      IngestPerOrgHour = envInt getenv ''INGEST_LOGS_PER_ORG_HOUR'' 500,
      IngestPerOrgDay = envInt getenv ''INGEST_LOGS_PER_ORG_DAY'' 5000,
      AuthPerIPMinute = envInt getenv ''AUTH_REQUESTS_PER_IP_MINUTE'' 15,
      APIPerIPMinute = envInt getenv ''API_REQUESTS_PER_IP_MINUTE'' 120,
      APIPerUserMinute = envInt getenv ''API_REQUESTS_PER_USER_MINUTE'' 300,
      IngestRequestsPerIPMinute = envInt getenv ''INGEST_REQUESTS_PER_IP_MINUTE'' 60,
      AIRequestsPerOrgDay = envInt getenv ''AI_REQUESTS_PER_ORG_DAY'' 10\<rparr>"

lemma envInt_nonneg: "0 \<le> fallback \<Longrightarrow> 0 \<le> envInt getenv key fallback"
  by (simp add: envInt_def Let_def split: option.split)

section \<open>The limiter\<close>

record 'r Limiter =
  lim_store :: "'r RedisStore option"
  lim_enabled :: bool

definition NewLimiter :: "'r RedisStore option \<Rightarrow> Config \<Rightarrow> 'r Limiter" where
  "NewLimiter store cfg = \<lparr>lim_store = store, lim_enabled = Enabled cfg \<and> usable store\<rparr>"

text \<open>An error of the pipeline lets the request pass; \<open>Val()\<close> of an unset reply is 0.\<close>

definition Allow :: "env \<Rightarrow> 'r Limiter \<Rightarrow> string \<Rightarrow> int \<Rightarrow> duration \<Rightarrow> ('r, unit) app" where
  "Allow e l key limit window =
     (if \<not> lim_enabled l \<or> limit \<le> 0 then ret ()
      else
        attempt (with_client e (lim_store l) (\<lambda>c t. r_exec c t [CmdIncr key, CmdExpire key window]))
          (\<lambda>r. case r of
             Inl (RedisE _) \<Rightarrow> ret ()
           | Inl x \<Rightarrow> fail x
           | Inr counts \<Rightarrow>
               (case counts of
                  [] \<Rightarrow> ret ()
                | n # _ \<Rightarrow> if limit < n then fail RateLimited else ret ())))"

definition ingestHourKey :: "env \<Rightarrow> string \<Rightarrow> ('r, string) app" where
  "ingestHourKey e orgID =
     call (Now e) (\<lambda>t. ret (''rl:ingest:org:'' @ orgID @ '':hour:'' @ format_hour t))"

definition ingestDayKey :: "env \<Rightarrow> string \<Rightarrow> ('r, string) app" where
  "ingestDayKey e orgID =
     call (Now e) (\<lambda>t. ret (''rl:ingest:org:'' @ orgID @ '':day:'' @ format_day t))"

definition IPMinuteKey :: "env \<Rightarrow> string \<Rightarrow> string \<Rightarrow> ('r, string) app" where
  "IPMinuteKey e pfx ip =
     call (Now e) (\<lambda>t. ret (''rl:'' @ pfx @ '':ip:'' @ ip @ '':min:'' @ format_minute t))"

definition UserMinuteKey :: "env \<Rightarrow> string \<Rightarrow> string \<Rightarrow> ('r, string) app" where
  "UserMinuteKey e pfx userID =
     call (Now e) (\<lambda>t. ret (''rl:'' @ pfx @ '':user:'' @ userID @ '':min:'' @ format_minute t))"

definition OrgDayKey :: "env \<Rightarrow> string \<Rightarrow> string \<Rightarrow> ('r, string) app" where
  "OrgDayKey e pfx orgID =
     call (Now e) (\<lambda>t. ret (''rl:'' @ pfx @ '':org:'' @ orgID @ '':day:'' @ format_day t))"

definition AllowIngest :: "env \<Rightarrow> 'r Limiter \<Rightarrow> string \<Rightarrow> Config \<Rightarrow> ('r, unit) app" where
  "AllowIngest e l orgID cfg =
     call (ingestHourKey e orgID) (\<lambda>hk.
     call (Allow e l hk (IngestPerOrgHour cfg) Hour) (\<lambda>_.
     call (ingestDayKey e orgID) (\<lambda>dk.
     Allow e l dk (IngestPerOrgDay cfg) (24 * Hour))))"

lemmas key_defs = ingestHourKey_def ingestDayKey_def IPMinuteKey_def UserMinuteKey_def OrgDayKey_def

section \<open>What a limiter does\<close>

lemma keeps_Allow [keeps_intros]: "keeps_db P (Allow e l k n win)"
  unfolding Allow_def by (auto intro!: keeps_intros split: sum.split err.split list.split)

lemma keeps_AllowIngest [keeps_intros]: "keeps_db P (AllowIngest e l org cfg)"
  unfolding AllowIngest_def key_defs by (intro keeps_intros)

text \<open>The only refusal is the limit.\<close>

lemma Allow_results:
  assumes "NewLimiter store cfg = l" and "Allow e l k n win w = (r, w')"
  shows "r = Inr () \<or> r = Inl RateLimited"
  using assms
  by (auto simp: Allow_def NewLimiter_def with_client_def IsAvailable_def attempt_def ret_def fail_def
      split: if_splits option.splits prod.splits sum.splits list.splits err.splits elim!: usable.elims)

lemma Allow_down:
  assumes "r_exec C (clk e (tick w)) [CmdIncr k, CmdExpire k win] (redis w) = (Inl x, s)"
  shows "fst (Allow e \<lparr>lim_store = store_of C b, lim_enabled = en\<rparr> k n win w) = Inr ()"
  using assms by (simp add: Allow_def attempt_def with_client_store_of ret_def)

text \<open>The requests counted under a key\<close>

definition counts :: "keyspace \<Rightarrow> time \<Rightarrow> string \<Rightarrow> nat \<Rightarrow> bool" where
  "counts K t k n \<longleftrightarrow> (if n = 0 then live K t k = None else live K t k = Some (RInt (int n)))"

context healthy_redis
begin

lemma Allow_count:
  assumes "counts (kspace (redis w)) (clk e (tick w)) k n" and "0 < limit" and "0 < win"
  obtains w' where
    "Allow e \<lparr>lim_store = store_of C b, lim_enabled = True\<rparr> k limit win w =
      ((if int n < limit then Inr () else Inl RateLimited), w')"
    and "kspace (redis w') = (kspace (redis w))
      (k \<mapsto> (RInt (int (Suc n)), Some (clk e (tick w) + win)))"
    and "tick w' = Suc (tick w)" and "db w' = db w"
proof -
  let ?t = "clk e (tick w)" and ?K = "kspace (redis w)"
  obtain ns s where x: "r_exec C ?t [CmdIncr k, CmdExpire k win] (redis w) = (Inr ns, s)"
    and a: "apply_cmds ?t [CmdIncr k, CmdExpire k win] ?K = (ns, kspace s)"
    by (rule exec_total)
  obtain K1 where i: "apply_cmd ?t (CmdIncr k) ?K = (int (Suc n), K1)"
    and l: "live K1 ?t k = Some (RInt (int (Suc n)))" and K1: "K1 = ?K(k := K1 k)"
    using assms(1)
    by (auto simp: counts_def live_def split: if_splits option.splits)
  have e: "apply_cmd ?t (CmdExpire k win) K1 = (1, ?K(k \<mapsto> (RInt (int (Suc n)), Some (?t + win))))"
    using l K1 assms(3) by (simp) (metis fun_upd_upd)
  have "ns = [int (Suc n), 1]" "kspace s = ?K(k \<mapsto> (RInt (int (Suc n)), Some (?t + win)))"
    using a e i by (simp_all add: Let_def del: apply_cmd.simps)
  then show thesis
    using that[of "w\<lparr>redis := s, tick := Suc (tick w)\<rparr>"] x assms(2)
    by (simp add: Allow_def attempt_def with_client_store_of ret_def fail_def)
qed

end

text \<open>A sequence of requests for the given keys, and whether each was admitted\<close>

fun allow_seq ::
    "env \<Rightarrow> 'r Limiter \<Rightarrow> int \<Rightarrow> duration \<Rightarrow> string list \<Rightarrow> 'r world \<Rightarrow> bool list \<times> 'r world" where
  "allow_seq e l limit win [] w = ([], w)"
| "allow_seq e l limit win (k # ks) w =
     (let (r, w1) = Allow e l k limit win w; (rs, w2) = allow_seq e l limit win ks w1
      in ((r = Inr ()) # rs, w2))"

lemma admitted_shift:
  "(int (c k) < limit) #
     map (\<lambda>i. int ((c(k := Suc (c k))) (ks ! i) + count_list (take i ks) (ks ! i)) < limit) [0..<length ks] =
   map (\<lambda>i. int (c ((k # ks) ! i) + count_list (take i (k # ks)) ((k # ks) ! i)) < limit)
     [0..<length (k # ks)]"
proof -
  have "[0..<length (k # ks)] = 0 # map Suc [0..<length ks]" by (simp add: upt_conv_Cons map_Suc_upt del: upt_Suc)
  then show ?thesis by (simp add: algebra_simps)
qed

context healthy_redis
begin

lemma allow_seq_counts:
  assumes "0 < limit" and "0 < win"
    and "\<And>n. tick w \<le> n \<Longrightarrow> n < tick w + length ks \<Longrightarrow> start \<le> clk e n \<and> clk e n < start + win"
    and "\<And>k. k \<in> set ks \<Longrightarrow>
      (c k = 0 \<and> live (kspace (redis w)) start k = None) \<or>
      (0 < c k \<and> (\<exists>d. start + win \<le> d \<and> kspace (redis w) k = Some (RInt (int (c k)), Some d)))"
  shows "fst (allow_seq e \<lparr>lim_store = store_of C b, lim_enabled = True\<rparr> limit win ks w) =
    map (\<lambda>i. int (c (ks ! i) + count_list (take i ks) (ks ! i)) < limit) [0..<length ks]"
  using assms(3,4)
proof (induction ks arbitrary: w c)
  case (Cons k ks)
  let ?t = "clk e (tick w)"
  have t: "start \<le> ?t" "?t < start + win" using Cons.prems(1)[of "tick w"] by simp_all
  have "counts (kspace (redis w)) ?t k (c k)"
    using Cons.prems(2)[of k] t live_mono[OF t(1), of "kspace (redis w)" k]
    by (auto simp: counts_def live_def)
  then obtain w1 where a: "Allow e \<lparr>lim_store = store_of C b, lim_enabled = True\<rparr> k limit win w =
      ((if int (c k) < limit then Inr () else Inl RateLimited), w1)"
    and K: "kspace (redis w1) = (kspace (redis w))(k \<mapsto> (RInt (int (Suc (c k))), Some (?t + win)))"
    and n: "tick w1 = Suc (tick w)"
    using Allow_count[OF _ assms(1,2)] by metis
  have "fst (allow_seq e \<lparr>lim_store = store_of C b, lim_enabled = True\<rparr> limit win ks w1) =
      map (\<lambda>i. int ((c(k := Suc (c k))) (ks ! i) + count_list (take i ks) (ks ! i)) < limit) [0..<length ks]"
  proof (rule Cons.IH)
    fix m assume "tick w1 \<le> m" "m < tick w1 + length ks"
    then show "start \<le> clk e m \<and> clk e m < start + win" using n Cons.prems(1)[of m] by simp
  next
    fix k' assume k': "k' \<in> set ks"
    show "((c(k := Suc (c k))) k' = 0 \<and> live (kspace (redis w1)) start k' = None) \<or>
      (0 < (c(k := Suc (c k))) k' \<and>
       (\<exists>d. start + win \<le> d \<and> kspace (redis w1) k' = Some (RInt (int ((c(k := Suc (c k))) k')), Some d)))"
      using K t k' Cons.prems(2)[of k'] live_cong[of "kspace (redis w1)" k' "kspace (redis w)" start]
      by (cases "k' = k") auto
  qed
  moreover have "fst (allow_seq e \<lparr>lim_store = store_of C b, lim_enabled = True\<rparr> limit win (k # ks) w) =
      (int (c k) < limit) #
        fst (allow_seq e \<lparr>lim_store = store_of C b, lim_enabled = True\<rparr> limit win ks w1)"
    by (simp add: a Let_def case_prod_beta)
  ultimately show ?case using admitted_shift[of c k limit ks] by (simp only:)
qed simp

end

section \<open>Ingestion quotas\<close>

lemma Allow_other:
  assumes "redis_server C kspace"
    and "Allow e \<lparr>lim_store = store_of C b, lim_enabled = en\<rparr> k n win w = (r, w')"
  shows "(k' \<noteq> k \<longrightarrow> kspace (redis w') k' = kspace (redis w) k') \<and>
    tick w \<le> tick w' \<and> tick w' \<le> Suc (tick w)"
proof (cases "\<not> en \<or> n \<le> 0")
  case True
  then show ?thesis using assms(2) by (simp add: Allow_def ret_def)
next
  case False
  obtain x s where x: "r_exec C (clk e (tick w)) [CmdIncr k, CmdExpire k win] (redis w) = (x, s)"
    by fastforce
  have "w' = w\<lparr>redis := s, tick := Suc (tick w)\<rparr>"
    using assms(2) x False
    by (auto simp: Allow_def attempt_def with_client_store_of ret_def fail_def
        split: sum.splits list.splits if_splits)
  then show ?thesis using redis_server.exec_other[OF assms(1) x, of k'] by auto
qed

fun ingest_seq :: "env \<Rightarrow> 'r Limiter \<Rightarrow> string \<Rightarrow> Config \<Rightarrow> nat \<Rightarrow> 'r world \<Rightarrow> nat \<times> 'r world" where
  "ingest_seq e l org cfg 0 w = (0, w)"
| "ingest_seq e l org cfg (Suc n) w =
     (let (r, w1) = AllowIngest e l org cfg w; (m, w2) = ingest_seq e l org cfg n w1
      in ((if r = Inr () then Suc m else m), w2))"

context healthy_redis
begin

definition hour_count :: "string \<Rightarrow> time \<Rightarrow> nat \<Rightarrow> 'a world \<Rightarrow> bool" where
  "hour_count org start n w \<longleftrightarrow>
     (let K = kspace (redis w); k = ''rl:ingest:org:'' @ org @ '':hour:'' @ format_hour start in
      (n = 0 \<and> live K start k = None) \<or>
      (0 < n \<and> (\<exists>d. start + Hour \<le> d \<and> K k = Some (RInt (int n), Some d))))"

lemma AllowIngest_step:
  assumes inv: "hour_count org start n w" and lim: "0 < IngestPerOrgHour cfg"
    and clk: "\<And>m. tick w \<le> m \<Longrightarrow> m < tick w + 4 \<Longrightarrow> start \<le> clk e m \<and> clk e m < start + Hour"
    and start: "0 \<le> start" "start mod Hour = 0"
    and run: "AllowIngest e \<lparr>lim_store = store_of C b, lim_enabled = True\<rparr> org cfg w = (r, w')"
  shows "hour_count org start (Suc n) w' \<and> tick w' \<le> tick w + 4 \<and> tick w \<le> tick w' \<and>
    (r = Inr () \<longrightarrow> int n < IngestPerOrgHour cfg)"
proof -
  let ?l = "\<lparr>lim_store = store_of C b, lim_enabled = True\<rparr>"
  let ?k = "''rl:ingest:org:'' @ org @ '':hour:'' @ format_hour start"
  let ?w1 = "w\<lparr>tick := Suc (tick w)\<rparr>"
  have fmt: "format_hour (clk e (tick w)) = format_hour start"
  proof -
    have "clk e (tick w) div Hour = start div Hour"
      using clk[of "tick w"] start by (intro div_within) (auto simp: duration_defs)
    then show ?thesis using format_hour_eq[of "clk e (tick w)" start] clk[of "tick w"] start by simp
  qed
  have t: "start \<le> clk e (Suc (tick w))" "clk e (Suc (tick w)) < start + Hour"
    using clk[of "Suc (tick w)"] by simp_all
  have "counts (kspace (redis ?w1)) (clk e (tick ?w1)) ?k n"
    using inv t live_mono[OF t(1), of "kspace (redis w)" ?k]
    by (auto simp: hour_count_def counts_def live_def Let_def)
  then obtain w2 where a: "Allow e ?l ?k (IngestPerOrgHour cfg) Hour ?w1 =
      ((if int n < IngestPerOrgHour cfg then Inr () else Inl RateLimited), w2)"
    and K: "kspace (redis w2) = (kspace (redis w))(?k \<mapsto> (RInt (int (Suc n)), Some (clk e (Suc (tick w)) + Hour)))"
    and n: "tick w2 = Suc (Suc (tick w))"
    using Allow_count[OF _ lim, of ?w1 e ?k n Hour b] by (auto simp: duration_defs)
  have i2: "hour_count org start (Suc n) w2" using K t by (auto simp: hour_count_def Let_def)
  show ?thesis
  proof (cases "int n < IngestPerOrgHour cfg")
    case False
    then have "w' = w2" "r = Inl RateLimited"
      using run a by (simp_all add: AllowIngest_def ingestHourKey_def Now_def call_def ret_def fmt)
    then show ?thesis using i2 n by simp
  next
    case True
    let ?d = "''rl:ingest:org:'' @ org @ '':day:'' @ format_day (clk e (tick w2))"
    have "Allow e ?l ?d (IngestPerOrgDay cfg) (24 * Hour) (w2\<lparr>tick := Suc (tick w2)\<rparr>) = (r, w')"
      using run a True
      by (simp add: AllowIngest_def ingestHourKey_def ingestDayKey_def Now_def call_def ret_def fmt)
    from Allow_other[OF redis_server_axioms this, of ?k] i2 n True show ?thesis
      by (auto simp: hour_count_def Let_def live_def)
  qed
qed

lemma ingest_seq_quota:
  assumes "hour_count org start n w" and "0 < IngestPerOrgHour cfg" and "0 \<le> start" "start mod Hour = 0"
    and "\<And>i. tick w \<le> i \<Longrightarrow> i < tick w + 4 * m \<Longrightarrow> start \<le> clk e i \<and> clk e i < start + Hour"
  shows "int (fst (ingest_seq e \<lparr>lim_store = store_of C b, lim_enabled = True\<rparr> org cfg m w)) \<le>
    max 0 (IngestPerOrgHour cfg - int n)"
  using assms(1,5)
proof (induction m arbitrary: n w)
  case (Suc m)
  let ?l = "\<lparr>lim_store = store_of C b, lim_enabled = True\<rparr>"
  obtain r w1 where a: "AllowIngest e ?l org cfg w = (r, w1)" by fastforce
  have s: "hour_count org start (Suc n) w1 \<and> tick w1 \<le> tick w + 4 \<and> tick w \<le> tick w1 \<and>
      (r = Inr () \<longrightarrow> int n < IngestPerOrgHour cfg)"
    using AllowIngest_step[OF Suc.prems(1) assms(2) _ assms(3,4) a] Suc.prems(2) by simp
  have "int (fst (ingest_seq e ?l org cfg m w1)) \<le> max 0 (IngestPerOrgHour cfg - int (Suc n))"
    using s Suc.prems(2) by (intro Suc.IH) auto
  then show ?case using s by (auto simp: a Let_def case_prod_beta)
qed simp

end

section \<open>Properties\<close>

text \<open>
  C28: with a healthy Redis, a limiter admits of the requests for one key within one window
  exactly the first \<open>limit\<close>, whatever the requests for other keys in between: the request at
  position i passes when fewer than \<open>limit\<close> requests with its key came before it.
\<close>

theorem Allow_exact:
  assumes "healthy_redis C kspace" and "0 < limit" and "0 < win"
    and "\<And>n. tick w \<le> n \<Longrightarrow> n < tick w + length ks \<Longrightarrow> start \<le> clk e n \<and> clk e n < start + win"
    and "\<And>k. k \<in> set ks \<Longrightarrow> live (kspace (redis w)) start k = None"
  shows "fst (allow_seq e \<lparr>lim_store = store_of C b, lim_enabled = True\<rparr> limit win ks w) =
    map (\<lambda>i. int (count_list (take i ks) (ks ! i)) < limit) [0..<length ks]"
  using healthy_redis.allow_seq_counts[where c = "\<lambda>_. 0" and b = b, OF assms(1,2,3,4)] assms(5) by simp

theorem Allow_exact_witness:
  "fst (allow_seq sample_env \<lparr>lim_store = store_of up_client True, lim_enabled = True\<rparr> 2 Minute
      [''a'', ''b'', ''a'', ''a''] (sample_world Map.empty)) = [True, True, True, False]"
  by (subst Allow_exact[OF up.healthy_redis_axioms, where start = 0])
     (auto simp: sample_env_simps sample_world_def duration_defs live_def upt_rec)



text \<open>
  The limiter fails open: when Redis cannot execute the counter, when limiting is
  switched off, when Redis was not available at start, or with a limit of zero, every request
  passes; and a request is never refused with anything but the rate limit error.
\<close>

theorem Allow_fails_open:
  assumes "r_exec C (clk e (tick w)) [CmdIncr k, CmdExpire k win] (redis w) = (Inl x, s) \<or>
    \<not> Enabled cfg \<or> \<not> b \<or> n \<le> 0"
  shows "fst (Allow e (NewLimiter (store_of C b) cfg) k n win w) = Inr ()"
  using assms
  by (auto simp: NewLimiter_def usable_store_of Allow_def attempt_def with_client_store_of ret_def)

theorem Allow_fails_open_witness:
  "fst (Allow sample_env (NewLimiter (store_of mem_client True) (LoadConfig (\<lambda>k. []))) ''k'' 1 Minute
     \<lparr>db = empty_db, redis = \<lparr>cells = Map.empty, down = True\<rparr>, tick = 0\<rparr>) = Inr ()"
  by (rule Allow_fails_open[where x = "RedisFail ''down''" and s = "\<lparr>cells = Map.empty, down = True\<rparr>"]) (simp add: mem_client_def)

end
