(* ===== verification/Middleware.thy ===== *)
theory Middleware
  imports Jwt Http Rate_Limit
begin

text \<open>
  internal/middleware: the access token check, the rate limits by address, user and
  organization, and the origins CORS allows. A middleware is a function on endpoints.
\<close>

section \<open>Authentication\<close>

definition RequireAuth :: "'r TokenManager \<Rightarrow> ('r, 'a) endpoint \<Rightarrow> ('r, 'a) endpoint" where
  "RequireAuth tokens next_h c =
     (if auth_header c = [] then answer (Failure 401 ''missing authorization header'')
      else
        case CutPrefix (auth_header c) ''Bearer '' of (tokenString, ok) \<Rightarrow>
          if \<not> ok \<or> tokenString = [] then answer (Failure 401 ''invalid authorization header'')
          else
            guard (\<lambda>_. Failure 401 ''unauthorized'') (VerifyAccessToken tokens tokenString) (\<lambda>claims.
              next_h (c\<lparr>ctx_user := Some (UserID claims), ctx_role := Some (Role claims)\<rparr>)))"

section \<open>Rate limits\<close>

fun mapRateLimitError :: "err \<Rightarrow> 'a reply" where
  "mapRateLimitError RateLimited = Failure 429 ''rate limit exceeded''"
| "mapRateLimitError _ = internal_error"

definition RateLimitByIP ::
    "env \<Rightarrow> 'r Limiter \<Rightarrow> string \<Rightarrow> int \<Rightarrow> ('r, 'a) endpoint \<Rightarrow> ('r, 'a) endpoint" where
  "RateLimitByIP e limiter pfx limit next_h c =
     guard mapRateLimitError
       (call (IPMinuteKey e pfx (real_ip c)) (\<lambda>k. Allow e limiter k limit Minute)) (\<lambda>_. next_h c)"

definition RateLimitByUser ::
    "env \<Rightarrow> 'r Limiter \<Rightarrow> string \<Rightarrow> int \<Rightarrow> ('r, 'a) endpoint \<Rightarrow> ('r, 'a) endpoint" where
  "RateLimitByUser e limiter pfx limit next_h c =
     (case ctx_user c of
        None \<Rightarrow> next_h c
      | Some userID \<Rightarrow>
          if userID = [] then next_h c
          else guard mapRateLimitError
            (call (UserMinuteKey e pfx userID) (\<lambda>k. Allow e limiter k limit Minute)) (\<lambda>_. next_h c))"

definition RateLimitByOrgPerDay ::
    "env \<Rightarrow> 'r Limiter \<Rightarrow> string \<Rightarrow> int \<Rightarrow> ('r, 'a) endpoint \<Rightarrow> ('r, 'a) endpoint" where
  "RateLimitByOrgPerDay e limiter pfx limit next_h c =
     (if p_id c = [] then next_h c
      else if \<not> uuid_ok e (p_id c) then answer (Failure 400 ''invalid organization id'')
      else guard mapRateLimitError
        (call (OrgDayKey e pfx (p_id c)) (\<lambda>k. Allow e limiter k limit (24 * Hour))) (\<lambda>_. next_h c))"

section \<open>CORS\<close>

definition defaultCORSOrigins :: "string list" where
  "defaultCORSOrigins =
     [''http://localhost:5173'', ''http://localhost:5174'', ''http://localhost:3000'']"

definition parseCORSOrigins :: "string \<Rightarrow> string list" where
  "parseCORSOrigins raw0 =
     (let raw = TrimSpace raw0 in
      if raw = [] then defaultCORSOrigins
      else
        let origins = filter (\<lambda>p. p \<noteq> []) (map TrimSpace (Split raw (CHR '','')))
        in if origins = [] then defaultCORSOrigins else origins)"

record CORSConfig =
  AllowOrigins :: "string list"
  AllowMethods :: "string list"
  AllowHeaders :: "string list"
  MaxAge :: int

definition CORS :: "(string \<Rightarrow> string) \<Rightarrow> CORSConfig" where
  "CORS getenv =
     \<lparr>AllowOrigins = parseCORSOrigins (getenv ''CORS_ALLOWED_ORIGINS''),
      AllowMethods = [''GET'', ''HEAD'', ''POST'', ''PUT'', ''PATCH'', ''DELETE'', ''OPTIONS''],
      AllowHeaders = [''Accept'', ''Authorization'', ''Content-Type''],
      MaxAge = 86400\<rparr>"

section \<open>What the middleware guarantees\<close>

lemma keeps_limit_key [keeps_intros]:
  "keeps_db P (IPMinuteKey e pfx ip)" "keeps_db P (UserMinuteKey e pfx u)" "keeps_db P (OrgDayKey e pfx org)"
  by (simp_all add: key_defs keeps_intros)

lemma holds_RateLimit [holds_intros]:
  "holds (\<lambda>w. P (db w)) (next_h c) \<Longrightarrow> holds (\<lambda>w. P (db w)) (RateLimitByIP e l pfx n next_h c)"
  "holds (\<lambda>w. P (db w)) (next_h c) \<Longrightarrow> holds (\<lambda>w. P (db w)) (RateLimitByUser e l pfx n next_h c)"
  "holds (\<lambda>w. P (db w)) (next_h c) \<Longrightarrow> holds (\<lambda>w. P (db w)) (RateLimitByOrgPerDay e l pfx n next_h c)"
  by (auto simp: RateLimitByIP_def RateLimitByUser_def RateLimitByOrgPerDay_def
      intro!: holds_intros keeps_intros split: option.split)

text \<open>A request that passes a limit reaches the endpoint with the context it came with.\<close>

lemma limit_cases:
  assumes "keeps_db (\<lambda>d. d = db w) m"
  obtains (limited) e w' where "guard mapRateLimitError m k w = (mapRateLimitError e, w')" and "db w' = db w"
  | (passed) x w' where "guard mapRateLimitError m k w = k x w'" and "db w' = db w"
  using assms by (cases rule: guard_cases[of m w mapRateLimitError k]) (auto dest: keepsD)

lemma mapRateLimitError_status: "reply_status (mapRateLimitError e) = 429 \<or> reply_status (mapRateLimitError e) = 500"
  by (cases e) (simp_all add: internal_error_def)

lemma mapRateLimitError_fails: "\<not> is_success (mapRateLimitError e)"
  by (cases e) (simp_all add: internal_error_def)

lemma RequireAuth_cases:
  assumes "token_manager T"
  obtains (denied) m w' where "RequireAuth T next_h c w = (Failure 401 m, w')"
    and "db w' = db w" and "redis w' = redis w"
  | (passed) tok claims w' where "auth_header c = ''Bearer '' @ tok"
    and "VerifyAccessToken T tok w = (Inr claims, w')"
    and "db w' = db w" and "redis w' = redis w"
    and "RequireAuth T next_h c w =
      next_h (c\<lparr>ctx_user := Some (UserID claims), ctx_role := Some (Role claims)\<rparr>) w'"
proof -
  obtain tok ok where cut: "CutPrefix (auth_header c) ''Bearer '' = (tok, ok)" by fastforce
  obtain r w' where v: "VerifyAccessToken T tok w = (r, w')" by fastforce
  note q = quietD[OF token_manager.quiet_verify[OF assms] v]
  show thesis
  proof (cases "auth_header c = [] \<or> \<not> ok \<or> tok = []")
    case True
    then have "\<exists>m. RequireAuth T next_h c w = (Failure 401 m, w)"
      using cut by (auto simp: RequireAuth_def answer_def)
    then show thesis using denied by blast
  next
    case False
    then show thesis
      using q v cut denied[of _ w'] passed[of tok _ w'] CutPrefix_True[of "auth_header c" "''Bearer ''" tok]
      by (cases r) (auto simp: RequireAuth_def guard_def)
  qed
qed

lemma trimmed_default: "o' \<in> set defaultCORSOrigins \<Longrightarrow> o' \<noteq> [] \<and> trimmed o'"
  by (auto simp: defaultCORSOrigins_def trimmed_def space_runes_def suffix_to_prefix)

lemma prefix_before: "prefix p (x @ c # r) \<Longrightarrow> c \<notin> set p \<Longrightarrow> prefix p x"
proof (induction x arbitrary: p)
  case Nil
  then show ?case by (cases p) auto
next
  case (Cons a x)
  then show ?case by (cases p) auto
qed

lemma suffix_after: "suffix p (x @ c # r) \<Longrightarrow> c \<notin> set p \<Longrightarrow> suffix p r"
  using prefix_before[of "rev p" "rev r" c "rev x"] by (simp add: suffix_to_prefix)

lemma Join_prefix: "c \<notin> set p \<Longrightarrow> x \<noteq> [] \<Longrightarrow> prefix p (Join (x # xs) c) \<Longrightarrow> prefix p x"
  by (cases xs) (auto dest: prefix_before)

lemma Join_suffix:
  "c \<notin> set p \<Longrightarrow> ps \<noteq> [] \<Longrightarrow> suffix p (Join ps c) \<Longrightarrow> suffix p (last ps)"
  by (induction ps c rule: Join.induct) (auto dest: suffix_after)

lemma Join_trimmed:
  assumes "ps \<noteq> []" and "\<forall>p\<in>set ps. p \<noteq> [] \<and> trimmed p"
  shows "Join ps (CHR '','') \<noteq> []" and "trimmed (Join ps (CHR '',''))"
proof -
  obtain x xs where ps: "ps = x # xs" using assms(1) by (cases ps) auto
  then show "Join ps (CHR '','') \<noteq> []" using assms(2) by (cases xs) auto
  have "CHR '','' \<notin> set p" if "p \<in> set space_runes" for p
    using that by (auto simp: space_runes_def)
  then have "\<not> prefix p (Join ps (CHR '','')) \<and> \<not> suffix p (Join ps (CHR '',''))"
    if "p \<in> set space_runes" for p
    using that Join_prefix[of "CHR '',''" p x xs] Join_suffix[of "CHR '',''" p ps] assms ps
    unfolding trimmed_iff by (metis last_in_set list.set_intros(1))
  then show "trimmed (Join ps (CHR '',''))" by (simp add: trimmed_iff)
qed

section \<open>Properties\<close>



text \<open>
  Whatever the request, RequireAuth either answers 401 and leaves the database and Redis
  alone, or the header is "Bearer " and a token the manager verified, and the endpoint runs as
  the user in the claims.
\<close>

theorem RequireAuth_sound:
  assumes "token_manager T"
  shows "(\<exists>m w'. RequireAuth T next_h c w = (Failure 401 m, w') \<and> db w' = db w \<and> redis w' = redis w) \<or>
    (\<exists>tok claims w'. auth_header c = ''Bearer '' @ tok \<and>
       VerifyAccessToken T tok w = (Inr claims, w') \<and> db w' = db w \<and> redis w' = redis w \<and>
       RequireAuth T next_h c w =
         next_h (c\<lparr>ctx_user := Some (UserID claims), ctx_role := Some (Role claims)\<rparr>) w')"
  by (cases rule: RequireAuth_cases[OF assms, of next_h c w]) blast+

theorem RequireAuth_sound_witness:
  "\<exists>m w'. RequireAuth (jwt_manager sample_env sample_jwt \<lparr>secret = ''other'', expiryHours = 1\<rparr>)
     (\<lambda>c. answer (Success 200 (ctx_user c)))
     \<lparr>auth_header = ''Bearer token'', ctx_user = None, ctx_role = None, ctx_org_role = None, p_id = [],
      p_serviceId = [], p_keyId = [], p_logId = [], real_ip = []\<rparr> (sample_world ()) = (Failure 401 m, w')"
  using RequireAuth_sound[OF jwt.token_manager_axioms, where next_h = "\<lambda>c. answer (Success 200 (ctx_user c))",
      of sample_env sample_jwt "\<lparr>secret = ''other'', expiryHours = 1\<rparr>"
      "\<lparr>auth_header = ''Bearer token'', ctx_user = None, ctx_role = None, ctx_org_role = None, p_id = [],
      p_serviceId = [], p_keyId = [], p_logId = [], real_ip = []\<rparr>" "sample_world ()"]
  by (auto simp: jwt_manager_def jwt_VerifyAccessToken_def sample_jwt_def call_def Now_def ret_def fail_def)

text \<open>
  CORS always has an origin to allow, every origin is trimmed and not empty, and a list of
  such origins without commas, joined by commas, is read back as it was.
\<close>

theorem parseCORSOrigins_correct:
  "parseCORSOrigins raw \<noteq> [] \<and> (\<forall>x \<in> set (parseCORSOrigins raw). x \<noteq> [] \<and> trimmed x) \<and>
   (os \<noteq> [] \<and> (\<forall>x \<in> set os. x \<noteq> [] \<and> trimmed x \<and> CHR '','' \<notin> set x) \<longrightarrow>
    parseCORSOrigins (Join os (CHR '','')) = os)"
proof (intro conjI impI)
  show "parseCORSOrigins raw \<noteq> []"
    by (simp add: parseCORSOrigins_def Let_def) (simp add: defaultCORSOrigins_def)
  show "\<forall>x \<in> set (parseCORSOrigins raw). x \<noteq> [] \<and> trimmed x"
    by (auto simp: parseCORSOrigins_def Let_def dest: trimmed_default split: if_splits)
  assume os: "os \<noteq> [] \<and> (\<forall>x \<in> set os. x \<noteq> [] \<and> trimmed x \<and> CHR '','' \<notin> set x)"
  then have "Join os (CHR '','') \<noteq> []" using Join_trimmed[of os] by blast
  moreover have "map TrimSpace os = os" using os by (intro map_idI) simp
  moreover have "filter (\<lambda>p. p \<noteq> []) os = os" using os by simp
  ultimately show "parseCORSOrigins (Join os (CHR '','')) = os"
    using os Join_trimmed(2)[of os] by (simp add: parseCORSOrigins_def Split_Join)
qed

theorem parseCORSOrigins_correct_witness:
  "parseCORSOrigins ''http://a,http://b'' = [''http://a'', ''http://b'']"
proof -
  have "trimmed ''http://a'' \<and> trimmed ''http://b''"
    by (auto simp: trimmed_def space_runes_def suffix_to_prefix)
  then show ?thesis
    using parseCORSOrigins_correct[of "[]" "[''http://a'', ''http://b'']"] by simp
qed

end
