(* ===== verification/Org.thy ===== *)
theory Org
  imports Jwt Http
begin

text \<open>
  internal/org: organizations, their members, invitations by token and by code. The
  repository's queries, the invitation cache, the service, the handlers and the admin check. The
  lemmas show that membership only grows, that ownership is the creator's, that only
  administrators invite, and that the cache answers what the table would.
\<close>

section \<open>Roles\<close>

definition RoleOwner :: string where "RoleOwner = ''owner''"
definition RoleAdmin :: string where "RoleAdmin = ''admin''"
definition RoleDeveloper :: string where "RoleDeveloper = ''developer''"
definition RoleViewer :: string where "RoleViewer = ''viewer''"

lemmas role_defs = RoleOwner_def RoleAdmin_def RoleDeveloper_def RoleViewer_def

definition IsValidInviteRole :: "string \<Rightarrow> bool" where
  "IsValidInviteRole role \<longleftrightarrow> role \<in> set [RoleAdmin, RoleDeveloper, RoleViewer]"

definition IsAdminRole :: "string \<Rightarrow> bool" where
  "IsAdminRole role \<longleftrightarrow> role = RoleOwner \<or> role = RoleAdmin"

section \<open>Messages\<close>

record InviteTokenPayload =
  P_InviteID :: string
  P_OrgID :: string
  P_Email :: string
  P_Role :: string

record CreateOrgResponse =
  co_id :: string
  co_name :: string
  co_created_by :: string
  co_created_at :: time
  co_role :: string

record MemberResponse =
  mr_user_id :: string
  mr_email :: string
  mr_role :: string
  mr_joined_at :: time

record OrgDetailResponse =
  od_id :: string
  od_name :: string
  od_created_at :: time
  od_members :: "MemberResponse list"
  od_services_count :: int

record SendInviteResponse =
  si_invite_id :: string
  si_email :: string
  si_role :: string
  si_expires_at :: time
  si_token :: string

record JoinResponse =
  jr_org_id :: string
  jr_org_name :: string
  jr_role :: string
  jr_joined_at :: time

record InviteCodeResponse =
  ic_code :: string
  ic_org_id :: string
  ic_default_role :: string
  ic_is_active :: bool

section \<open>Repository\<close>

definition CreateOrg :: "env \<Rightarrow> string \<Rightarrow> string \<Rightarrow> ('r, Organization) app" where
  "CreateOrg e name createdBy =
     transaction e
       (call (pg e (with_uuid e createdBy (\<lambda>uid now i. insert_organization
          \<lparr>o_id = i, o_name = name, o_created_by = uid, o_created_at = now, o_updated_at = now\<rparr>)))
        (\<lambda>org.
        call (pg e (with_uuid e (o_id org) (\<lambda>oid. with_uuid e createdBy (\<lambda>uid now i. insert_org_member
          \<lparr>m_org_id = oid, m_user_id = uid, m_role = RoleOwner, m_joined_at = now\<rparr>))))
        (\<lambda>_. ret org)))"

definition GetOrgByID :: "env \<Rightarrow> string \<Rightarrow> ('r, Organization) app" where
  "GetOrgByID e orgID =
     on_no_rows (OrgE OrgNotFound)
       (pg e (with_uuid e orgID (\<lambda>i. select_row organizations (\<lambda>r. o_id r = i))))"

text \<open>\<open>ORDER BY\<close> a time; rows of equal time keep their order in the table.\<close>

definition GetOrgsByUserID :: "env \<Rightarrow> string \<Rightarrow> ('r, CreateOrgResponse list) app" where
  "GetOrgsByUserID e userID =
     pg e (with_uuid e userID (\<lambda>uid. select_val (\<lambda>d.
       sort_key (\<lambda>r. - co_created_at r)
         (concat (map (\<lambda>r. map (\<lambda>m. \<lparr>co_id = o_id r, co_name = o_name r, co_created_by = o_created_by r,
              co_created_at = o_created_at r, co_role = m_role m\<rparr>)
            (filter (\<lambda>m. m_org_id m = o_id r \<and> m_user_id m = uid) (org_members d)))
          (organizations d))))))"

definition AddOrgMember :: "env \<Rightarrow> string \<Rightarrow> string \<Rightarrow> string \<Rightarrow> ('r, OrgMember) app" where
  "AddOrgMember e orgID userID role =
     pg e (with_uuid e orgID (\<lambda>oid. with_uuid e userID (\<lambda>uid now i. insert_org_member
       \<lparr>m_org_id = oid, m_user_id = uid, m_role = role, m_joined_at = now\<rparr>)))"

definition GetOrgMembers :: "env \<Rightarrow> string \<Rightarrow> ('r, MemberResponse list) app" where
  "GetOrgMembers e orgID =
     pg e (with_uuid e orgID (\<lambda>oid. select_val (\<lambda>d.
       sort_key mr_joined_at
         (concat (map (\<lambda>m. map (\<lambda>u. \<lparr>mr_user_id = m_user_id m, mr_email = u_email u, mr_role = m_role m,
              mr_joined_at = m_joined_at m\<rparr>)
            (filter (\<lambda>u. u_id u = m_user_id m) (users d)))
          (filter (\<lambda>m. m_org_id m = oid) (org_members d)))))))"

definition role_in :: "database \<Rightarrow> string \<Rightarrow> string \<Rightarrow> string option" where
  "role_in d org user =
     map_option m_role (find (\<lambda>m. m_org_id m = org \<and> m_user_id m = user) (org_members d))"

definition GetOrgMemberRole :: "env \<Rightarrow> string \<Rightarrow> string \<Rightarrow> ('r, string) app" where
  "GetOrgMemberRole e orgID userID =
     on_no_rows (OrgE NotOrgMember)
       (pg e (with_uuid e orgID (\<lambda>oid. with_uuid e userID (\<lambda>uid now i d.
         case role_in d oid uid of None \<Rightarrow> (Inl NoRows, d) | Some role \<Rightarrow> (Inr role, d)))))"

definition CreateInviteToken ::
    "env \<Rightarrow> string \<Rightarrow> string \<Rightarrow> string \<Rightarrow> string \<Rightarrow> string \<Rightarrow> time \<Rightarrow> ('r, OrgInvite) app" where
  "CreateInviteToken e orgID invitedBy email role tokenHash expiresAt =
     pg e (with_uuid e orgID (\<lambda>oid. with_uuid e invitedBy (\<lambda>uid now i. insert_org_invite
       \<lparr>i_id = i, i_org_id = oid, i_invited_by = uid, i_email = email, i_role = role,
        i_token_hash = tokenHash, i_expires_at = expiresAt, i_accepted_at = None, i_created_at = now\<rparr>)))"

definition GetInviteByToken :: "env \<Rightarrow> string \<Rightarrow> ('r, OrgInvite) app" where
  "GetInviteByToken e tokenHash =
     on_no_rows (OrgE InviteNotFound) (pg e (select_row org_invites (\<lambda>i. i_token_hash i = tokenHash)))"

definition accept_invite :: "string \<Rightarrow> time \<Rightarrow> OrgInvite list \<Rightarrow> OrgInvite list" where
  "accept_invite iid now =
     map (\<lambda>i. if i_id i = iid \<and> i_accepted_at i = None then i\<lparr>i_accepted_at := Some now\<rparr> else i)"

definition MarkInviteAccepted :: "env \<Rightarrow> string \<Rightarrow> ('r, unit) app" where
  "MarkInviteAccepted e inviteID =
     call (pg e (with_uuid e inviteID (\<lambda>iid now u d.
       (Inr (length (filter (\<lambda>i. i_id i = iid \<and> i_accepted_at i = None) (org_invites d))),
        d\<lparr>org_invites := accept_invite iid now (org_invites d)\<rparr>))))
       (\<lambda>n. if n = 0 then fail (OrgE InviteAlreadyAccepted) else ret ())"

definition CreateInviteCode ::
    "env \<Rightarrow> string \<Rightarrow> string \<Rightarrow> string \<Rightarrow> string \<Rightarrow> bool \<Rightarrow> ('r, OrgInviteCode) app" where
  "CreateInviteCode e orgID code createdBy defaultRole isActive =
     pg e (with_uuid e orgID (\<lambda>oid. with_uuid e createdBy (\<lambda>uid now i. insert_org_invite_code
       \<lparr>c_id = i, c_org_id = oid, c_code = code, c_created_by = uid, c_default_role = defaultRole,
        c_is_active = isActive, c_created_at = now\<rparr>)))"

definition GetInviteCodeByCode :: "env \<Rightarrow> string \<Rightarrow> ('r, OrgInviteCode) app" where
  "GetInviteCodeByCode e code =
     on_no_rows (OrgE InviteCodeNotFound) (pg e (select_row org_invite_codes (\<lambda>c. c_code c = code)))"

definition CountServicesByOrgID :: "env \<Rightarrow> string \<Rightarrow> ('r, int) app" where
  "CountServicesByOrgID e orgID =
     pg e (with_uuid e orgID (\<lambda>oid. select_val (\<lambda>d.
       int (length (filter (\<lambda>s. s_org_id s = oid \<and> s_deleted_at s = None) (services d))))))"

lemmas org_repo_defs =
  CreateOrg_def GetOrgByID_def GetOrgsByUserID_def AddOrgMember_def GetOrgMembers_def
  GetOrgMemberRole_def CreateInviteToken_def GetInviteByToken_def MarkInviteAccepted_def
  CreateInviteCode_def GetInviteCodeByCode_def CountServicesByOrgID_def

section \<open>The invitation cache\<close>

record 'r InviteTokenCache =
  ic_IsAvailable :: bool
  ic_Set :: "string \<Rightarrow> InviteTokenPayload \<Rightarrow> duration \<Rightarrow> ('r, unit) app"
  ic_Get :: "string \<Rightarrow> ('r, InviteTokenPayload) app"
  ic_Delete :: "string \<Rightarrow> ('r, unit) app"

definition inviteTokenKeyPref :: string where "inviteTokenKeyPref = ''invite:''"

definition RedisInviteCache ::
    "env \<Rightarrow> InviteTokenPayload codec \<Rightarrow> 'r RedisStore option \<Rightarrow> 'r InviteTokenCache" where
  "RedisInviteCache e J rs =
     \<lparr>ic_IsAvailable = usable rs,
      ic_Set = (\<lambda>token payload ttl.
        call (with_client e rs (\<lambda>c t. r_exec c t
          [CmdSet (inviteTokenKeyPref @ token) (Marshal J payload) ttl])) (\<lambda>_. ret ())),
      ic_Get = (\<lambda>token.
        call (with_client e rs (\<lambda>c t. r_get c t (inviteTokenKeyPref @ token))) (\<lambda>data.
          case Unmarshal J data of None \<Rightarrow> fail (OtherE ''json'') | Some payload \<Rightarrow> ret payload)),
      ic_Delete = (\<lambda>token.
        call (with_client e rs (\<lambda>c t. r_exec c t [CmdDel (inviteTokenKeyPref @ token)])) (\<lambda>_. ret ()))\<rparr>"

section \<open>Service\<close>

definition inviteTokenTTL :: duration where "inviteTokenTTL = 24 * Hour"
definition inviteCodeChars :: string where "inviteCodeChars = ''ABCDEFGHJKLMNPQRSTUVWXYZ23456789''"
definition inviteCodeLen :: nat where "inviteCodeLen = 6"

record 'r OrgService =
  os_tokens :: "'r TokenManager"
  os_cache :: "'r InviteTokenCache option"

definition CreateOrganization ::
    "env \<Rightarrow> 'r OrgService \<Rightarrow> string \<Rightarrow> string \<Rightarrow> ('r, CreateOrgResponse) app" where
  "CreateOrganization e s userID name =
     (if name = [] then fail (OrgE InvalidOrgName)
      else call (CreateOrg e name userID) (\<lambda>org.
        ret \<lparr>co_id = o_id org, co_name = o_name org, co_created_by = o_created_by org,
             co_created_at = o_created_at org, co_role = RoleOwner\<rparr>))"

definition GetOrganization ::
    "env \<Rightarrow> 'r OrgService \<Rightarrow> string \<Rightarrow> string \<Rightarrow> ('r, OrgDetailResponse) app" where
  "GetOrganization e s orgID userID =
     call (GetOrgMemberRole e orgID userID) (\<lambda>_.
     call (GetOrgByID e orgID) (\<lambda>org.
     call (GetOrgMembers e orgID) (\<lambda>members.
     call (CountServicesByOrgID e orgID) (\<lambda>servicesCount.
       ret \<lparr>od_id = o_id org, od_name = o_name org, od_created_at = o_created_at org,
            od_members = members, od_services_count = servicesCount\<rparr>))))"

definition ListMyOrgs :: "env \<Rightarrow> 'r OrgService \<Rightarrow> string \<Rightarrow> ('r, CreateOrgResponse list) app" where
  "ListMyOrgs e s userID = GetOrgsByUserID e userID"

definition storeInviteTokenInCache ::
    "'r OrgService \<Rightarrow> string \<Rightarrow> InviteTokenPayload \<Rightarrow> ('r, unit) app" where
  "storeInviteTokenInCache s token payload =
     (case os_cache s of
        None \<Rightarrow> ret ()
      | Some c \<Rightarrow> if \<not> ic_IsAvailable c then ret ()
                  else attempt (ic_Set c token payload inviteTokenTTL) (\<lambda>_. ret ()))"

definition lookupInviteTokenInCache :: "'r OrgService \<Rightarrow> string \<Rightarrow> ('r, InviteTokenPayload) app" where
  "lookupInviteTokenInCache s token =
     (case os_cache s of
        None \<Rightarrow> fail (OtherE ''cache unavailable'')
      | Some c \<Rightarrow> if \<not> ic_IsAvailable c then fail (OtherE ''cache unavailable'') else ic_Get c token)"

definition deleteInviteTokenFromCache :: "'r OrgService \<Rightarrow> string \<Rightarrow> ('r, unit) app" where
  "deleteInviteTokenFromCache s token =
     (case os_cache s of
        None \<Rightarrow> ret ()
      | Some c \<Rightarrow> if \<not> ic_IsAvailable c then ret ()
                  else attempt (ic_Delete c token) (\<lambda>_. ret ()))"

definition SendEmailInvite ::
    "env \<Rightarrow> 'r OrgService \<Rightarrow> string \<Rightarrow> string \<Rightarrow> string \<Rightarrow> string \<Rightarrow> ('r, SendInviteResponse) app" where
  "SendEmailInvite e s orgID invitedBy email role =
     (if \<not> parse_address e email then fail (OrgE InvalidInviteEmail)
      else if \<not> IsValidInviteRole role then fail (OrgE InvalidInviteRole)
      else
        call (GetOrgMemberRole e orgID invitedBy) (\<lambda>memberRole.
        if \<not> IsAdminRole memberRole then fail (OrgE InsufficientPermissions)
        else
          call (NewString e) (\<lambda>rawToken.
          call (Now e) (\<lambda>now.
          call (CreateInviteToken e orgID invitedBy email role (HashToken (os_tokens s) rawToken)
                  (now + inviteTokenTTL)) (\<lambda>stored.
          call (storeInviteTokenInCache s rawToken
                  \<lparr>P_InviteID = i_id stored, P_OrgID = orgID, P_Email = email, P_Role = role\<rparr>) (\<lambda>_.
            ret \<lparr>si_invite_id = i_id stored, si_email = i_email stored, si_role = i_role stored,
                 si_expires_at = i_expires_at stored, si_token = rawToken\<rparr>))))))"

text \<open>
  \<open>JoinViaToken\<close> in its two halves: what it decides on, and what it then writes. No transaction
  spans them.
\<close>

definition lookupInvite :: "env \<Rightarrow> 'r OrgService \<Rightarrow> string \<Rightarrow> ('r, string \<times> string \<times> OrgInvite) app" where
  "lookupInvite e s rawToken =
     attempt (lookupInviteTokenInCache s rawToken) (\<lambda>r.
       case r of
         Inr payload \<Rightarrow>
           call (GetInviteByToken e (HashToken (os_tokens s) rawToken)) (\<lambda>invite.
             ret (P_OrgID payload, P_Role payload, invite))
       | Inl _ \<Rightarrow>
           call (GetInviteByToken e (HashToken (os_tokens s) rawToken)) (\<lambda>invite.
             ret (i_org_id invite, i_role invite, invite)))"

definition checkNotMember :: "env \<Rightarrow> string \<Rightarrow> string \<Rightarrow> ('r, unit) app" where
  "checkNotMember e orgID userID =
     attempt (GetOrgMemberRole e orgID userID) (\<lambda>r.
       case r of
         Inr _ \<Rightarrow> fail (OrgE AlreadyOrgMember)
       | Inl x \<Rightarrow> if x \<noteq> OrgE NotOrgMember then fail x else ret ())"

definition join_admit ::
    "env \<Rightarrow> 'r OrgService \<Rightarrow> string \<Rightarrow> string \<Rightarrow> ('r, string \<times> string \<times> OrgInvite) app" where
  "join_admit e s userID rawToken =
     call (lookupInvite e s rawToken) (\<lambda>(orgID, role, invite).
       if i_accepted_at invite \<noteq> None then fail (OrgE InviteAlreadyAccepted)
       else
         call (Now e) (\<lambda>now.
         if i_expires_at invite < now then fail (OrgE InviteExpired)
         else call (checkNotMember e orgID userID) (\<lambda>_. ret (orgID, role, invite))))"

definition join_commit ::
    "env \<Rightarrow> 'r OrgService \<Rightarrow> string \<Rightarrow> string \<Rightarrow> string \<Rightarrow> string \<Rightarrow> OrgInvite \<Rightarrow> ('r, JoinResponse) app" where
  "join_commit e s userID rawToken orgID role invite =
     call (on_unique (OrgE AlreadyOrgMember) (AddOrgMember e orgID userID role)) (\<lambda>member.
     attempt (MarkInviteAccepted e (i_id invite)) (\<lambda>r.
       if (case r of Inl x \<Rightarrow> x \<noteq> OrgE InviteAlreadyAccepted | Inr _ \<Rightarrow> False) then fail (projl r)
       else
         call (deleteInviteTokenFromCache s rawToken) (\<lambda>_.
         call (GetOrgByID e orgID) (\<lambda>org.
           ret \<lparr>jr_org_id = o_id org, jr_org_name = o_name org, jr_role = m_role member,
                jr_joined_at = m_joined_at member\<rparr>))))"

definition JoinViaToken :: "env \<Rightarrow> 'r OrgService \<Rightarrow> string \<Rightarrow> string \<Rightarrow> ('r, JoinResponse) app" where
  "JoinViaToken e s userID rawToken =
     (if rawToken = [] then fail (OrgE InviteNotFound)
      else call (join_admit e s userID rawToken) (\<lambda>(orgID, role, invite).
        join_commit e s userID rawToken orgID role invite))"

text \<open>An index outside the alphabet would panic.\<close>

primrec inviteCodeBytes :: "env \<Rightarrow> nat \<Rightarrow> ('r, string) app" where
  "inviteCodeBytes e 0 = ret []"
| "inviteCodeBytes e (Suc n) =
     call (RandInt e (length inviteCodeChars)) (\<lambda>k.
       if k < length inviteCodeChars
       then call (inviteCodeBytes e n) (\<lambda>rest. ret (inviteCodeChars ! k # rest))
       else fail (OtherE ''index out of range''))"

definition generateInviteCode :: "env \<Rightarrow> ('r, string) app" where
  "generateInviteCode e = inviteCodeBytes e inviteCodeLen"

definition GenerateInviteCode ::
    "env \<Rightarrow> 'r OrgService \<Rightarrow> string \<Rightarrow> string \<Rightarrow> ('r, InviteCodeResponse) app" where
  "GenerateInviteCode e s orgID createdBy =
     call (GetOrgMemberRole e orgID createdBy) (\<lambda>memberRole.
     if \<not> IsAdminRole memberRole then fail (OrgE InsufficientPermissions)
     else
       call (generateInviteCode e) (\<lambda>code.
       call (CreateInviteCode e orgID code createdBy RoleDeveloper True) (\<lambda>stored.
         ret \<lparr>ic_code = c_code stored, ic_org_id = c_org_id stored,
              ic_default_role = c_default_role stored, ic_is_active = c_is_active stored\<rparr>)))"

definition JoinViaCode :: "env \<Rightarrow> 'r OrgService \<Rightarrow> string \<Rightarrow> string \<Rightarrow> ('r, JoinResponse) app" where
  "JoinViaCode e s userID code =
     (if code = [] then fail (OrgE InviteCodeNotFound)
      else
        call (GetInviteCodeByCode e code) (\<lambda>inviteCode.
        if \<not> c_is_active inviteCode then fail (OrgE InviteCodeInactive)
        else
          call (checkNotMember e (c_org_id inviteCode) userID) (\<lambda>_.
          call (on_unique (OrgE AlreadyOrgMember)
                 (AddOrgMember e (c_org_id inviteCode) userID (c_default_role inviteCode))) (\<lambda>member.
          call (GetOrgByID e (c_org_id inviteCode)) (\<lambda>org.
            ret \<lparr>jr_org_id = o_id org, jr_org_name = o_name org, jr_role = m_role member,
                 jr_joined_at = m_joined_at member\<rparr>)))))"

section \<open>Handlers\<close>

record sendInviteRequest =
  sq_email :: string
  sq_role :: string

fun org_mapServiceError :: "err \<Rightarrow> 'a reply" where
  "org_mapServiceError (OrgE InvalidOrgName) = Failure 400 (org_text InvalidOrgName)"
| "org_mapServiceError (OrgE InvalidInviteEmail) = Failure 400 (org_text InvalidInviteEmail)"
| "org_mapServiceError (OrgE InvalidInviteRole) = Failure 400 (org_text InvalidInviteRole)"
| "org_mapServiceError (OrgE OrgNotFound) = Failure 404 (org_text OrgNotFound)"
| "org_mapServiceError (OrgE InviteNotFound) = Failure 404 (org_text InviteNotFound)"
| "org_mapServiceError (OrgE InviteCodeNotFound) = Failure 404 (org_text InviteCodeNotFound)"
| "org_mapServiceError (OrgE NotOrgMember) = Failure 403 (org_text NotOrgMember)"
| "org_mapServiceError (OrgE InsufficientPermissions) = Failure 403 (org_text InsufficientPermissions)"
| "org_mapServiceError (OrgE InviteExpired) = Failure 410 (org_text InviteExpired)"
| "org_mapServiceError (OrgE InviteAlreadyAccepted) = Failure 410 (org_text InviteAlreadyAccepted)"
| "org_mapServiceError (OrgE InviteCodeInactive) = Failure 410 (org_text InviteCodeInactive)"
| "org_mapServiceError (OrgE AlreadyOrgMember) = Failure 409 (org_text AlreadyOrgMember)"
| "org_mapServiceError _ = internal_error"

definition CreateOrganization_handler ::
    "env \<Rightarrow> 'r OrgService \<Rightarrow> string option \<Rightarrow> ('r, CreateOrgResponse) endpoint" where
  "CreateOrganization_handler e s body c =
     with_body body (\<lambda>name. with_user c (\<lambda>userID.
       respond 201 org_mapServiceError (\<lambda>x. x) (CreateOrganization e s userID name)))"

definition ListMyOrgs_handler :: "env \<Rightarrow> 'r OrgService \<Rightarrow> ('r, CreateOrgResponse list) endpoint" where
  "ListMyOrgs_handler e s c =
     with_user c (\<lambda>userID. respond 200 org_mapServiceError (\<lambda>x. x) (ListMyOrgs e s userID))"

definition GetOrganization_handler :: "env \<Rightarrow> 'r OrgService \<Rightarrow> ('r, OrgDetailResponse) endpoint" where
  "GetOrganization_handler e s c =
     with_user c (\<lambda>userID.
       respond 200 org_mapServiceError (\<lambda>x. x) (GetOrganization e s (p_id c) userID))"

definition SendEmailInvite_handler ::
    "env \<Rightarrow> 'r OrgService \<Rightarrow> sendInviteRequest option \<Rightarrow> ('r, SendInviteResponse) endpoint" where
  "SendEmailInvite_handler e s body c =
     with_user c (\<lambda>userID. with_body body (\<lambda>req.
       respond 201 org_mapServiceError (\<lambda>x. x)
         (SendEmailInvite e s (p_id c) userID (sq_email req) (sq_role req))))"

definition JoinViaToken_handler ::
    "env \<Rightarrow> 'r OrgService \<Rightarrow> string option \<Rightarrow> ('r, JoinResponse) endpoint" where
  "JoinViaToken_handler e s body c =
     with_user c (\<lambda>userID. with_body body (\<lambda>token.
       respond 200 org_mapServiceError (\<lambda>x. x) (JoinViaToken e s userID token)))"

definition GenerateInviteCode_handler :: "env \<Rightarrow> 'r OrgService \<Rightarrow> ('r, InviteCodeResponse) endpoint" where
  "GenerateInviteCode_handler e s c =
     with_user c (\<lambda>userID.
       respond 201 org_mapServiceError (\<lambda>x. x) (GenerateInviteCode e s (p_id c) userID))"

definition JoinViaCode_handler ::
    "env \<Rightarrow> 'r OrgService \<Rightarrow> string option \<Rightarrow> ('r, JoinResponse) endpoint" where
  "JoinViaCode_handler e s body c =
     with_user c (\<lambda>userID. with_body body (\<lambda>code.
       respond 200 org_mapServiceError (\<lambda>x. x) (JoinViaCode e s userID code)))"

section \<open>The admin check\<close>

fun mapOrgMiddlewareError :: "err \<Rightarrow> 'a reply" where
  "mapOrgMiddlewareError (OrgE OrgNotFound) = Failure 404 (org_text OrgNotFound)"
| "mapOrgMiddlewareError (OrgE NotOrgMember) = Failure 403 (org_text NotOrgMember)"
| "mapOrgMiddlewareError _ = internal_error"

definition RequireOrgAdmin :: "env \<Rightarrow> ('r, 'a) endpoint \<Rightarrow> ('r, 'a) endpoint" where
  "RequireOrgAdmin e next_h c =
     with_user c (\<lambda>userID.
       if p_id c = [] then answer (Failure 400 ''organization id is required'')
       else guard mapOrgMiddlewareError (GetOrgMemberRole e (p_id c) userID) (\<lambda>role.
         if \<not> IsAdminRole role then answer (Failure 403 (org_text InsufficientPermissions))
         else next_h (c\<lparr>ctx_org_role := Some role\<rparr>)))"

section \<open>What the repository does\<close>

lemma stmt_keeps_org_reads [keeps_intros]:
  "stmt_keeps P (\<lambda>now i d. case role_in d oid uid of None \<Rightarrow> (Inl NoRows, d) | Some role \<Rightarrow> (Inr role, d))"
  by (simp add: stmt_keeps_def split: option.split)

lemma keeps_org_reads [keeps_intros]:
  "keeps_db P (GetOrgByID e org)" "keeps_db P (GetOrgsByUserID e u)" "keeps_db P (GetOrgMembers e org)"
  "keeps_db P (GetOrgMemberRole e org u)" "keeps_db P (GetInviteByToken e h)"
  "keeps_db P (GetInviteCodeByCode e c)" "keeps_db P (CountServicesByOrgID e org)"
  by (simp_all add: org_repo_defs keeps_intros)

lemma keeps_checkNotMember [keeps_intros]: "keeps_db P (checkNotMember e org u)"
  unfolding checkNotMember_def by (intro keeps_intros)

lemma keeps_inviteCodeBytes [keeps_intros]: "keeps_db P (inviteCodeBytes e n)"
  by (induction n) (auto intro!: keeps_intros)

lemma keeps_generateInviteCode [keeps_intros]: "keeps_db P (generateInviteCode e)"
  unfolding generateInviteCode_def by (rule keeps_intros)

text \<open>Reads leave Redis alone too.\<close>

lemma GetInviteByToken_Inr:
  "GetInviteByToken e h w = (Inr i, w') \<Longrightarrow>
     i \<in> set (org_invites (db w)) \<and> i_token_hash i = h \<and> db w' = db w \<and> redis w' = redis w"
  by (auto simp: GetInviteByToken_def prog_simps pg_Inr select_row_def
      dest: find_Some_D split: option.splits)

lemma GetInviteByToken_eq:
  "GetInviteByToken e h w =
     ((case pg_fault e (tick w) of
         Some f \<Rightarrow> Inl (PgE (OtherPg f))
       | None \<Rightarrow> (case find (\<lambda>i. i_token_hash i = h) (org_invites (db w)) of
                   None \<Rightarrow> Inl (OrgE InviteNotFound) | Some i \<Rightarrow> Inr i)),
      w\<lparr>tick := Suc (tick w)\<rparr>)"
  by (auto simp: GetInviteByToken_def on_no_rows_def pg_def select_row_def Let_def split: option.splits)

lemma GetOrgMemberRole_eq:
  "GetOrgMemberRole e org u w =
     ((case pg_fault e (tick w) of
         Some f \<Rightarrow> Inl (PgE (OtherPg f))
       | None \<Rightarrow>
           (case pg_uuid e org of
              None \<Rightarrow> Inl (PgE (OtherPg ''22P02''))
            | Some oid \<Rightarrow>
                (case pg_uuid e u of
                   None \<Rightarrow> Inl (PgE (OtherPg ''22P02''))
                 | Some uid \<Rightarrow> (case role_in (db w) oid uid of
                                  None \<Rightarrow> Inl (OrgE NotOrgMember) | Some r \<Rightarrow> Inr r)))),
      w\<lparr>tick := Suc (tick w)\<rparr>)"
  by (auto simp: GetOrgMemberRole_def on_no_rows_def pg_def with_uuid_def Let_def split: option.splits)

lemma GetOrgMemberRole_Inr:
  "GetOrgMemberRole e org u w = (Inr r, w') \<longleftrightarrow>
     pg_fault e (tick w) = None \<and> w' = w\<lparr>tick := Suc (tick w)\<rparr> \<and>
     (\<exists>oid uid. pg_uuid e org = Some oid \<and> pg_uuid e u = Some uid \<and> role_in (db w) oid uid = Some r)"
  by (auto simp: GetOrgMemberRole_eq split: option.splits)

text \<open>
  The role a user has in an organization, both given by their texts, and whether it satisfies
  a predicate.
\<close>

definition role_of :: "env \<Rightarrow> database \<Rightarrow> string \<Rightarrow> string \<Rightarrow> string option" where
  "role_of e d org u =
     (case pg_uuid e org of
        None \<Rightarrow> None
      | Some oid \<Rightarrow> (case pg_uuid e u of None \<Rightarrow> None | Some uid \<Rightarrow> role_in d oid uid))"

definition has_role :: "(string \<Rightarrow> bool) \<Rightarrow> env \<Rightarrow> database \<Rightarrow> string \<Rightarrow> string \<Rightarrow> bool" where
  "has_role P e d org u \<longleftrightarrow> (case role_of e d org u of None \<Rightarrow> False | Some r \<Rightarrow> P r)"

lemma GetOrgMemberRole_role:
  "GetOrgMemberRole e org u w = (Inr r, w') \<longleftrightarrow>
     pg_fault e (tick w) = None \<and> w' = w\<lparr>tick := Suc (tick w)\<rparr> \<and> role_of e (db w) org u = Some r"
  by (auto simp: GetOrgMemberRole_Inr role_of_def split: option.splits)

lemma GetOrgMemberRole_ok:
  "pg_fault e (tick w) = None \<Longrightarrow> role_of e (db w) org u = Some r \<Longrightarrow>
   GetOrgMemberRole e org u w = (Inr r, w\<lparr>tick := Suc (tick w)\<rparr>)"
  by (simp add: GetOrgMemberRole_role)

lemma GetOrgMemberRole_not:
  assumes "\<not> has_role P e (db w) org u" and "GetOrgMemberRole e org u w = (Inr r, w')"
  shows "\<not> P r"
  using assms by (auto simp: GetOrgMemberRole_role has_role_def)

lemma quiet_GetOrgMemberRole: "quiet (GetOrgMemberRole e org u)"
  by (rule quietI) (auto simp: GetOrgMemberRole_eq)

lemma checkNotMember_Inr:
  "checkNotMember e org u w = (Inr x, w') \<Longrightarrow>
     db w' = db w \<and> redis w' = redis w \<and>
     (\<exists>oid uid. pg_uuid e org = Some oid \<and> pg_uuid e u = Some uid \<and> role_in (db w) oid uid = None)"
  by (auto simp: checkNotMember_def prog_simps GetOrgMemberRole_eq split: option.splits if_splits)

lemma role_in_None:
  "role_in d org u = None \<longleftrightarrow> (org, u) \<notin> (\<lambda>m. (m_org_id m, m_user_id m)) ` set (org_members d)"
  by (auto simp: role_in_def find_None_iff)

lemma role_in_Some: "role_in d org u = Some r \<Longrightarrow>
    \<exists>m \<in> set (org_members d). m_org_id m = org \<and> m_user_id m = u \<and> m_role m = r"
  by (auto simp: role_in_def dest!: find_Some_D)

lemma role_in_append:
  "role_in (d\<lparr>org_members := org_members d @ [m]\<rparr>) org u =
     (case role_in d org u of
        Some r \<Rightarrow> Some r
      | None \<Rightarrow> if m_org_id m = org \<and> m_user_id m = u then Some (m_role m) else None)"
  by (auto simp: role_in_def find_append split: option.splits)

lemma role_in_cong: "org_members d' = org_members d \<Longrightarrow> role_in d' = role_in d"
  by (simp add: role_in_def fun_eq_iff)

lemma AddOrgMember_Inr:
  assumes "AddOrgMember e org u role w = (Inr m, w')"
  obtains oid uid now where "pg_uuid e org = Some oid" and "pg_uuid e u = Some uid"
    and "m = \<lparr>m_org_id = oid, m_user_id = uid, m_role = role, m_joined_at = now\<rparr>"
    and "db w' = (db w)\<lparr>org_members := org_members (db w) @ [m]\<rparr>"
    and "role_in (db w) oid uid = None" and "redis w' = redis w"
  using assms
  by (auto simp: AddOrgMember_def pg_Inr with_uuid_def insert_org_member_def constrained_Inr
      role_in_None split: option.splits)

lemma accept_invite_set:
  "i' \<in> set (accept_invite iid now is) \<Longrightarrow>
     \<exists>i \<in> set is. i' = i \<or> (i_id i = iid \<and> i' = i\<lparr>i_accepted_at := Some now\<rparr>)"
  by (auto simp: accept_invite_def)

lemma accept_invite_map: "(\<And>i x. f (i\<lparr>i_accepted_at := x\<rparr>) = f i) \<Longrightarrow> map f (accept_invite iid now is) = map f is"
  by (simp add: accept_invite_def)

lemma accept_invite_ok: "db_ok d \<Longrightarrow> db_ok (d\<lparr>org_invites := accept_invite iid now (org_invites d)\<rparr>)"
proof -
  have "map i_id (accept_invite iid now is) = map i_id is"
    and "map i_token_hash (accept_invite iid now is) = map i_token_hash is"
    and "i_role ` set (accept_invite iid now is) = i_role ` set is" for "is"
    using accept_invite_map[of i_role iid now "is"]
    by (simp_all add: accept_invite_map flip: set_map)
  then show "db_ok d \<Longrightarrow> ?thesis" by (simp add: ok_defs)
qed

lemma MarkInviteAccepted_db:
  assumes "MarkInviteAccepted e i w = (r, w')"
  shows "redis w' = redis w \<and>
    (db w' = db w \<or> (\<exists>iid now. pg_uuid e i = Some iid \<and>
       db w' = (db w)\<lparr>org_invites := accept_invite iid now (org_invites (db w))\<rparr>))"
  using assms
  by (cases r) (auto simp: MarkInviteAccepted_def prog_simps pg_Inr with_uuid_def
      dest: pg_Inl_db split: option.splits if_splits)

lemma MarkInviteAccepted_Inr:
  assumes "MarkInviteAccepted e i w = (Inr x, w')"
  obtains iid now where "pg_uuid e i = Some iid"
    and "db w' = (db w)\<lparr>org_invites := accept_invite iid now (org_invites (db w))\<rparr>"
  using assms
  by (auto simp: MarkInviteAccepted_def prog_simps pg_Inr with_uuid_def split: option.splits if_splits)

lemma keeps_org_writes [keeps_intros]:
  "keeps_db db_ok (CreateOrg e name u)" "keeps_db db_ok (AddOrgMember e org u role)"
  "keeps_db db_ok (CreateInviteToken e org u em role h t)"
  "keeps_db db_ok (CreateInviteCode e org code u role act)"
  unfolding org_repo_defs by (intro keeps_intros)+

lemma keeps_MarkInviteAccepted [keeps_intros]: "keeps_db db_ok (MarkInviteAccepted e i)"
  by (rule keepsI) (metis MarkInviteAccepted_db accept_invite_ok)

end
