(* ===== verification/Org_Contract.thy ===== *)
theory Org_Contract
  imports Org
begin

text \<open>
  The contract of the invitation cache and the invariants of the organizations: an organization
  is owned by its creator and by nobody else, and what the cache holds for an invitation token is
  what the table holds.
\<close>

section \<open>The contract of the cache\<close>

locale invite_cache =
  fixes e :: env
    and c :: "'r InviteTokenCache"
    and view :: "'r \<Rightarrow> time \<Rightarrow> string \<Rightarrow> InviteTokenPayload option"
  assumes set_db: "frame db (ic_Set c tok p ttl)"
    and get_db: "frame db (ic_Get c tok)"
    and delete_db: "frame db (ic_Delete c tok)"
    and get_view: "ic_Get c tok w = (r, w') \<Longrightarrow> view (redis w') = view (redis w)"
    and get_tick: "ic_Get c tok w = (r, w') \<Longrightarrow> tick w \<le> tick w' \<and> tick w' \<le> Suc (tick w)"
    and get_hit: "ic_Get c tok w = (Inr p, w') \<Longrightarrow> view (redis w) (clk e (tick w)) tok = Some p"
    and set_view: "ic_Set c tok p ttl w = (ru, w') \<Longrightarrow>
      view (redis w') t tok' = view (redis w) t tok' \<or> view (redis w') t tok' = None \<or>
      (tok' = tok \<and> view (redis w') t tok' = Some p)"
    and delete_view: "ic_Delete c tok w = (ru, w') \<Longrightarrow>
      view (redis w') t tok' = view (redis w) t tok' \<or> view (redis w') t tok' = None"

definition invite_view ::
    "('r \<Rightarrow> keyspace) \<Rightarrow> InviteTokenPayload codec \<Rightarrow> 'r \<Rightarrow> time \<Rightarrow> string \<Rightarrow> InviteTokenPayload option" where
  "invite_view kspace J s t tok =
     (case live (kspace s) t (inviteTokenKeyPref @ tok) of
        None \<Rightarrow> None
      | Some v \<Rightarrow> Unmarshal J (val_text v))"

lemma invite_view_cong:
  "kspace s' (inviteTokenKeyPref @ tok) = kspace s (inviteTokenKeyPref @ tok) \<Longrightarrow>
   invite_view kspace J s' t tok = invite_view kspace J s t tok"
  by (simp add: invite_view_def live_def)

context redis_server
begin

lemma redis_invite_cache:
  assumes J: "codec_law J"
  shows "invite_cache e (RedisInviteCache e J (store_of C b)) (invite_view kspace J)"
proof (unfold_locales, goal_cases)
  case (1 tok p ttl)
  then show ?case by (simp add: RedisInviteCache_def frame_call_ret frame_with_client)
next
  case (2 tok)
  then show ?case
    by (simp add: RedisInviteCache_def)
       (intro frameI keeps_intros)
next
  case (3 tok)
  then show ?case by (simp add: RedisInviteCache_def frame_call_ret frame_with_client)
next
  case (4 tok w r w')
  then have "kspace (redis w') = kspace (redis w)"
    by (auto simp: RedisInviteCache_def with_client_store_of call_def ret_def fail_def
        dest: get_pure split: prod.splits sum.splits option.splits)
  then show ?case by (intro ext) (simp add: invite_view_def)
next
  case (5 tok w r w')
  then show ?case
    by (auto simp: RedisInviteCache_def with_client_store_of call_def ret_def fail_def
        split: prod.splits sum.splits option.splits)
next
  case (6 tok w p w')
  then show ?case
    by (auto simp: RedisInviteCache_def with_client_store_of call_def ret_def fail_def invite_view_def
        dest!: get_hit split: prod.splits sum.splits option.splits)
next
  case (7 tok p ttl w ru w' t tok')
  then obtain r s' where x: "r_exec C (clk e (tick w)) [CmdSet (inviteTokenKeyPref @ tok) (Marshal J p) ttl] (redis w) = (r, s')"
    and w': "redis w' = s'"
    by (auto simp: RedisInviteCache_def with_client_store_of call_def ret_def
        split: prod.splits sum.splits)
  show ?case
  proof (cases "tok' = tok")
    case True
    from set_any[OF x] show ?thesis
      using J w' True by (auto simp: invite_view_def live_def codec_law_def split: if_splits)
  next
    case False
    then have "kspace s' (inviteTokenKeyPref @ tok') = kspace (redis w) (inviteTokenKeyPref @ tok')"
      by (intro exec_other[OF x]) simp
    then show ?thesis using w' invite_view_cong[of kspace s' tok' "redis w" J t] by blast
  qed
next
  case (8 tok w ru w' t tok')
  then have "kspace (redis w') = kspace (redis w) \<or>
      kspace (redis w') = (kspace (redis w))(inviteTokenKeyPref @ tok := None)"
    by (auto simp: RedisInviteCache_def with_client_store_of call_def ret_def
        dest!: del_any split: prod.splits sum.splits)
  then show ?case by (cases "tok' = tok") (auto simp: invite_view_def live_def)
qed

end

section \<open>The invariants\<close>

definition owners_ok :: "database \<Rightarrow> bool" where
  "owners_ok d \<longleftrightarrow>
     (\<forall>x \<in> set (organizations d). role_in d (o_id x) (o_created_by x) = Some RoleOwner) \<and>
     (\<forall>m \<in> set (org_members d). m_role m = RoleOwner \<longrightarrow>
        (\<exists>x \<in> set (organizations d). o_id x = m_org_id m \<and> o_created_by x = m_user_id m))"

definition agrees :: "env \<Rightarrow> (string \<Rightarrow> string) \<Rightarrow> database \<Rightarrow> string \<Rightarrow> InviteTokenPayload \<Rightarrow> bool" where
  "agrees e H d tok p \<longleftrightarrow>
     (\<exists>i \<in> set (org_invites d). i_token_hash i = H tok \<and> i_id i = P_InviteID p \<and>
        pg_uuid e (P_OrgID p) = Some (i_org_id i) \<and> i_role i = P_Role p)"

lemma quiet_org_reads:
  "quiet (GetOrgByID e org)" "quiet (GetInviteByToken e h)" "quiet (GetInviteCodeByCode e c)"
  "quiet (GetOrgMemberRole e org u)" "quiet (checkNotMember e org u)" "quiet (generateInviteCode e)"
proof -
  have "quiet (inviteCodeBytes e n)" for n
    by (induction n) (auto intro!: quiet_intros)
  then show "quiet (generateInviteCode e)" by (simp add: generateInviteCode_def)
  show "quiet (checkNotMember e org u)"
    unfolding checkNotMember_def
    by (intro quiet_attempt quiet_GetOrgMemberRole) (auto intro: quiet_intros split: sum.split)
  show "quiet (GetOrgMemberRole e org u)" by (rule quiet_GetOrgMemberRole)
  show "quiet (GetInviteByToken e h)" by (rule quietI) (auto simp: GetInviteByToken_eq)
  show "quiet (GetOrgByID e org)"
    unfolding GetOrgByID_def by (intro quiet_on_no_rows stmt_pure_quiet keeps_intros)
  show "quiet (GetInviteCodeByCode e c)"
    unfolding GetInviteCodeByCode_def by (intro quiet_on_no_rows stmt_pure_quiet keeps_intros)
qed


text \<open>The identifiers an invitation holds are spelled as the server prints them.\<close>

definition canon :: "env \<Rightarrow> database \<Rightarrow> bool" where
  "canon e d \<longleftrightarrow>
     (\<forall>i \<in> set (org_invites d). pg_uuid e (i_id i) = Some (i_id i) \<and> pg_uuid e (i_org_id i) = Some (i_org_id i)) \<and>
     (\<forall>c \<in> set (org_invite_codes d). pg_uuid e (c_org_id c) = Some (c_org_id c))"

definition org_inv ::
    "env \<Rightarrow> (string \<Rightarrow> string) \<Rightarrow> ('r \<Rightarrow> time \<Rightarrow> string \<Rightarrow> InviteTokenPayload option) \<Rightarrow> database \<Rightarrow> 'r \<Rightarrow> bool" where
  "org_inv e H view d s \<longleftrightarrow>
     db_ok d \<and> owners_ok d \<and> canon e d \<and> (\<forall>t tok p. view s t tok = Some p \<longrightarrow> agrees e H d tok p)"

lemma agrees_accept:
  assumes "agrees e H d tok p"
  shows "agrees e H (d\<lparr>org_invites := accept_invite iid now (org_invites d)\<rparr>) tok p"
proof -
  obtain i where i: "i \<in> set (org_invites d)" "i_token_hash i = H tok" "i_id i = P_InviteID p"
    "pg_uuid e (P_OrgID p) = Some (i_org_id i)" "i_role i = P_Role p"
    using assms by (auto simp: agrees_def)
  define j where "j = (if i_id i = iid \<and> i_accepted_at i = None then i\<lparr>i_accepted_at := Some now\<rparr> else i)"
  have "j \<in> set (accept_invite iid now (org_invites d))"
    using i(1) by (simp add: accept_invite_def j_def)
  moreover have "i_token_hash j = i_token_hash i" "i_id j = i_id i" "i_org_id j = i_org_id i"
    "i_role j = i_role i" by (simp_all add: j_def)
  ultimately show ?thesis using i unfolding agrees_def by (intro bexI[of _ j]) simp_all
qed

lemma canon_accept: "canon e d \<Longrightarrow> canon e (d\<lparr>org_invites := accept_invite iid now (org_invites d)\<rparr>)"
  by (auto simp: canon_def dest!: accept_invite_set)

lemma agrees_append: "agrees e H d tok p \<Longrightarrow> agrees e H (d\<lparr>org_invites := org_invites d @ [i]\<rparr>) tok p"
  by (auto simp: agrees_def)

lemma owners_add_member:
  assumes "owners_ok d" and "m_role m \<noteq> RoleOwner"
  shows "owners_ok (d\<lparr>org_members := org_members d @ [m]\<rparr>)"
  using assms by (auto simp: owners_ok_def role_in_append)

lemma owners_new_org:
  assumes "owners_ok d" and "db_ok d" and "o_id x \<notin> o_id ` set (organizations d)"
    and "m_org_id m = o_id x" and "m_user_id m = o_created_by x" and "m_role m = RoleOwner"
  shows "owners_ok (d\<lparr>organizations := organizations d @ [x], org_members := org_members d @ [m]\<rparr>)"
    (is "owners_ok ?d")
proof -
  have new: "role_in d (o_id x) (o_created_by x) = None"
    using assms(2,3) by (auto simp: role_in_None ok_defs)
  have eq: "role_in ?d = role_in (d\<lparr>org_members := org_members d @ [m]\<rparr>)"
    by (rule role_in_cong) simp
  have old: "role_in ?d (o_id y) (o_created_by y) = Some RoleOwner" if "y \<in> set (organizations d)" for y
    using assms(1) that unfolding eq role_in_append by (simp add: owners_ok_def)
  have "role_in ?d (o_id x) (o_created_by x) = Some RoleOwner"
    using new assms(4-6) unfolding eq role_in_append by simp
  moreover have "\<exists>y \<in> set (organizations d @ [x]). o_id y = m_org_id n \<and> o_created_by y = m_user_id n"
    if "n \<in> set (org_members d @ [m])" and "m_role n = RoleOwner" for n
  proof (cases "n = m")
    case True
    then show ?thesis using assms(4,5) by auto
  next
    case False
    then have "n \<in> set (org_members d)" using that(1) by auto
    then show ?thesis using assms(1) that(2) unfolding owners_ok_def by fastforce
  qed
  ultimately show ?thesis using old unfolding owners_ok_def by simp
qed

lemma owners_cong:
  "organizations d' = organizations d \<Longrightarrow> org_members d' = org_members d \<Longrightarrow> owners_ok d' = owners_ok d"
  using role_in_cong[of d' d] by (simp add: owners_ok_def)

lemma agrees_cong: "org_invites d' = org_invites d \<Longrightarrow> agrees e H d' = agrees e H d"
  by (intro ext) (simp add: agrees_def)

lemma agrees_role: "db_ok d \<Longrightarrow> agrees e H d tok p \<Longrightarrow> IsValidInviteRole (P_Role p)"
  by (auto simp: agrees_def ok_defs IsValidInviteRole_def role_defs)

lemma invite_role: "db_ok d \<Longrightarrow> i \<in> set (org_invites d) \<Longrightarrow> IsValidInviteRole (i_role i)"
  by (auto simp: ok_defs IsValidInviteRole_def role_defs)

lemma code_role: "db_ok d \<Longrightarrow> c \<in> set (org_invite_codes d) \<Longrightarrow> IsValidInviteRole (c_default_role c)"
  by (auto simp: ok_defs IsValidInviteRole_def role_defs)

lemma invite_role_not_owner: "IsValidInviteRole r \<Longrightarrow> r \<noteq> RoleOwner"
  by (auto simp: IsValidInviteRole_def role_defs)

section \<open>Creating an organization\<close>

lemma CreateOrg_Inr:
  assumes "uuid_law e" and "CreateOrg e name u w = (Inr org, w')"
  obtains uid now where "pg_uuid e u = Some uid" and "o_name org = name" and "o_created_by org = uid"
    and "db w' = (db w)\<lparr>organizations := organizations (db w) @ [org],
      org_members := org_members (db w) @
        [\<lparr>m_org_id = o_id org, m_user_id = uid, m_role = RoleOwner, m_joined_at = now\<rparr>]\<rparr>"
    and "o_id org \<notin> o_id ` set (organizations (db w))" and "redis w' = redis w"
  using assms(2) unfolding CreateOrg_def
proof (rule transaction_Inr)
  fix w1 w2
  assume w1: "db w1 = db w" "redis w1 = redis w" and w2: "db w' = db w2" "redis w' = redis w2"
    and body: "call (pg e (with_uuid e u (\<lambda>uid now i. insert_organization
          \<lparr>o_id = i, o_name = name, o_created_by = uid, o_created_at = now, o_updated_at = now\<rparr>)))
        (\<lambda>org. call (pg e (with_uuid e (o_id org) (\<lambda>oid. with_uuid e u (\<lambda>uid now i. insert_org_member
          \<lparr>m_org_id = oid, m_user_id = uid, m_role = RoleOwner, m_joined_at = now\<rparr>))))
        (\<lambda>_. ret org)) w1 = (Inr org, w2)"
  then obtain uid n where u: "pg_uuid e u = Some uid"
    and org: "org = \<lparr>o_id = uuid e n, o_name = name, o_created_by = uid,
                    o_created_at = clk e n, o_updated_at = clk e n\<rparr>"
    and f: "uuid e n \<notin> o_id ` set (organizations (db w1))"
    and w3: "db w2 = (db w1)\<lparr>organizations := organizations (db w1) @ [org],
      org_members := org_members (db w1) @
        [\<lparr>m_org_id = uuid e n, m_user_id = uid, m_role = RoleOwner, m_joined_at = clk e (Suc n)\<rparr>]\<rparr>"
    and r: "redis w2 = redis w1"
    using assms(1)
    by (auto simp: prog_simps pg_Inr with_uuid_def insert_organization_def insert_org_member_def
        constrained_Inr uuid_law_def split: option.splits)
  show thesis by (rule that[OF u]) (use org f w1 w2 w3 r in simp_all)
qed

lemma CreateOrg_Inl: "CreateOrg e name u w = (Inl x, w') \<Longrightarrow> db w' = db w"
  unfolding CreateOrg_def by (rule transaction_atomic)

lemma CreateOrg_redis: "CreateOrg e name u w = (r, w') \<Longrightarrow> redis w' = redis w"
  unfolding CreateOrg_def by (erule transaction_redis[rotated]) (intro keeps_intros)

section \<open>The service keeps the invariants\<close>

lemma org_inv_same:
  assumes "org_inv e H view d s" and "\<And>t tok p. view s' t tok = Some p \<Longrightarrow> view s t tok = Some p"
  shows "org_inv e H view d s'"
  using assms unfolding org_inv_def by blast

lemma stmt_keeps_with_canon:
  assumes "uuid_law e" and "\<And>i. pg_uuid e i = Some i \<Longrightarrow> stmt_keeps P (q i)"
  shows "stmt_keeps P (with_uuid e x q)"
proof (cases "pg_uuid e x")
  case None
  then show ?thesis by (simp add: stmt_keeps_def with_uuid_def)
next
  case (Some i)
  then have "stmt_keeps P (q i)" using assms by (auto simp: uuid_law_def)
  with Some show ?thesis by (simp add: stmt_keeps_def with_uuid_def)
qed

lemma org_inv_add_member:
  assumes "org_inv e H view d s" and "m_role m \<noteq> RoleOwner" and "insert_org_member m d = (r, d')"
  shows "org_inv e H view d' s"
proof -
  have "db_ok d'" using insert_org_member_ok assms(1,3) by (auto simp: org_inv_def)
  moreover have "d' = d \<or> d' = d\<lparr>org_members := org_members d @ [m]\<rparr>"
    using assms(3) by (auto simp: insert_org_member_def constrained_def split: if_splits)
  ultimately show ?thesis
    using assms(1) owners_add_member[OF _ assms(2), of d]
    by (auto simp: org_inv_def canon_def agrees_def)
qed

lemma org_inv_add_code:
  assumes "org_inv e H view d s" and "pg_uuid e (c_org_id c) = Some (c_org_id c)"
    and "insert_org_invite_code c d = (r, d')"
  shows "org_inv e H view d' s"
proof -
  have "db_ok d'" using insert_org_invite_code_ok assms(1,3) by (auto simp: org_inv_def)
  moreover have "d' = d \<or> d' = d\<lparr>org_invite_codes := org_invite_codes d @ [c]\<rparr>"
    using assms(3) by (auto simp: insert_org_invite_code_def constrained_def split: if_splits)
  ultimately show ?thesis
    using assms(1,2) owners_cong[of "d\<lparr>org_invite_codes := org_invite_codes d @ [c]\<rparr>" d]
    by (auto simp: org_inv_def canon_def agrees_def)
qed

lemma org_inv_add_invite:
  assumes "org_inv e H view d s" and "pg_uuid e (i_org_id i) = Some (i_org_id i)"
    and "pg_uuid e (i_id i) = Some (i_id i)" and "insert_org_invite i d = (r, d')"
  shows "org_inv e H view d' s"
proof -
  have "db_ok d'" using insert_org_invite_ok assms(1,4) by (auto simp: org_inv_def)
  moreover have "d' = d \<or> d' = d\<lparr>org_invites := org_invites d @ [i]\<rparr>"
    using assms(4) by (auto simp: insert_org_invite_def constrained_def split: if_splits)
  ultimately show ?thesis
    using assms(1-3) owners_cong[of "d\<lparr>org_invites := org_invites d @ [i]\<rparr>" d]
    by (auto simp: org_inv_def canon_def intro: agrees_append)
qed

lemma org_inv_accept:
  assumes "org_inv e H view d s"
  shows "org_inv e H view (d\<lparr>org_invites := accept_invite iid now (org_invites d)\<rparr>) s"
  using assms owners_cong[of "d\<lparr>org_invites := accept_invite iid now (org_invites d)\<rparr>" d]
  by (auto simp: org_inv_def intro: accept_invite_ok canon_accept agrees_accept)

lemma org_inv_new_org:
  assumes "org_inv e H view d s" and "o_id x \<notin> o_id ` set (organizations d)"
    and "m_org_id m = o_id x" and "m_user_id m = o_created_by x" and "m_role m = RoleOwner"
    and "db_ok (d\<lparr>organizations := organizations d @ [x], org_members := org_members d @ [m]\<rparr>)"
  shows "org_inv e H view (d\<lparr>organizations := organizations d @ [x], org_members := org_members d @ [m]\<rparr>) s"
  using assms owners_new_org[OF _ _ assms(2-5)] by (auto simp: org_inv_def canon_def agrees_def)

locale org_service = tm: token_manager "os_tokens s" for s :: "'r OrgService" +
  fixes e :: env
    and view :: "'r \<Rightarrow> time \<Rightarrow> string \<Rightarrow> InviteTokenPayload option"
  assumes cache: "os_cache s = Some c \<Longrightarrow> invite_cache e c view"
    and uuids: "uuid_law e"
begin

abbreviation H :: "string \<Rightarrow> string" where
  "H \<equiv> HashToken (os_tokens s)"

abbreviation Inv :: "'r world \<Rightarrow> bool" where
  "Inv w \<equiv> org_inv e H view (db w) (redis w)"

lemmas cache_db =
  frameD[OF invite_cache.set_db[OF cache]] frameD[OF invite_cache.get_db[OF cache]]
  frameD[OF invite_cache.delete_db[OF cache]]

lemma lookup_world:
  assumes "lookupInviteTokenInCache s tok w = (r, w')"
  shows "db w' = db w" and "view (redis w') = view (redis w)"
    and "r = Inr p \<Longrightarrow> view (redis w) (clk e (tick w)) tok = Some p"
  using assms
  by (auto simp: lookupInviteTokenInCache_def fail_def dest: cache_db invite_cache.get_view[OF cache]
      invite_cache.get_hit[OF cache] split: option.splits if_splits)

lemma store_world:
  assumes "storeInviteTokenInCache s tok p w = (r, w')"
  shows "db w' = db w" and "view (redis w') t tok' = view (redis w) t tok' \<or>
    view (redis w') t tok' = None \<or> (tok' = tok \<and> view (redis w') t tok' = Some p)"
proof -
  show "db w' = db w"
    using assms by (auto simp: storeInviteTokenInCache_def prog_simps dest: cache_db
      split: option.splits if_splits)
  show "view (redis w') t tok' = view (redis w) t tok' \<or>
    view (redis w') t tok' = None \<or> (tok' = tok \<and> view (redis w') t tok' = Some p)"
  proof (cases "os_cache s")
    case (Some c)
    then show ?thesis
      using assms invite_cache.set_view[OF cache[OF Some], of tok p inviteTokenTTL w _ w' t tok']
      by (auto simp: storeInviteTokenInCache_def prog_simps split: if_splits)
  qed (use assms in \<open>simp add: storeInviteTokenInCache_def ret_def\<close>)
qed

lemma delete_world:
  assumes "deleteInviteTokenFromCache s tok w = (r, w')"
  shows "db w' = db w" and "view (redis w') t tok' = view (redis w) t tok' \<or> view (redis w') t tok' = None"
proof -
  show "db w' = db w"
    using assms by (auto simp: deleteInviteTokenFromCache_def prog_simps dest: cache_db
      split: option.splits if_splits)
  show "view (redis w') t tok' = view (redis w) t tok' \<or> view (redis w') t tok' = None"
  proof (cases "os_cache s")
    case (Some c)
    then show ?thesis
      using assms invite_cache.delete_view[OF cache[OF Some], of tok w _ w' t tok']
      by (auto simp: deleteInviteTokenFromCache_def prog_simps split: if_splits)
  qed (use assms in \<open>simp add: deleteInviteTokenFromCache_def ret_def\<close>)
qed

text \<open>Steps that keep the invariant\<close>

lemma inv_quiet: "quiet m \<Longrightarrow> keeps Inv m"
  by (rule keeps_quiet)

lemma inv_AddOrgMember: "role \<noteq> RoleOwner \<Longrightarrow> keeps Inv (AddOrgMember e org u role)"
  unfolding AddOrgMember_def
  by (intro keeps_world_pg stmt_keeps_with_uuid, rule stmt_keepsI)
     (erule org_inv_add_member[rotated 2], simp_all)

lemma inv_MarkInviteAccepted: "keeps Inv (MarkInviteAccepted e i)"
  by (rule keepsI) (metis MarkInviteAccepted_db org_inv_accept)

lemma inv_delete: "keeps Inv (deleteInviteTokenFromCache s tok)"
proof (rule keepsI)
  fix w r w' assume "Inv w" and run: "deleteInviteTokenFromCache s tok w = (r, w')"
  moreover have "view (redis w) t tok' = Some p" if "view (redis w') t tok' = Some p" for t tok' p
    using delete_world(2)[OF run, of t tok'] that by auto
  ultimately show "Inv w'"
    using delete_world(1)[OF run] org_inv_same[of e H view "db w" "redis w" "redis w'"] by simp
qed

lemma inv_join_commit:
  "IsValidInviteRole role \<Longrightarrow> keeps Inv (join_commit e s u raw org role i)"
  unfolding join_commit_def
  by (intro keeps_intros inv_AddOrgMember inv_MarkInviteAccepted inv_delete inv_quiet[OF quiet_org_reads(1)])
     (auto dest: invite_role_not_owner)

lemma lookupInvite_Inr:
  assumes "Inv w" and "lookupInvite e s raw w = (Inr (org, role, i), w')"
  shows "i \<in> set (org_invites (db w)) \<and> i_token_hash i = H raw \<and> pg_uuid e org = Some (i_org_id i) \<and>
    role = i_role i \<and> db w' = db w \<and> view (redis w') = view (redis w)"
proof -
  have inv: "canon e (db w)" "distinct (map i_token_hash (org_invites (db w)))"
    "\<And>t p. view (redis w) t raw = Some p \<Longrightarrow> agrees e H (db w) raw p"
    using assms(1) by (auto simp: org_inv_def ok_defs)
  obtain r w1 where look: "lookupInviteTokenInCache s raw w = (r, w1)" by fastforce
  note l = lookup_world[OF look]
  have get: "GetInviteByToken e (H raw) w1 = (Inr i, w')"
    and r: "(\<exists>p. r = Inr p \<and> org = P_OrgID p \<and> role = P_Role p) \<or>
      ((\<exists>x. r = Inl x) \<and> org = i_org_id i \<and> role = i_role i)"
    using assms(2) look by (cases r; auto simp: lookupInvite_def attempt_def prog_simps)+
  have i: "i \<in> set (org_invites (db w))" "i_token_hash i = H raw" "db w' = db w"
    "redis w' = redis w1"
    using GetInviteByToken_Inr[OF get] l(1) by simp_all
  from r show ?thesis
  proof
    assume "\<exists>p. r = Inr p \<and> org = P_OrgID p \<and> role = P_Role p"
    then obtain p where p: "r = Inr p" "org = P_OrgID p" "role = P_Role p" by blast
    then obtain j where "j \<in> set (org_invites (db w))" "i_token_hash j = H raw"
      "pg_uuid e org = Some (i_org_id j)" "i_role j = role"
      using inv(3) l(3) by (fastforce simp: agrees_def)
    moreover from this have "j = i" using distinct_map_eq[OF inv(2), of i j] i by simp
    ultimately show ?thesis using i l(2) by simp
  next
    assume "(\<exists>x. r = Inl x) \<and> org = i_org_id i \<and> role = i_role i"
    then show ?thesis using i l(2) inv(1) by (auto simp: canon_def)
  qed
qed

lemma inv_lookupInvite: "keeps Inv (lookupInvite e s raw)"
proof (rule keepsI)
  fix w r w' assume I: "Inv w" and run: "lookupInvite e s raw w = (r, w')"
  obtain v w1 where look: "lookupInviteTokenInCache s raw w = (v, w1)" by fastforce
  have I1: "Inv w1" using I lookup_world(1,2)[OF look] by (simp add: org_inv_def)
  have k: "keeps Inv (call (GetInviteByToken e (H raw)) (\<lambda>invite. ret (f invite)))"
    for f :: "OrgInvite \<Rightarrow> string \<times> string \<times> OrgInvite"
    by (intro keeps_intros inv_quiet quiet_org_reads)
  obtain f where "call (GetInviteByToken e (H raw)) (\<lambda>invite. ret (f invite)) w1 = (r, w')"
    using run look by (cases v) (auto simp: lookupInvite_def attempt_def)
  from keepsD[OF k I1 this] show "Inv w'" .
qed

lemma join_admit_Inr:
  assumes "Inv w" and "join_admit e s u raw w = (Inr (org, role, i), w')"
  shows "i \<in> set (org_invites (db w)) \<and> i_token_hash i = H raw \<and> pg_uuid e org = Some (i_org_id i) \<and>
    role = i_role i \<and> i_accepted_at i = None \<and> db w' = db w \<and> view (redis w') = view (redis w) \<and>
    (\<exists>n. clk e n \<le> i_expires_at i) \<and> (\<exists>uid. pg_uuid e u = Some uid \<and> role_in (db w) (i_org_id i) uid = None)"
proof -
  from assms(2) obtain w1 w2 w3 where "lookupInvite e s raw w = (Inr (org, role, i), w1)"
    and "i_accepted_at i = None" and "Now e w1 = (Inr (clk e (tick w1)), w2)"
    and "\<not> i_expires_at i < clk e (tick w1)" and "checkNotMember e org u w2 = (Inr (), w')"
    by (auto simp: join_admit_def prog_simps Now_def split: prod.splits if_splits)
  moreover from this have "db w2 = db w1" "redis w2 = redis w1" by (auto simp: Now_def)
  ultimately show ?thesis
    using lookupInvite_Inr[OF assms(1)] checkNotMember_Inr[of e org u w2 "()" w'] by (auto simp: not_less)
qed

lemma inv_join_admit: "keeps Inv (join_admit e s u raw)"
  unfolding join_admit_def
  by (auto intro!: keeps_intros inv_lookupInvite inv_quiet[OF quiet_Now] inv_quiet[OF quiet_org_reads(5)]
      split: prod.split)

lemma join_admit_role: "yields Inv (\<lambda>(org, role, i). IsValidInviteRole role) (join_admit e s u raw)"
proof (rule yieldsI)
  fix w w' and x :: "string \<times> string \<times> OrgInvite"
  assume I: "Inv w" and run: "join_admit e s u raw w = (Inr x, w')"
  obtain org role i where x: "x = (org, role, i)" by (cases x)
  show "case x of (org, role, i) \<Rightarrow> IsValidInviteRole role"
    using join_admit_Inr[OF I run[unfolded x]] I invite_role[of "db w" i] x by (auto simp: org_inv_def)
qed

lemma inv_JoinViaToken: "keeps Inv (JoinViaToken e s u raw)"
  unfolding JoinViaToken_def
  by (rule keeps_if, rule keeps_fail, rule keeps_call_yields[OF inv_join_admit join_admit_role])
     (auto intro: inv_join_commit)

lemma inv_JoinViaCode: "keeps Inv (JoinViaCode e s u code)"
proof -
  have "yields Inv (\<lambda>c. IsValidInviteRole (c_default_role c)) (GetInviteCodeByCode e code)"
    by (rule yieldsI)
       (auto simp: GetInviteCodeByCode_def prog_simps pg_Inr select_row_def org_inv_def
         dest: find_Some_D code_role split: option.splits)
  then show ?thesis
    unfolding JoinViaCode_def
    by (rule keeps_if[OF keeps_fail keeps_call_yields[OF inv_quiet[OF quiet_org_reads(3)]]])
       (intro keeps_intros inv_AddOrgMember invite_role_not_owner
        inv_quiet[OF quiet_org_reads(1)] inv_quiet[OF quiet_org_reads(5)])
qed

lemma inv_GenerateInviteCode: "keeps Inv (GenerateInviteCode e s org u)"
proof -
  have "keeps Inv (CreateInviteCode e org code u role act)" for code role act
    unfolding CreateInviteCode_def
    by (intro keeps_world_pg stmt_keeps_with_canon[OF uuids], rule stmt_keepsI)
       (erule org_inv_add_code[rotated 2], simp_all)
  then show ?thesis
    unfolding GenerateInviteCode_def
    by (intro keeps_intros inv_quiet[OF quiet_org_reads(4)] inv_quiet[OF quiet_org_reads(6)])
qed

lemma inv_CreateOrganization: "keeps Inv (CreateOrganization e s u name)"
proof -
  have "keeps Inv (CreateOrg e name u)"
  proof (rule keepsI)
    fix w r w' assume I: "Inv w" and run: "CreateOrg e name u w = (r, w')"
    have ok: "db_ok (db w')" using keepsD[OF keeps_org_writes(1) _ run] I by (simp add: org_inv_def)
    show "Inv w'"
    proof (cases r)
      case (Inl x)
      then show ?thesis using I run CreateOrg_Inl CreateOrg_redis by metis
    next
      case (Inr org)
      show ?thesis
      proof (rule CreateOrg_Inr[OF uuids run[unfolded Inr]])
        fix uid now
        assume cb: "o_created_by org = uid" and new: "o_id org \<notin> o_id ` set (organizations (db w))"
          and d: "db w' = (db w)\<lparr>organizations := organizations (db w) @ [org], org_members := org_members (db w) @
            [\<lparr>m_org_id = o_id org, m_user_id = uid, m_role = RoleOwner, m_joined_at = now\<rparr>]\<rparr>"
          and r: "redis w' = redis w"
        show "Inv w'"
          unfolding d r by (rule org_inv_new_org[OF I new]) (use cb ok d in simp_all)
      qed
    qed
  qed
  then show ?thesis unfolding CreateOrganization_def by (intro keeps_intros)
qed

end

section \<open>Invitations\<close>

lemma CreateInviteToken_Inr:
  assumes "CreateInviteToken e org u em role h t w = (Inr i, w')"
  obtains oid uid n where "pg_uuid e org = Some oid" and "pg_uuid e u = Some uid"
    and "i = \<lparr>i_id = uuid e n, i_org_id = oid, i_invited_by = uid, i_email = em, i_role = role,
       i_token_hash = h, i_expires_at = t, i_accepted_at = None, i_created_at = clk e n\<rparr>"
    and "insert_org_invite i (db w) = (Inr i, db w')" and "redis w' = redis w"
    and "db w' = (db w)\<lparr>org_invites := org_invites (db w) @ [i]\<rparr>"
    and "h \<notin> i_token_hash ` set (org_invites (db w))" and "oid \<in> o_id ` set (organizations (db w))"
proof -
  obtain oid uid n d where ids: "pg_uuid e org = Some oid" "pg_uuid e u = Some uid"
    and ins: "insert_org_invite \<lparr>i_id = uuid e n, i_org_id = oid, i_invited_by = uid, i_email = em,
       i_role = role, i_token_hash = h, i_expires_at = t, i_accepted_at = None, i_created_at = clk e n\<rparr>
      (db w) = (Inr i, d)" and d: "db w' = d" "redis w' = redis w"
    using assms by (auto simp: CreateInviteToken_def pg_Inr with_uuid_def split: option.splits)
  from ins show thesis
    by (auto simp: insert_org_invite_def constrained_Inr intro!: that[OF ids] d)
       (use ins d in \<open>simp_all add: insert_org_invite_def constrained_Inr\<close>)
qed

lemma MarkInviteAccepted_open:
  assumes "pg_uuid e (i_id i) = Some (i_id i)" and "i \<in> set (org_invites (db w))" and "i_accepted_at i = None"
    and "MarkInviteAccepted e (i_id i) w = (r, w')" and "r = Inr x \<or> r = Inl (OrgE InviteAlreadyAccepted)"
  shows "r = Inr () \<and> redis w' = redis w \<and> (\<exists>now. db w' =
    (db w)\<lparr>org_invites := accept_invite (i_id i) now (org_invites (db w))\<rparr>)"
proof -
  have "filter (\<lambda>j. i_id j = i_id i \<and> i_accepted_at j = None) (org_invites (db w)) \<noteq> []"
    using assms(2,3) by (auto simp: filter_empty_conv)
  then show ?thesis
    using assms(1,4,5)
    by (auto simp: MarkInviteAccepted_def call_def ret_def fail_def pg_def with_uuid_def Let_def
        split: option.splits)
qed

lemma GetOrgByID_Inr:
  "GetOrgByID e org w = (Inr x, w') \<Longrightarrow> pg_uuid e org = Some (o_id x) \<and> db w' = db w \<and> redis w' = redis w"
  by (auto simp: GetOrgByID_def prog_simps pg_Inr with_uuid_def select_row_def dest: find_Some_D
      split: option.splits)

context org_service
begin

lemma SendEmailInvite_Inr:
  assumes "SendEmailInvite e s org u em role w = (Inr resp, w')"
  obtains oid uid r n i w1 where "pg_uuid e org = Some oid" and "pg_uuid e u = Some uid"
    and "role_in (db w) oid uid = Some r" and "IsAdminRole r" and "IsValidInviteRole role"
    and "i = \<lparr>i_id = uuid e n, i_org_id = oid, i_invited_by = uid, i_email = em, i_role = role,
       i_token_hash = H (si_token resp), i_expires_at = si_expires_at resp, i_accepted_at = None,
       i_created_at = clk e n\<rparr>"
    and "db w' = (db w)\<lparr>org_invites := org_invites (db w) @ [i]\<rparr>"
    and "H (si_token resp) \<notin> i_token_hash ` set (org_invites (db w))"
    and "oid \<in> o_id ` set (organizations (db w))"
    and "insert_org_invite i (db w) = (Inr i, db w1)" and "redis w1 = redis w"
    and "storeInviteTokenInCache s (si_token resp)
      \<lparr>P_InviteID = i_id i, P_OrgID = org, P_Email = em, P_Role = role\<rparr> w1 = (Inr (), w')"
    and "si_role resp = role" and "si_email resp = em" and "si_invite_id resp = i_id i"
proof -
  from assms obtain r w1 raw w2 now w3 i w4 where ok: "parse_address e em" "IsValidInviteRole role"
    and g: "GetOrgMemberRole e org u w = (Inr r, w1)" and a: "IsAdminRole r"
    and n: "NewString e w1 = (Inr raw, w2)" and t: "Now e w2 = (Inr now, w3)"
    and c: "CreateInviteToken e org u em role (H raw) (now + inviteTokenTTL) w3 = (Inr i, w4)"
    and st: "storeInviteTokenInCache s raw
      \<lparr>P_InviteID = i_id i, P_OrgID = org, P_Email = em, P_Role = role\<rparr> w4 = (Inr (), w')"
    and resp: "resp = \<lparr>si_invite_id = i_id i, si_email = i_email i, si_role = i_role i,
                 si_expires_at = i_expires_at i, si_token = raw\<rparr>"
    by (auto simp: SendEmailInvite_def prog_simps split: if_splits)
  have w3: "db w3 = db w" "redis w3 = redis w"
    using g quietD[OF quiet_NewString n] quietD[OF quiet_Now t] by (simp_all add: GetOrgMemberRole_Inr)
  from g obtain oid' uid' where "pg_uuid e org = Some oid'" "pg_uuid e u = Some uid'"
    "role_in (db w) oid' uid' = Some r" by (auto simp: GetOrgMemberRole_Inr)
  moreover note store_world(1)[OF st]
  ultimately show thesis
    using c
    by (elim CreateInviteToken_Inr)
       (rule that[of oid' uid' r i _ w4]; use ok a w3 st resp in simp)
qed

lemma inv_SendEmailInvite: "keeps Inv (SendEmailInvite e s org u em role)"
proof -
  show ?thesis
  proof (rule keepsI)
    fix w r w' assume I: "Inv w" and run: "SendEmailInvite e s org u em role w = (r, w')"
    show "Inv w'"
    proof (cases r)
      case (Inr resp)
      show ?thesis
      proof (rule SendEmailInvite_Inr[OF run[unfolded Inr]])
        fix oid uid ro n i w1
        assume org: "pg_uuid e org = Some oid"
          and i: "i = \<lparr>i_id = uuid e n, i_org_id = oid, i_invited_by = uid, i_email = em, i_role = role,
            i_token_hash = H (si_token resp), i_expires_at = si_expires_at resp, i_accepted_at = None,
            i_created_at = clk e n\<rparr>"
          and ins: "insert_org_invite i (db w) = (Inr i, db w1)" and r1: "redis w1 = redis w"
          and st: "storeInviteTokenInCache s (si_token resp)
            \<lparr>P_InviteID = i_id i, P_OrgID = org, P_Email = em, P_Role = role\<rparr> w1 = (Inr (), w')"
          and d': "db w' = (db w)\<lparr>org_invites := org_invites (db w) @ [i]\<rparr>"
        have I1: "Inv w1"
          using org_inv_add_invite[OF I _ _ ins] uuids org r1 i by (auto simp: uuid_law_def)
        have dd: "db w' = db w1" using store_world(1)[OF st] .
        have "agrees e H (db w') tok p" if "view (redis w') t tok = Some p" for t tok p
          using store_world(2)[OF st, of t tok] that I1 d' dd i org
          by (auto simp: org_inv_def) (auto simp: agrees_def)
        with I1 dd show "Inv w'" by (simp add: org_inv_def)
      qed
    next
      case (Inl x)
      have "db w' = db w \<and> redis w' = redis w"
        using run[unfolded Inl]
        by (auto simp: SendEmailInvite_def prog_simps GetOrgMemberRole_eq CreateInviteToken_def
            storeInviteTokenInCache_def NewString_def Now_def dest!: pg_Inl_db split: if_splits option.splits)
      with I show ?thesis by simp
    qed
  qed
qed

lemma join_commit_Inr:
  assumes "join_commit e s u raw org role i w = (Inr resp, w')"
    and "pg_uuid e (i_id i) = Some (i_id i)" and "i \<in> set (org_invites (db w))" and "i_accepted_at i = None"
  obtains oid uid now now' where "pg_uuid e org = Some oid" and "pg_uuid e u = Some uid"
    and "db w' = (db w)\<lparr>org_members := org_members (db w) @
        [\<lparr>m_org_id = oid, m_user_id = uid, m_role = role, m_joined_at = now\<rparr>],
      org_invites := accept_invite (i_id i) now' (org_invites (db w))\<rparr>"
    and "role_in (db w) oid uid = None" and "jr_role resp = role" and "jr_org_id resp = oid"
proof -
  from assms(1) obtain m w1 r w2 w3 x where add: "AddOrgMember e org u role w = (Inr m, w1)"
    and mark: "MarkInviteAccepted e (i_id i) w1 = (r, w2)"
    and r: "r = Inr () \<or> r = Inl (OrgE InviteAlreadyAccepted)"
    and del: "deleteInviteTokenFromCache s raw w2 = (Inr (), w3)"
    and get: "GetOrgByID e org w3 = (Inr x, w')"
    and resp: "resp = \<lparr>jr_org_id = o_id x, jr_org_name = o_name x, jr_role = m_role m,
                jr_joined_at = m_joined_at m\<rparr>"
    by (auto simp: join_commit_def prog_simps split: if_splits)
  show thesis
  proof (rule AddOrgMember_Inr[OF add])
    fix oid uid now
    assume ids: "pg_uuid e org = Some oid" "pg_uuid e u = Some uid"
      and m: "m = \<lparr>m_org_id = oid, m_user_id = uid, m_role = role, m_joined_at = now\<rparr>"
      and d1: "db w1 = (db w)\<lparr>org_members := org_members (db w) @ [m]\<rparr>"
      and new: "role_in (db w) oid uid = None"
    have "i \<in> set (org_invites (db w1))" using assms(3) d1 by simp
    from MarkInviteAccepted_open[OF assms(2) this assms(4) mark r] obtain now'
      where d2: "db w2 = (db w1)\<lparr>org_invites := accept_invite (i_id i) now' (org_invites (db w1))\<rparr>" by blast
    have "db w' = db w2" using delete_world(1)[OF del] GetOrgByID_Inr[OF get] by (elim conjE) (rule trans)
    then have dw: "db w' = (db w)\<lparr>org_members := org_members (db w) @
          [\<lparr>m_org_id = oid, m_user_id = uid, m_role = role, m_joined_at = now\<rparr>],
        org_invites := accept_invite (i_id i) now' (org_invites (db w))\<rparr>"
      unfolding d2 d1 m by simp
    have "jr_role resp = role" "jr_org_id resp = oid"
      using GetOrgByID_Inr[OF get] ids(1) unfolding resp m by simp_all
    then show thesis by (rule that[OF ids dw new])
  qed
qed

lemma JoinViaToken_Inr:
  assumes "Inv w" and "JoinViaToken e s u raw w = (Inr resp, w')"
  obtains i uid now now' where "i \<in> set (org_invites (db w))" and "i_token_hash i = H raw"
    and "i_accepted_at i = None" and "\<exists>n. clk e n \<le> i_expires_at i" and "pg_uuid e u = Some uid"
    and "role_in (db w) (i_org_id i) uid = None"
    and "db w' = (db w)\<lparr>org_members := org_members (db w) @
        [\<lparr>m_org_id = i_org_id i, m_user_id = uid, m_role = i_role i, m_joined_at = now\<rparr>],
      org_invites := accept_invite (i_id i) now' (org_invites (db w))\<rparr>"
    and "jr_role resp = i_role i" and "jr_org_id resp = i_org_id i"
proof -
  from assms(2) obtain org role i w1 where adm: "join_admit e s u raw w = (Inr (org, role, i), w1)"
    and com: "join_commit e s u raw org role i w1 = (Inr resp, w')"
    by (auto simp: JoinViaToken_def prog_simps split: if_splits)
  note a = join_admit_Inr[OF assms(1) adm]
  have "pg_uuid e (i_id i) = Some (i_id i)" using a assms(1) by (auto simp: org_inv_def canon_def)
  with com show thesis
    by (rule join_commit_Inr) (use a that[of i] in auto)
qed

lemma join_refused:
  assumes "raw \<noteq> []" and "i \<in> set (org_invites (db v))" and "i_token_hash i = H raw"
    and "\<forall>j \<in> set (org_invites (db v)). i_token_hash j = H raw \<longrightarrow> i_accepted_at j \<noteq> None"
  shows "\<exists>x v'. JoinViaToken e s u raw v = (Inl x, v') \<and> db v' = db v \<and>
    (x = OrgE InviteAlreadyAccepted \<or> (\<exists>m. x = PgE (OtherPg m)))"
proof -
  obtain r v1 where look: "lookupInviteTokenInCache s raw v = (r, v1)" by fastforce
  have v1: "db v1 = db v" using lookup_world(1)[OF look] .
  obtain j where j: "find (\<lambda>i. i_token_hash i = H raw) (org_invites (db v1)) = Some j"
    using assms(2,3) v1 by (cases "find (\<lambda>i. i_token_hash i = H raw) (org_invites (db v1))")
      (auto simp: find_None_iff)
  then have acc: "i_accepted_at j \<noteq> None" using find_Some_D[OF j] assms(4) v1 by simp
  have get: "GetInviteByToken e (H raw) v1 =
      ((case pg_fault e (tick v1) of Some f \<Rightarrow> Inl (PgE (OtherPg f)) | None \<Rightarrow> Inr j), v1\<lparr>tick := Suc (tick v1)\<rparr>)"
    by (simp only: GetInviteByToken_eq j option.case)
  show ?thesis
  proof (cases "pg_fault e (tick v1)")
    case None
    then obtain org role where "lookupInvite e s raw v = (Inr (org, role, j), v1\<lparr>tick := Suc (tick v1)\<rparr>)"
      using look get by (cases r) (auto simp: lookupInvite_def attempt_def call_def ret_def)
    then show ?thesis
      using acc assms(1) v1 by (simp add: JoinViaToken_def join_admit_def call_def fail_def)
  next
    case (Some f)
    then have "lookupInvite e s raw v = (Inl (PgE (OtherPg f)), v1\<lparr>tick := Suc (tick v1)\<rparr>)"
      using look get by (cases r) (auto simp: lookupInvite_def attempt_def call_def)
    then show ?thesis
      using assms(1) v1 by (simp add: JoinViaToken_def join_admit_def call_def)
  qed
qed

end

end
