(* ===== verification/Org_Props.thy ===== *)
theory Org_Props
  imports Org_Contract
begin

text \<open>
  What internal/org promises, for the service as cmd/api wires it: ownership, who may invite,
  what an invitation grants, and where two people can share one.
\<close>

section \<open>The service as cmd/api wires it\<close>

definition main_org_service ::
    "env \<Rightarrow> jwt_lib \<Rightarrow> JWTService \<Rightarrow> InviteTokenPayload codec \<Rightarrow> 'r redis_client \<Rightarrow> bool \<Rightarrow> 'r OrgService" where
  "main_org_service e L j J C b =
     \<lparr>os_tokens = jwt_manager e L j, os_cache = Some (RedisInviteCache e J (store_of C b))\<rparr>"

lemma main_org_hash: "HashToken (os_tokens (main_org_service e L j J C b)) = jwt_HashToken e"
  by (simp add: main_org_service_def jwt_manager_def)

context redis_server
begin

lemma main_org: "codec_law J \<Longrightarrow> uuid_law e \<Longrightarrow>
    org_service (main_org_service e L j J C b) e (invite_view kspace J)"
  by (intro org_service.intro org_service_axioms.intro)
     (auto simp: main_org_service_def jwt.token_manager_axioms redis_invite_cache)

end

text \<open>A request to the service, and the world it leaves\<close>

datatype org_op =
    OpCreate string string
  | OpInvite string string string string
  | OpJoinToken string string
  | OpNewCode string string
  | OpJoinCode string string

fun org_exec :: "env \<Rightarrow> 'r OrgService \<Rightarrow> org_op \<Rightarrow> 'r world \<Rightarrow> 'r world" where
  "org_exec e s (OpCreate u name) w = snd (CreateOrganization e s u name w)"
| "org_exec e s (OpInvite org u em role) w = snd (SendEmailInvite e s org u em role w)"
| "org_exec e s (OpJoinToken u tok) w = snd (JoinViaToken e s u tok w)"
| "org_exec e s (OpNewCode org u) w = snd (GenerateInviteCode e s org u w)"
| "org_exec e s (OpJoinCode u code) w = snd (JoinViaCode e s u code w)"

context org_service
begin

lemma exec_inv: "Inv w \<Longrightarrow> Inv (org_exec e s op w)"
  using inv_CreateOrganization inv_SendEmailInvite inv_JoinViaToken inv_GenerateInviteCode inv_JoinViaCode
  by (cases op) (simp_all add: keeps_def)

lemma exec_all_inv: "Inv w \<Longrightarrow> Inv (fold (org_exec e s) ops w)"
  by (induction ops arbitrary: w) (simp_all add: exec_inv)

lemma not_admin:
  assumes "\<not> has_role IsAdminRole e (db w) org u"
  shows "\<exists>x w'. SendEmailInvite e s org u em role w = (Inl x, w') \<and> db w' = db w \<and> redis w' = redis w"
    and "\<exists>x w'. GenerateInviteCode e s org u w = (Inl x, w') \<and> db w' = db w \<and> redis w' = redis w"
proof -
  obtain r w1 where g: "GetOrgMemberRole e org u w = (r, w1)" by fastforce
  have q: "db w1 = db w \<and> redis w1 = redis w" using quietD[OF quiet_GetOrgMemberRole g] by simp
  have "\<not> IsAdminRole ro" if "r = Inr ro" for ro
    using GetOrgMemberRole_not[OF assms] g that by simp
  then show "\<exists>x w'. SendEmailInvite e s org u em role w = (Inl x, w') \<and> db w' = db w \<and> redis w' = redis w"
    and "\<exists>x w'. GenerateInviteCode e s org u w = (Inl x, w') \<and> db w' = db w \<and> redis w' = redis w"
    using g q by (cases r; simp add: SendEmailInvite_def GenerateInviteCode_def call_def fail_def)+
qed

end

text \<open>Two joins with one token, interleaved: both check, then both write.\<close>

definition concurrent_joins ::
    "env \<Rightarrow> 'r OrgService \<Rightarrow> string \<Rightarrow> string \<Rightarrow> string \<Rightarrow> ('r, JoinResponse) app" where
  "concurrent_joins e s u1 u2 rawToken =
     call (join_admit e s u1 rawToken) (\<lambda>(org1, role1, invite1).
     call (join_admit e s u2 rawToken) (\<lambda>(org2, role2, invite2).
     call (join_commit e s u1 rawToken org1 role1 invite1) (\<lambda>_.
     join_commit e s u2 rawToken org2 role2 invite2)))"

section \<open>Sample data\<close>

definition sample_org_db :: database where
  "sample_org_db = empty_db
     \<lparr>users :=
        [\<lparr>u_id = ''alice'', u_email = ''a@b'', u_password_hash = [], u_created_at = 0\<rparr>,
         \<lparr>u_id = ''bob'', u_email = ''b@b'', u_password_hash = [], u_created_at = 0\<rparr>,
         \<lparr>u_id = ''carol'', u_email = ''c@b'', u_password_hash = [], u_created_at = 0\<rparr>],
      organizations := [\<lparr>o_id = ''org'', o_name = ''Org'', o_created_by = ''alice'', o_created_at = 0, o_updated_at = 0\<rparr>],
      org_members := [\<lparr>m_org_id = ''org'', m_user_id = ''alice'', m_role = ''owner'', m_joined_at = 0\<rparr>],
      org_invites := [\<lparr>i_id = ''i1'', i_org_id = ''org'', i_invited_by = ''alice'', i_email = ''b@b'',
        i_role = ''developer'', i_token_hash = ''61'', i_expires_at = 50000000000, i_accepted_at = None,
        i_created_at = 0\<rparr>]\<rparr>"

definition payload_codec :: "InviteTokenPayload codec" where
  "payload_codec =
     \<lparr>Marshal = (\<lambda>p. net_enc_list [P_InviteID p, P_OrgID p, P_Email p, P_Role p]),
      Unmarshal = (\<lambda>s. case net_dec_list 4 s of
         Some [i, org, em, role] \<Rightarrow> Some \<lparr>P_InviteID = i, P_OrgID = org, P_Email = em, P_Role = role\<rparr>
       | _ \<Rightarrow> None)\<rparr>"

lemma payload_codec_law: "codec_law payload_codec"
  using net_dec_enc_list[of "[a, b, c, d]" for a b c d]
  by (simp add: codec_law_def payload_codec_def numeral_eq_Suc)

definition sample_org_world :: "keyspace world" where
  "sample_org_world = \<lparr>db = sample_org_db, redis = Map.empty, tick = 0\<rparr>"

abbreviation sample_org_service :: "keyspace OrgService" where
  "sample_org_service \<equiv>
     main_org_service sample_env sample_jwt \<lparr>secret = ''k'', expiryHours = 1\<rparr> payload_codec up_client True"

lemma sample_org_inv:
  "org_inv sample_env (jwt_HashToken sample_env) (invite_view id payload_codec) sample_org_db Map.empty"
  by (simp add: org_inv_def ok_defs owners_ok_def canon_def sample_org_db_def empty_db_def role_in_def
      RoleOwner_def active_names_def invite_view_def live_def sample_env_simps)

lemma sample_org_world_inv:
  "org_inv sample_env (jwt_HashToken sample_env) (invite_view id payload_codec)
     (db sample_org_world) (redis sample_org_world)"
  by (simp add: sample_org_world_def sample_org_inv)

lemmas org_run =
  CreateOrganization_def SendEmailInvite_def JoinViaToken_def GenerateInviteCode_def JoinViaCode_def
  join_admit_def join_commit_def lookupInvite_def checkNotMember_def lookupInviteTokenInCache_def
  storeInviteTokenInCache_def deleteInviteTokenFromCache_def org_repo_defs RedisInviteCache_def
  inviteTokenKeyPref_def main_org_service_def jwt_manager_def jwt_HashToken_def EncodeToString_def
  role_in_def accept_invite_def sample_org_db_def sample_org_world_def run_defs

lemma sample_join:
  "\<exists>resp w'. JoinViaToken sample_env sample_org_service ''bob'' ''a'' sample_org_world = (Inr resp, w')"
  by (simp add: org_run role_defs varchar_def rune_count_ascii ascii_def run_rules cong: run_congs)

section \<open>Properties\<close>

text \<open>
  Whatever sequence of requests the service gets, every organization has its creator as
  owner, nobody else owns one, and the invitation cache agrees with the table.
\<close>

theorem org_requests_keep:
  assumes "redis_server C kspace" and "codec_law J" and "uuid_law e"
    and "org_inv e (jwt_HashToken e) (invite_view kspace J) (db w) (redis w)"
  shows "let w' = fold (org_exec e (main_org_service e L j J C b)) ops w in
    org_inv e (jwt_HashToken e) (invite_view kspace J) (db w') (redis w') \<and>
    (\<forall>m \<in> set (org_members (db w')). m_role m = RoleOwner \<longrightarrow>
       (\<exists>x \<in> set (organizations (db w')). o_id x = m_org_id m \<and> o_created_by x = m_user_id m))"
  using org_service.exec_all_inv[OF redis_server.main_org[OF assms(1-3), where L = L and j = j and b = b],
      where w = w and ops = ops] assms(4)
  by (simp add: main_org_hash org_inv_def owners_ok_def Let_def)

theorem org_requests_keep_witness:
  "let w' = fold (org_exec sample_env sample_org_service)
     [OpJoinToken ''bob'' ''a'', OpInvite ''org'' ''alice'' ''c@b'' ''admin'', OpCreate ''bob'' ''Other'']
     sample_org_world in
   \<forall>m \<in> set (org_members (db w')). m_role m = RoleOwner \<longrightarrow>
     (\<exists>x \<in> set (organizations (db w')). o_id x = m_org_id m \<and> o_created_by x = m_user_id m)"
  using org_requests_keep[OF up.redis_server_axioms payload_codec_law sample_uuid_law sample_org_world_inv,
      where ops = "[OpJoinToken ''bob'' ''a'', OpInvite ''org'' ''alice'' ''c@b'' ''admin'', OpCreate ''bob'' ''Other'']"
        and L = sample_jwt and j = "\<lparr>secret = ''k'', expiryHours = 1\<rparr>" and b = True]
  unfolding Let_def by (rule conjunct2)



text \<open>
  C20: once a token has joined somebody, nobody joins with it again, as long as the
  invitations are as the first join left them: the second attempt is refused and changes
  nothing.
\<close>

theorem JoinViaToken_once:
  assumes "redis_server C kspace" and "codec_law J" and "uuid_law e"
    and "org_inv e (jwt_HashToken e) (invite_view kspace J) (db w) (redis w)"
    and "JoinViaToken e (main_org_service e L j J C b) u raw w = (Inr resp, w')"
    and "org_invites (db v) = org_invites (db w')"
  shows "\<exists>x v'. JoinViaToken e (main_org_service e L j J C b) u' raw v = (Inl x, v') \<and> db v' = db v \<and>
    (x = OrgE InviteAlreadyAccepted \<or> (\<exists>m. x = PgE (OtherPg m)))"
proof (rule org_service.JoinViaToken_Inr[OF redis_server.main_org[OF assms(1-3)] _ assms(5)])
  show "org_inv e (HashToken (os_tokens (main_org_service e L j J C b))) (invite_view kspace J) (db w) (redis w)"
    using assms(4) by (simp add: main_org_hash)
  fix i uid now now'
  assume i: "i \<in> set (org_invites (db w))" "i_token_hash i = HashToken (os_tokens (main_org_service e L j J C b)) raw"
    and d: "db w' = (db w)\<lparr>org_members := org_members (db w) @
        [\<lparr>m_org_id = i_org_id i, m_user_id = uid, m_role = i_role i, m_joined_at = now\<rparr>],
      org_invites := accept_invite (i_id i) now' (org_invites (db w))\<rparr>"
  have inv: "org_invites (db v) = accept_invite (i_id i) now' (org_invites (db w))" using assms(6) d by simp
  have dist: "distinct (map i_token_hash (org_invites (db w)))"
    using assms(4) by (simp add: org_inv_def ok_defs)
  have "i_accepted_at j \<noteq> None"
    if jm: "j \<in> set (org_invites (db v))" and jh: "i_token_hash j = i_token_hash i" for j
  proof -
    obtain k where k: "k \<in> set (org_invites (db w))"
      and j: "j = (if i_id k = i_id i \<and> i_accepted_at k = None then k\<lparr>i_accepted_at := Some now'\<rparr> else k)"
      using jm unfolding inv accept_invite_def set_map by (elim imageE) blast
    then have "k = i" using distinct_map_eq[OF dist k i(1)] jh by (simp split: if_splits)
    then show ?thesis using j by auto
  qed
  then have acc: "\<forall>j \<in> set (org_invites (db v)). i_token_hash j =
      HashToken (os_tokens (main_org_service e L j' J C b)) raw \<longrightarrow> i_accepted_at j \<noteq> None" for j'
    using i(2) by (simp add: main_org_hash)
  have "i_token_hash i \<in> i_token_hash ` set (org_invites (db v))"
    unfolding inv set_map[symmetric] using i(1) by (simp add: accept_invite_map)
  then obtain k where "k \<in> set (org_invites (db v))"
    and "i_token_hash k = HashToken (os_tokens (main_org_service e L j J C b)) raw"
    using i(2) by auto
  moreover have "raw \<noteq> []" using assms(5) by (auto simp: JoinViaToken_def fail_def)
  ultimately show ?thesis
    using org_service.join_refused[OF redis_server.main_org[OF assms(1-3)] _ _ _ acc] by blast
qed

theorem JoinViaToken_once_witness:
  "\<exists>resp w' x v'. JoinViaToken sample_env sample_org_service ''bob'' ''a'' sample_org_world = (Inr resp, w') \<and>
    JoinViaToken sample_env sample_org_service ''carol'' ''a'' w' = (Inl x, v')"
proof -
  obtain resp w' where r: "JoinViaToken sample_env sample_org_service ''bob'' ''a'' sample_org_world =
      (Inr resp, w')" using sample_join by blast
  from JoinViaToken_once[OF up.redis_server_axioms payload_codec_law sample_uuid_law _ r refl] sample_org_inv r
  show ?thesis by (simp add: sample_org_world_def) blast
qed

text \<open>
  C23: two people can join with one invitation: the check that it is open and the update that
  closes it are separate statements, and the join ignores the update's report that the
  invitation was accepted meanwhile. Here both requests check before either writes.
\<close>

theorem JoinViaToken_race:
  "\<exists>resp w'. concurrent_joins sample_env sample_org_service ''bob'' ''carol'' ''a'' sample_org_world =
      (Inr resp, w') \<and>
    length (org_members (db w')) = length (org_members (db sample_org_world)) + 2"
  by (simp add: concurrent_joins_def org_run role_defs varchar_def rune_count_ascii ascii_def run_rules
      cong: run_congs)

text \<open>
  C21: only owners and administrators invite: a request for an invitation or a join code by
  anybody else fails and changes neither the database nor Redis.
\<close>

theorem invites_need_admin:
  assumes "redis_server C kspace" and "codec_law J" and "uuid_law e"
    and "\<not> has_role IsAdminRole e (db w) org u"
  shows "(\<exists>x w'. SendEmailInvite e (main_org_service e L j J C b) org u em role w = (Inl x, w') \<and>
      db w' = db w \<and> redis w' = redis w) \<and>
    (\<exists>x w'. GenerateInviteCode e (main_org_service e L j J C b) org u w = (Inl x, w') \<and>
      db w' = db w \<and> redis w' = redis w)"
  using org_service.not_admin[OF redis_server.main_org[OF assms(1-3)] assms(4)] by blast

theorem invites_need_admin_witness:
  "\<exists>x w'. SendEmailInvite sample_env sample_org_service ''org'' ''bob'' ''c@b'' ''admin'' sample_org_world =
    (Inl x, w')"
proof -
  have "\<not> has_role IsAdminRole sample_env (db sample_org_world) ''org'' ''bob''"
    by (simp add: has_role_def role_of_def sample_org_world_def sample_org_db_def role_in_def sample_env_simps)
  from invites_need_admin[OF up.redis_server_axioms payload_codec_law sample_uuid_law this] show ?thesis
    by blast
qed

text \<open>
  C22: an organization comes with its owner or not at all: a successful request adds the
  organization and the membership of its creator as owner, a failing one leaves the database
  as it was.
\<close>

theorem CreateOrganization_atomic:
  assumes "uuid_law e" and "CreateOrganization e s u name w = (r, w')"
  shows "case r of
      Inl x \<Rightarrow> db w' = db w
    | Inr resp \<Rightarrow> co_name resp = name \<and> co_role resp = RoleOwner \<and>
        (\<exists>org now. o_id org = co_id resp \<and> o_name org = name \<and> pg_uuid e u = Some (o_created_by org) \<and>
          co_id resp \<notin> o_id ` set (organizations (db w)) \<and>
          db w' = (db w)\<lparr>organizations := organizations (db w) @ [org],
            org_members := org_members (db w) @
              [\<lparr>m_org_id = co_id resp, m_user_id = o_created_by org, m_role = RoleOwner, m_joined_at = now\<rparr>]\<rparr>)"
proof (cases r)
  case (Inl x)
  then show ?thesis
    using assms(2) by (auto simp: CreateOrganization_def prog_simps dest: CreateOrg_Inl split: if_splits)
next
  case (Inr resp)
  then obtain org where c: "CreateOrg e name u w = (Inr org, w')"
    and resp: "resp = \<lparr>co_id = o_id org, co_name = o_name org, co_created_by = o_created_by org,
      co_created_at = o_created_at org, co_role = RoleOwner\<rparr>"
    using assms(2) by (auto simp: CreateOrganization_def prog_simps split: if_splits)
  show ?thesis
    by (rule CreateOrg_Inr[OF assms(1) c]) (use Inr resp in auto)
qed

theorem CreateOrganization_atomic_witness:
  "\<exists>resp w'. CreateOrganization sample_env sample_org_service ''bob'' ''New'' sample_org_world = (Inr resp, w') \<and>
    length (org_members (db w')) = 2"
proof -
  obtain resp w' where r: "CreateOrganization sample_env sample_org_service ''bob'' ''New'' sample_org_world =
      (Inr resp, w')"
    by (simp add: org_run role_defs varchar_def rune_count_ascii ascii_def run_rules cong: run_congs)
  from CreateOrganization_atomic[OF sample_uuid_law r] r show ?thesis
    by (auto simp: sample_org_world_def sample_org_db_def empty_db_def)
qed

end
