(* ===== verification/Go_Json.thy ===== *)
theory Go_Json
  imports Go_Strings
begin

text \<open>
  The part of \<open>encoding/json\<close> that writes strings and objects of strings: quotes, backslashes,
  control characters and the HTML characters are escaped, an invalid byte becomes the
  replacement character, and the line separators are written as escapes.
\<close>

definition hex4 :: "nat \<Rightarrow> string" where
  "hex4 n = ''00'' @ [hex_digits ! (n div 16), hex_digits ! (n mod 16)]"

text \<open>One byte below 128\<close>

definition json_escape :: "char \<Rightarrow> string" where
  "json_escape c =
     (let n = (of_char c :: nat) in
      if c = CHR 0x22 then [CHR 0x5C, CHR 0x22]
      else if c = CHR 0x5C then [CHR 0x5C, CHR 0x5C]
      else if n = 8 then [CHR 0x5C, CHR ''b'']
      else if n = 12 then [CHR 0x5C, CHR ''f'']
      else if n = 10 then [CHR 0x5C, CHR ''n'']
      else if n = 13 then [CHR 0x5C, CHR ''r'']
      else if n = 9 then [CHR 0x5C, CHR ''t'']
      else if n < 32 \<or> c \<in> set ''<>&'' then CHR 0x5C # CHR ''u'' # hex4 n
      else [c])"

function json_chars :: "string \<Rightarrow> string" where
  "json_chars s =
     (case s of
        [] \<Rightarrow> []
      | c # r \<Rightarrow>
          if ascii c then json_escape c @ json_chars r
          else
            let k = rune_len s in
            (if k = 1 then CHR 0x5C # ''ufffd''
             else if take k s = [CHR 0xE2, CHR 0x80, CHR 0xA8] then CHR 0x5C # ''u2028''
             else if take k s = [CHR 0xE2, CHR 0x80, CHR 0xA9] then CHR 0x5C # ''u2029''
             else take k s) @ json_chars (drop k s))"
  by pat_completeness auto
termination
  by (relation "measure length") (auto simp: rune_len_pos simp del: rune_len.simps)

declare json_chars.simps [simp del]

definition json_string :: "string \<Rightarrow> string" where
  "json_string s = CHR 0x22 # json_chars s @ [CHR 0x22]"

text \<open>A plain string is copied between quotes.\<close>

definition plain :: "char \<Rightarrow> bool" where
  "plain c \<longleftrightarrow> ascii c \<and> json_escape c = [c]"

lemma json_chars_plain: "list_all plain s \<Longrightarrow> json_chars s = s"
  by (induction s) (subst json_chars.simps, simp add: plain_def)+

end
