(* ===== verification/Audit_Log.thy ===== *)
theory Audit_Log
  imports Go_Json Sample
begin

text \<open>
  internal/audit: the writer of audit events. Its contract, the locale \<open>audit_writer\<close>, is what
  the services rely on: writing an event appends at most one row to the table of events and
  touches nothing else.
\<close>

record Event =
  ev_OrgID :: string
  ev_ActorID :: string
  ev_ActorType :: string
  ev_Action :: string
  ev_ResourceType :: string
  ev_ResourceID :: string
  ev_Metadata :: json_object
  ev_IPAddress :: string

type_synonym 'r Writer = "Event \<Rightarrow> ('r, unit) app"

definition ActorTypeUser :: string where "ActorTypeUser = ''user''"

text \<open>\<open>nullUUID\<close>: the empty string is NULL, any other text must be a UUID.\<close>

definition nullUUID :: "env \<Rightarrow> string \<Rightarrow> (string option \<Rightarrow> 'a stmt) \<Rightarrow> 'a stmt" where
  "nullUUID e value q = (if value = [] then q None else with_uuid e value (\<lambda>i. q (Some i)))"

text \<open>\<open>NULLIF($8, '')::inet\<close>\<close>

definition null_inet :: "env \<Rightarrow> string \<Rightarrow> (string option \<Rightarrow> 'a stmt) \<Rightarrow> 'a stmt" where
  "null_inet e value q =
     (if value = [] then q None
      else case pg_inet e value of
             None \<Rightarrow> (\<lambda>now i d. (Inl (OtherPg ''22P02''), d))
           | Some a \<Rightarrow> q (Some a))"

definition PostgresWriter :: "env \<Rightarrow> 'r Writer" where
  "PostgresWriter e event =
     (let actorType = (if ev_ActorType event = [] then ActorTypeUser else ev_ActorType event) in
      pg e (nullUUID e (ev_OrgID event) (\<lambda>org. nullUUID e (ev_ActorID event) (\<lambda>actor.
        nullUUID e (ev_ResourceID event) (\<lambda>res. null_inet e (ev_IPAddress event) (\<lambda>ip now i d.
          returning (\<lambda>_. ()) (insert_audit_event
            \<lparr>a_id = i, a_org_id = org, a_actor_id = actor, a_actor_type = actorType,
             a_action = ev_Action event, a_resource_type = ev_ResourceType event,
             a_resource_id = res, a_metadata = ev_Metadata event, a_ip_address = ip,
             a_created_at = now\<rparr> d)))))))"

section \<open>The contract\<close>

definition audit_grows :: "database \<Rightarrow> database \<Rightarrow> bool" where
  "audit_grows d d' \<longleftrightarrow> d' = d \<or> (\<exists>a. d' = d\<lparr>audit_events := audit_events d @ [a]\<rparr>)"

locale audit_writer =
  fixes W :: "'r Writer"
  assumes appends: "W ev w = (r, w') \<Longrightarrow> audit_grows (db w) (db w')"
    and redis_same: "W ev w = (r, w') \<Longrightarrow> redis w' = redis w"
    and keeps_ok: "keeps_db db_ok (W ev)"

lemma stmt_grows_nullUUID:
  assumes "\<And>i. stmt_keeps P (q i)"
  shows "stmt_keeps P (nullUUID e v q)"
  using assms stmt_keeps_with_uuid[of P "\<lambda>i. q (Some i)" e v] by (simp add: nullUUID_def)

lemma stmt_grows_inet:
  assumes "\<And>i. stmt_keeps P (q i)"
  shows "stmt_keeps P (null_inet e v q)"
  using assms by (simp add: null_inet_def stmt_keeps_def split: option.split)

lemmas audit_stmts = stmt_grows_nullUUID stmt_grows_inet

lemma insert_audit_grows:
  "insert_audit_event a d = (r, d') \<Longrightarrow> audit_grows d d'"
  by (auto simp: insert_audit_event_def constrained_def audit_grows_def split: if_splits)

lemma audit_events_once:
  "(\<And>org actor res ip now i d r d'. q org actor res ip now i d = (r, d') \<Longrightarrow> audit_grows d d') \<Longrightarrow>
   nullUUID e a (\<lambda>org. nullUUID e b (\<lambda>actor. nullUUID e c (\<lambda>res. null_inet e ip (q org actor res)))) now i d
     = (r, d') \<Longrightarrow> audit_grows d d'"
  by (auto simp: nullUUID_def null_inet_def with_uuid_def audit_grows_def split: if_splits option.splits)

interpretation pg_audit: audit_writer "PostgresWriter e"
proof (unfold_locales, goal_cases)
  case (1 ev w r w')
  have grows: "audit_grows d d'"
    if "returning (\<lambda>_. ()) (insert_audit_event a d) = (r', d')" for a d r' d'
    using that insert_audit_grows[of a d "fst (insert_audit_event a d)" d'] by (auto simp: returning_def)
  show ?case
  proof (cases r)
    case (Inl x)
    then show ?thesis using 1 by (auto simp: PostgresWriter_def Let_def audit_grows_def dest: pg_Inl_db)
  next
    case (Inr u)
    then obtain d where "nullUUID e (ev_OrgID ev) (\<lambda>org. nullUUID e (ev_ActorID ev) (\<lambda>actor.
        nullUUID e (ev_ResourceID ev) (\<lambda>res. null_inet e (ev_IPAddress ev) (\<lambda>ip now i d.
          returning (\<lambda>_. ()) (insert_audit_event
            \<lparr>a_id = i, a_org_id = org, a_actor_id = actor,
             a_actor_type = (if ev_ActorType ev = [] then ActorTypeUser else ev_ActorType ev),
             a_action = ev_Action ev, a_resource_type = ev_ResourceType ev,
             a_resource_id = res, a_metadata = ev_Metadata ev, a_ip_address = ip,
             a_created_at = now\<rparr> d))))) (clk e (tick w)) (uuid e (tick w)) (db w) = (Inr u, d)"
      and "db w' = d"
      using 1 by (auto simp: PostgresWriter_def Let_def pg_Inr)
    then show ?thesis by (auto dest: audit_events_once[rotated] grows)
  qed
next
  case (2 ev w r w')
  then show ?case by (auto simp: PostgresWriter_def Let_def dest: pg_redis)
next
  case (3 ev)
  then show ?case
    by (auto simp: PostgresWriter_def Let_def intro!: keeps_intros audit_stmts elim: insert_ok)
qed

end
