(* ===== verification/Service.thy ===== *)
theory Service
  imports Audit_Log Api_Key Org
begin

text \<open>
  internal/service: the services of an organization and their API keys. The repository's
  queries, the service with its audit trail, its access check and its cache invalidation, the
  handlers, and the middleware that checks the role.
\<close>

section \<open>Roles\<close>

definition IsDeveloperRole :: "string \<Rightarrow> bool" where
  "IsDeveloperRole role \<longleftrightarrow> role = RoleOwner \<or> role = RoleAdmin \<or> role = RoleDeveloper"

section \<open>Rows and messages\<close>

record RegisteredService =
  rs_ID :: string
  rs_OrgID :: string
  rs_Name :: string
  rs_Description :: string
  rs_CreatedBy :: string
  rs_CreatedAt :: time
  rs_UpdatedAt :: time
  rs_DeletedAt :: "time option"

record APIKey =
  ak_ID :: string
  ak_ServiceID :: string
  ak_OrgID :: string
  ak_Prefix :: string
  ak_KeyHash :: string
  ak_Label :: string
  ak_CreatedBy :: string
  ak_CreatedAt :: time
  ak_RevokedAt :: "time option"
  ak_LastUsedAt :: "time option"
  ak_RotatedFromID :: string

record ServiceResponse =
  sr_ID :: string
  sr_OrgID :: string
  sr_Name :: string
  sr_Description :: string
  sr_CreatedBy :: string
  sr_CreatedAt :: time
  sr_UpdatedAt :: time
  sr_ActiveAPIKeysCount :: "int option"

record CreateAPIKeyResponse =
  ck_ID :: string
  ck_ServiceID :: string
  ck_Prefix :: string
  ck_APIKey :: string
  ck_Label :: string
  ck_CreatedAt :: time
  ck_CreatedBy :: string

record APIKeyResponse =
  kr_ID :: string
  kr_ServiceID :: string
  kr_Prefix :: string
  kr_Label :: string
  kr_CreatedAt :: time
  kr_CreatedBy :: string
  kr_RevokedAt :: "time option"
  kr_LastUsedAt :: "time option"

definition toServiceResponse :: "RegisteredService \<Rightarrow> int option \<Rightarrow> ServiceResponse" where
  "toServiceResponse svc activeKeys =
     \<lparr>sr_ID = rs_ID svc, sr_OrgID = rs_OrgID svc, sr_Name = rs_Name svc,
      sr_Description = rs_Description svc, sr_CreatedBy = rs_CreatedBy svc,
      sr_CreatedAt = rs_CreatedAt svc, sr_UpdatedAt = rs_UpdatedAt svc,
      sr_ActiveAPIKeysCount = activeKeys\<rparr>"

definition toAPIKeyResponse :: "APIKey \<Rightarrow> APIKeyResponse" where
  "toAPIKeyResponse key =
     \<lparr>kr_ID = ak_ID key, kr_ServiceID = ak_ServiceID key, kr_Prefix = ak_Prefix key,
      kr_Label = ak_Label key, kr_CreatedAt = ak_CreatedAt key, kr_CreatedBy = ak_CreatedBy key,
      kr_RevokedAt = ak_RevokedAt key, kr_LastUsedAt = ak_LastUsedAt key\<rparr>"

section \<open>Repository\<close>

definition nullString :: "string \<Rightarrow> string option" where
  "nullString value = (if value = [] then None else Some value)"

definition coalesce :: "string option \<Rightarrow> string" where
  "coalesce v = (case v of None \<Rightarrow> [] | Some s \<Rightarrow> s)"

text \<open>The columns every service query returns, and those every key query returns\<close>

definition scan_service :: "ServiceRow \<Rightarrow> RegisteredService" where
  "scan_service s =
     \<lparr>rs_ID = s_id s, rs_OrgID = s_org_id s, rs_Name = s_name s,
      rs_Description = coalesce (s_description s), rs_CreatedBy = s_created_by s,
      rs_CreatedAt = s_created_at s, rs_UpdatedAt = s_updated_at s, rs_DeletedAt = s_deleted_at s\<rparr>"

definition scan_key :: "APIKeyRow \<Rightarrow> APIKey" where
  "scan_key k =
     \<lparr>ak_ID = k_id k, ak_ServiceID = k_service_id k, ak_OrgID = k_org_id k, ak_Prefix = k_prefix k,
      ak_KeyHash = k_key_hash k, ak_Label = coalesce (k_label k), ak_CreatedBy = k_created_by k,
      ak_CreatedAt = k_created_at k, ak_RevokedAt = k_revoked_at k, ak_LastUsedAt = k_last_used_at k,
      ak_RotatedFromID = coalesce (k_rotated_from_id k)\<rparr>"

definition repo_CreateService ::
    "env \<Rightarrow> string \<Rightarrow> string \<Rightarrow> string \<Rightarrow> string \<Rightarrow> ('r, RegisteredService) app" where
  "repo_CreateService e orgID name description createdBy =
     on_unique (SvcE DuplicateServiceName)
       (pg e (with_uuid e orgID (\<lambda>oid. with_uuid e createdBy (\<lambda>uid now i d.
          returning scan_service (insert_service
            \<lparr>s_id = i, s_org_id = oid, s_name = name, s_description = nullString description,
             s_created_by = uid, s_created_at = now, s_updated_at = now, s_deleted_at = None\<rparr> d)))))"

text \<open>The rows a query by service and organization addresses\<close>

definition live_service :: "string \<Rightarrow> string \<Rightarrow> ServiceRow \<Rightarrow> bool" where
  "live_service sid oid s \<longleftrightarrow> s_id s = sid \<and> s_org_id s = oid \<and> s_deleted_at s = None"

definition GetServiceByID :: "env \<Rightarrow> string \<Rightarrow> string \<Rightarrow> ('r, RegisteredService) app" where
  "GetServiceByID e orgID serviceID =
     on_no_rows (SvcE ServiceNotFound)
       (pg e (with_uuid e serviceID (\<lambda>sid. with_uuid e orgID (\<lambda>oid now i d.
          returning scan_service (select_row services (live_service sid oid) now i d)))))"

definition ListServicesByOrgID :: "env \<Rightarrow> string \<Rightarrow> ('r, RegisteredService list) app" where
  "ListServicesByOrgID e orgID =
     pg e (with_uuid e orgID (\<lambda>oid. select_val (\<lambda>d.
       map scan_service (sort_key (\<lambda>s. - s_created_at s)
         (filter (\<lambda>s. s_org_id s = oid \<and> s_deleted_at s = None) (services d))))))"

definition update_service ::
    "string \<Rightarrow> string \<Rightarrow> string \<Rightarrow> string option \<Rightarrow> ServiceRow stmt" where
  "update_service sid oid name description now i d =
     (case find (live_service sid oid) (services d) of
        None \<Rightarrow> (Inl NoRows, d)
      | Some s \<Rightarrow>
          let s' = s\<lparr>s_name := name, s_description := description, s_updated_at := now\<rparr> in
          constrained (varchar 255 name) True
            (name_free oid name (filter (\<lambda>x. s_id x \<noteq> sid) (services d))) True
            s' d (d\<lparr>services := map (\<lambda>x. if live_service sid oid x then s' else x) (services d)\<rparr>))"

definition repo_UpdateService ::
    "env \<Rightarrow> string \<Rightarrow> string \<Rightarrow> string \<Rightarrow> string \<Rightarrow> ('r, RegisteredService) app" where
  "repo_UpdateService e orgID serviceID name description =
     on_unique (SvcE DuplicateServiceName) (on_no_rows (SvcE ServiceNotFound)
       (pg e (with_uuid e serviceID (\<lambda>sid. with_uuid e orgID (\<lambda>oid now i d.
          returning scan_service (update_service sid oid name (nullString description) now i d))))))"

text \<open>The rows it marks; the number of rows affected\<close>

definition soft_delete :: "string \<Rightarrow> string \<Rightarrow> nat stmt" where
  "soft_delete sid oid now i d =
     (Inr (length (filter (live_service sid oid) (services d))),
      d\<lparr>services := map (\<lambda>s. if live_service sid oid s
          then s\<lparr>s_deleted_at := Some now, s_updated_at := now\<rparr> else s) (services d)\<rparr>)"

definition SoftDeleteService :: "env \<Rightarrow> string \<Rightarrow> string \<Rightarrow> ('r, unit) app" where
  "SoftDeleteService e orgID serviceID =
     call (pg e (with_uuid e serviceID (\<lambda>sid. with_uuid e orgID (\<lambda>oid. soft_delete sid oid))))
       (\<lambda>n. if n = 0 then fail (SvcE ServiceNotFound) else ret ())"

definition active_keys :: "database \<Rightarrow> string \<Rightarrow> int" where
  "active_keys d sid =
     int (length (filter (\<lambda>k. k_service_id k = sid \<and> k_revoked_at k = None) (service_api_keys d)))"

definition CountActiveAPIKeysByServiceID :: "env \<Rightarrow> string \<Rightarrow> ('r, int) app" where
  "CountActiveAPIKeysByServiceID e serviceID =
     pg e (with_uuid e serviceID (\<lambda>sid. select_val (\<lambda>d. active_keys d sid)))"

text \<open>The parameters of a new key\<close>

record NewKey =
  nk_ServiceID :: string
  nk_OrgID :: string
  nk_Prefix :: string
  nk_KeyHash :: string
  nk_Label :: string
  nk_CreatedBy :: string

definition insert_new_key :: "env \<Rightarrow> NewKey \<Rightarrow> string option \<Rightarrow> APIKey stmt" where
  "insert_new_key e key rotated =
     with_uuid e (nk_ServiceID key) (\<lambda>sid. with_uuid e (nk_OrgID key) (\<lambda>oid.
     with_uuid e (nk_CreatedBy key) (\<lambda>uid now i d.
       returning scan_key (insert_api_key
         \<lparr>k_id = i, k_service_id = sid, k_org_id = oid, k_prefix = nk_Prefix key,
          k_key_hash = nk_KeyHash key, k_label = nullString (nk_Label key), k_created_by = uid,
          k_created_at = now, k_revoked_at = None, k_last_used_at = None,
          k_rotated_from_id = rotated\<rparr> d))))"

definition CreateAPIKey :: "env \<Rightarrow> NewKey \<Rightarrow> string \<Rightarrow> ('r, APIKey) app" where
  "CreateAPIKey e key rotatedFromID = pg e (nullUUID e rotatedFromID (insert_new_key e key))"

definition ListAPIKeysByServiceID :: "env \<Rightarrow> string \<Rightarrow> string \<Rightarrow> ('r, APIKey list) app" where
  "ListAPIKeysByServiceID e orgID serviceID =
     pg e (with_uuid e serviceID (\<lambda>sid. with_uuid e orgID (\<lambda>oid. select_val (\<lambda>d.
       map scan_key (sort_key (\<lambda>k. - k_created_at k)
         (filter (\<lambda>k. k_service_id k = sid \<and> k_org_id k = oid) (service_api_keys d)))))))"

definition key_row :: "string \<Rightarrow> string \<Rightarrow> string \<Rightarrow> APIKeyRow \<Rightarrow> bool" where
  "key_row kid sid oid k \<longleftrightarrow> k_id k = kid \<and> k_service_id k = sid \<and> k_org_id k = oid"

definition GetAPIKeyByID :: "env \<Rightarrow> string \<Rightarrow> string \<Rightarrow> string \<Rightarrow> ('r, APIKey) app" where
  "GetAPIKeyByID e orgID serviceID keyID =
     on_no_rows (SvcE APIKeyNotFound)
       (pg e (with_uuid e keyID (\<lambda>kid. with_uuid e serviceID (\<lambda>sid. with_uuid e orgID (\<lambda>oid now i d.
          returning scan_key (select_row service_api_keys (key_row kid sid oid) now i d))))))"

text \<open>The join with the services that are not deleted\<close>

definition active_key :: "database \<Rightarrow> string \<Rightarrow> APIKeyRow \<Rightarrow> bool" where
  "active_key d pfx k \<longleftrightarrow>
     k_prefix k = pfx \<and> k_revoked_at k = None \<and>
     list_ex (\<lambda>s. s_id s = k_service_id k \<and> s_deleted_at s = None) (services d)"

definition GetActiveAPIKeyByPrefix :: "env \<Rightarrow> string \<Rightarrow> ('r, APIKey) app" where
  "GetActiveAPIKeyByPrefix e pfx =
     on_no_rows (SvcE APIKeyNotFound)
       (pg e (\<lambda>now i d. returning scan_key (select_row service_api_keys (active_key d pfx) now i d)))"

definition revoke_rows ::
    "string \<Rightarrow> string \<Rightarrow> string \<Rightarrow> time \<Rightarrow> APIKeyRow list \<Rightarrow> APIKeyRow list" where
  "revoke_rows kid sid oid now =
     map (\<lambda>k. if key_row kid sid oid k \<and> k_revoked_at k = None
              then k\<lparr>k_revoked_at := Some now\<rparr> else k)"

text \<open>\<open>UPDATE ... SET revoked_at = now()\<close>, under the CHECK that a key is revoked after it was made\<close>

definition revoke_stmt :: "string \<Rightarrow> string \<Rightarrow> string \<Rightarrow> APIKeyRow stmt" where
  "revoke_stmt kid sid oid now i d =
     (case find (\<lambda>k. key_row kid sid oid k \<and> k_revoked_at k = None) (service_api_keys d) of
        None \<Rightarrow> (Inl NoRows, d)
      | Some k \<Rightarrow>
          constrained True (k_created_at k \<le> now) True True
            (k\<lparr>k_revoked_at := Some now\<rparr>) d
            (d\<lparr>service_api_keys := revoke_rows kid sid oid now (service_api_keys d)\<rparr>))"

definition repo_RevokeAPIKey :: "env \<Rightarrow> string \<Rightarrow> string \<Rightarrow> string \<Rightarrow> ('r, APIKey) app" where
  "repo_RevokeAPIKey e orgID serviceID keyID =
     attempt (pg e (with_uuid e keyID (\<lambda>kid. with_uuid e serviceID (\<lambda>sid. with_uuid e orgID (\<lambda>oid now i d.
          returning scan_key (revoke_stmt kid sid oid now i d))))))
       (\<lambda>r. case r of
          Inr key \<Rightarrow> ret key
        | Inl x \<Rightarrow>
            if x = PgE NoRows then
              call (GetAPIKeyByID e orgID serviceID keyID) (\<lambda>existing.
                if ak_RevokedAt existing \<noteq> None then fail (SvcE APIKeyAlreadyRevoked)
                else fail (SvcE APIKeyNotFound))
            else fail x)"

definition repo_RotateAPIKey :: "env \<Rightarrow> APIKey \<Rightarrow> NewKey \<Rightarrow> ('r, APIKey) app" where
  "repo_RotateAPIKey e oldKey newKey =
     transaction e
       (call (on_no_rows (SvcE APIKeyAlreadyRevoked)
               (pg e (with_uuid e (ak_ID oldKey) (\<lambda>kid. with_uuid e (ak_ServiceID oldKey) (\<lambda>sid.
                  with_uuid e (ak_OrgID oldKey) (\<lambda>oid. revoke_stmt kid sid oid))))))
        (\<lambda>_. pg e (with_uuid e (ak_ID oldKey) (\<lambda>kid. insert_new_key e newKey (Some kid)))))"

lemmas service_repo_defs =
  repo_CreateService_def GetServiceByID_def ListServicesByOrgID_def repo_UpdateService_def
  SoftDeleteService_def CountActiveAPIKeysByServiceID_def CreateAPIKey_def
  ListAPIKeysByServiceID_def GetAPIKeyByID_def GetActiveAPIKeyByPrefix_def repo_RevokeAPIKey_def
  repo_RotateAPIKey_def

section \<open>Service\<close>

definition maxServiceNameLen :: nat where "maxServiceNameLen = 255"

type_synonym 'r OrgAccess = "string \<Rightarrow> string \<Rightarrow> ('r, string) app"
type_synonym 'r KeyInvalidator = "string \<Rightarrow> ('r, unit) app"

record 'r ServiceService =
  ss_audit :: "'r Writer option"
  ss_orgAccess :: "'r OrgAccess"
  ss_keyInvalidator :: "'r KeyInvalidator option"

definition requireMember :: "'r ServiceService \<Rightarrow> string \<Rightarrow> string \<Rightarrow> ('r, string) app" where
  "requireMember s orgID userID =
     attempt (ss_orgAccess s orgID userID) (\<lambda>r.
       case r of
         Inl x \<Rightarrow> if x = OrgE NotOrgMember then fail (SvcE SvcNotOrgMember) else fail x
       | Inr role \<Rightarrow> ret role)"

definition requireDeveloper :: "'r ServiceService \<Rightarrow> string \<Rightarrow> string \<Rightarrow> ('r, unit) app" where
  "requireDeveloper s orgID userID =
     call (requireMember s orgID userID) (\<lambda>role.
       if \<not> IsDeveloperRole role then fail (SvcE SvcInsufficientPermissions) else ret ())"

definition writeAudit :: "'r ServiceService \<Rightarrow> Event \<Rightarrow> ('r, unit) app" where
  "writeAudit s event =
     (case ss_audit s of None \<Rightarrow> ret () | Some W \<Rightarrow> attempt (W event) (\<lambda>_. ret ()))"

definition invalidateKeyCache :: "'r ServiceService \<Rightarrow> string \<Rightarrow> ('r, unit) app" where
  "invalidateKeyCache s pfx =
     (case ss_keyInvalidator s of None \<Rightarrow> ret () | Some kinv \<Rightarrow> attempt (kinv pfx) (\<lambda>_. ret ()))"

definition normalizeServiceName :: "string \<Rightarrow> err + string" where
  "normalizeServiceName name =
     (let trimmed = TrimSpace name in
      if trimmed = [] then Inl (SvcE InvalidServiceName)
      else if maxServiceNameLen < length trimmed then Inl (SvcE ServiceNameTooLong)
      else Inr trimmed)"

definition lift :: "err + 'a \<Rightarrow> ('r, 'a) app" where
  "lift r = (case r of Inl x \<Rightarrow> fail x | Inr y \<Rightarrow> ret y)"

definition service_event ::
    "string \<Rightarrow> string \<Rightarrow> string \<Rightarrow> string \<Rightarrow> string \<Rightarrow> json_object \<Rightarrow> string \<Rightarrow> Event" where
  "service_event orgID userID action resourceType resourceID metadata ip =
     \<lparr>ev_OrgID = orgID, ev_ActorID = userID, ev_ActorType = [], ev_Action = action,
      ev_ResourceType = resourceType, ev_ResourceID = resourceID, ev_Metadata = metadata,
      ev_IPAddress = ip\<rparr>"

definition CreateService ::
    "env \<Rightarrow> 'r ServiceService \<Rightarrow> string \<Rightarrow> string \<Rightarrow> string \<Rightarrow> string \<Rightarrow> string \<Rightarrow> ('r, ServiceResponse) app" where
  "CreateService e s orgID userID name description ip =
     call (requireDeveloper s orgID userID) (\<lambda>_.
     call (lift (normalizeServiceName name)) (\<lambda>normalizedName.
     call (repo_CreateService e orgID normalizedName (TrimSpace description) userID) (\<lambda>created.
     call (writeAudit s (service_event orgID userID ''service.created'' ''service'' (rs_ID created)
             [(''name'', json_string (rs_Name created))] ip)) (\<lambda>_.
       ret (toServiceResponse created (Some 0))))))"

fun service_list ::
    "env \<Rightarrow> bool \<Rightarrow> RegisteredService list \<Rightarrow> ('r, ServiceResponse list) app" where
  "service_list e showKeyCounts [] = ret []"
| "service_list e showKeyCounts (svc # svcs) =
     call (if showKeyCounts
           then call (CountActiveAPIKeysByServiceID e (rs_ID svc)) (\<lambda>count. ret (Some count))
           else ret None) (\<lambda>activeCount.
     call (service_list e showKeyCounts svcs) (\<lambda>results.
       ret (toServiceResponse svc activeCount # results)))"

definition ListServices ::
    "env \<Rightarrow> 'r ServiceService \<Rightarrow> string \<Rightarrow> string \<Rightarrow> ('r, ServiceResponse list) app" where
  "ListServices e s orgID userID =
     call (requireMember s orgID userID) (\<lambda>role.
     call (ListServicesByOrgID e orgID) (\<lambda>svcs.
       service_list e (IsDeveloperRole role) svcs))"

definition GetService ::
    "env \<Rightarrow> 'r ServiceService \<Rightarrow> string \<Rightarrow> string \<Rightarrow> string \<Rightarrow> ('r, ServiceResponse) app" where
  "GetService e s orgID serviceID userID =
     call (requireMember s orgID userID) (\<lambda>role.
     call (GetServiceByID e orgID serviceID) (\<lambda>svc.
     call (if IsDeveloperRole role
           then call (CountActiveAPIKeysByServiceID e serviceID) (\<lambda>count. ret (Some count))
           else ret None) (\<lambda>activeCount.
       ret (toServiceResponse svc activeCount))))"

definition UpdateService ::
    "env \<Rightarrow> 'r ServiceService \<Rightarrow> string \<Rightarrow> string \<Rightarrow> string \<Rightarrow> string \<Rightarrow> string \<Rightarrow> string \<Rightarrow>
     ('r, ServiceResponse) app" where
  "UpdateService e s orgID serviceID userID name description ip =
     call (requireDeveloper s orgID userID) (\<lambda>_.
     call (lift (normalizeServiceName name)) (\<lambda>normalizedName.
     call (repo_UpdateService e orgID serviceID normalizedName (TrimSpace description)) (\<lambda>updated.
     call (writeAudit s (service_event orgID userID ''service.updated'' ''service'' (rs_ID updated)
             [(''name'', json_string (rs_Name updated))] ip)) (\<lambda>_.
     call (CountActiveAPIKeysByServiceID e serviceID) (\<lambda>count.
       ret (toServiceResponse updated (Some count)))))))"

definition DeleteService ::
    "env \<Rightarrow> 'r ServiceService \<Rightarrow> string \<Rightarrow> string \<Rightarrow> string \<Rightarrow> string \<Rightarrow> ('r, unit) app" where
  "DeleteService e s orgID serviceID userID ip =
     call (requireDeveloper s orgID userID) (\<lambda>_.
     call (SoftDeleteService e orgID serviceID) (\<lambda>_.
       writeAudit s (service_event orgID userID ''service.deleted'' ''service'' serviceID [] ip)))"

definition created_response :: "APIKey \<Rightarrow> string \<Rightarrow> CreateAPIKeyResponse" where
  "created_response stored raw =
     \<lparr>ck_ID = ak_ID stored, ck_ServiceID = ak_ServiceID stored, ck_Prefix = ak_Prefix stored,
      ck_APIKey = raw, ck_Label = ak_Label stored, ck_CreatedAt = ak_CreatedAt stored,
      ck_CreatedBy = ak_CreatedBy stored\<rparr>"

definition svc_GenerateAPIKey ::
    "env \<Rightarrow> 'r ServiceService \<Rightarrow> string \<Rightarrow> string \<Rightarrow> string \<Rightarrow> string \<Rightarrow> string \<Rightarrow>
     ('r, CreateAPIKeyResponse) app" where
  "svc_GenerateAPIKey e s orgID serviceID userID label ip =
     call (requireDeveloper s orgID userID) (\<lambda>_.
     call (GetServiceByID e orgID serviceID) (\<lambda>_.
     call (GenerateAPIKey e) (\<lambda>(raw, pfx).
     call (HashAPIKey e raw) (\<lambda>hash.
     call (CreateAPIKey e \<lparr>nk_ServiceID = serviceID, nk_OrgID = orgID, nk_Prefix = pfx,
             nk_KeyHash = hash, nk_Label = TrimSpace label, nk_CreatedBy = userID\<rparr> []) (\<lambda>stored.
     call (writeAudit s (service_event orgID userID ''api_key.created'' ''api_key'' (ak_ID stored)
             [(''service_id'', json_string serviceID), (''prefix'', json_string (ak_Prefix stored))] ip)) (\<lambda>_.
       ret (created_response stored raw)))))))"

definition ListAPIKeys ::
    "env \<Rightarrow> 'r ServiceService \<Rightarrow> string \<Rightarrow> string \<Rightarrow> string \<Rightarrow> ('r, APIKeyResponse list) app" where
  "ListAPIKeys e s orgID serviceID userID =
     call (requireDeveloper s orgID userID) (\<lambda>_.
     call (GetServiceByID e orgID serviceID) (\<lambda>_.
     call (ListAPIKeysByServiceID e orgID serviceID) (\<lambda>keys.
       ret (map toAPIKeyResponse keys))))"

definition RevokeAPIKey ::
    "env \<Rightarrow> 'r ServiceService \<Rightarrow> string \<Rightarrow> string \<Rightarrow> string \<Rightarrow> string \<Rightarrow> string \<Rightarrow>
     ('r, APIKeyResponse) app" where
  "RevokeAPIKey e s orgID serviceID keyID userID ip =
     call (requireDeveloper s orgID userID) (\<lambda>_.
     call (GetServiceByID e orgID serviceID) (\<lambda>_.
     call (repo_RevokeAPIKey e orgID serviceID keyID) (\<lambda>revoked.
     call (writeAudit s (service_event orgID userID ''api_key.revoked'' ''api_key'' (ak_ID revoked)
             [(''service_id'', json_string serviceID), (''prefix'', json_string (ak_Prefix revoked))] ip)) (\<lambda>_.
     call (invalidateKeyCache s (ak_Prefix revoked)) (\<lambda>_.
       ret (toAPIKeyResponse revoked))))))"

definition RotateAPIKey ::
    "env \<Rightarrow> 'r ServiceService \<Rightarrow> string \<Rightarrow> string \<Rightarrow> string \<Rightarrow> string \<Rightarrow> string \<Rightarrow>
     ('r, CreateAPIKeyResponse) app" where
  "RotateAPIKey e s orgID serviceID keyID userID ip =
     call (requireDeveloper s orgID userID) (\<lambda>_.
     call (GetServiceByID e orgID serviceID) (\<lambda>_.
     call (GetAPIKeyByID e orgID serviceID keyID) (\<lambda>oldKey.
     if ak_RevokedAt oldKey \<noteq> None then fail (SvcE APIKeyAlreadyRevoked)
     else
       call (GenerateAPIKey e) (\<lambda>(raw, pfx).
       call (HashAPIKey e raw) (\<lambda>hash.
       call (repo_RotateAPIKey e oldKey \<lparr>nk_ServiceID = serviceID, nk_OrgID = orgID, nk_Prefix = pfx,
               nk_KeyHash = hash, nk_Label = ak_Label oldKey, nk_CreatedBy = userID\<rparr>) (\<lambda>stored.
       call (writeAudit s (service_event orgID userID ''api_key.rotated'' ''api_key'' (ak_ID stored)
               [(''service_id'', json_string serviceID), (''prefix'', json_string (ak_Prefix stored)),
                (''rotated_from_id'', json_string (ak_ID oldKey))] ip)) (\<lambda>_.
       call (invalidateKeyCache s (ak_Prefix oldKey)) (\<lambda>_.
         ret (created_response stored raw)))))))))"

section \<open>Handlers\<close>

record createServiceRequest =
  cs_name :: string
  cs_description :: string

fun svc_mapServiceError :: "err \<Rightarrow> 'a reply" where
  "svc_mapServiceError (SvcE InvalidServiceName) = Failure 400 (svc_text InvalidServiceName)"
| "svc_mapServiceError (SvcE ServiceNameTooLong) = Failure 400 (svc_text ServiceNameTooLong)"
| "svc_mapServiceError (SvcE ServiceNotFound) = Failure 404 (svc_text ServiceNotFound)"
| "svc_mapServiceError (SvcE APIKeyNotFound) = Failure 404 (svc_text APIKeyNotFound)"
| "svc_mapServiceError (SvcE SvcNotOrgMember) = Failure 403 (svc_text SvcNotOrgMember)"
| "svc_mapServiceError (SvcE SvcInsufficientPermissions) =
     Failure 403 (svc_text SvcInsufficientPermissions)"
| "svc_mapServiceError (SvcE DuplicateServiceName) = Failure 409 (svc_text DuplicateServiceName)"
| "svc_mapServiceError (SvcE APIKeyAlreadyRevoked) = Failure 410 (svc_text APIKeyAlreadyRevoked)"
| "svc_mapServiceError _ = internal_error"

definition CreateService_handler ::
    "env \<Rightarrow> 'r ServiceService \<Rightarrow> createServiceRequest option \<Rightarrow> ('r, ServiceResponse) endpoint" where
  "CreateService_handler e s body c =
     with_user c (\<lambda>userID. with_body body (\<lambda>req.
       respond 201 svc_mapServiceError (\<lambda>x. x)
         (CreateService e s (p_id c) userID (cs_name req) (cs_description req) (real_ip c))))"

definition ListServices_handler :: "env \<Rightarrow> 'r ServiceService \<Rightarrow> ('r, ServiceResponse list) endpoint" where
  "ListServices_handler e s c =
     with_user c (\<lambda>userID. respond 200 svc_mapServiceError (\<lambda>x. x) (ListServices e s (p_id c) userID))"

definition GetService_handler :: "env \<Rightarrow> 'r ServiceService \<Rightarrow> ('r, ServiceResponse) endpoint" where
  "GetService_handler e s c =
     with_user c (\<lambda>userID.
       respond 200 svc_mapServiceError (\<lambda>x. x) (GetService e s (p_id c) (p_serviceId c) userID))"

definition UpdateService_handler ::
    "env \<Rightarrow> 'r ServiceService \<Rightarrow> createServiceRequest option \<Rightarrow> ('r, ServiceResponse) endpoint" where
  "UpdateService_handler e s body c =
     with_user c (\<lambda>userID. with_body body (\<lambda>req.
       respond 200 svc_mapServiceError (\<lambda>x. x)
         (UpdateService e s (p_id c) (p_serviceId c) userID (cs_name req) (cs_description req) (real_ip c))))"

definition DeleteService_handler :: "env \<Rightarrow> 'r ServiceService \<Rightarrow> ('r, string) endpoint" where
  "DeleteService_handler e s c =
     with_user c (\<lambda>userID.
       respond 200 svc_mapServiceError (\<lambda>_. ''service deleted'')
         (DeleteService e s (p_id c) (p_serviceId c) userID (real_ip c)))"

definition GenerateAPIKey_handler ::
    "env \<Rightarrow> 'r ServiceService \<Rightarrow> string option \<Rightarrow> ('r, CreateAPIKeyResponse) endpoint" where
  "GenerateAPIKey_handler e s body c =
     with_user c (\<lambda>userID. with_body body (\<lambda>label.
       respond 201 svc_mapServiceError (\<lambda>x. x)
         (svc_GenerateAPIKey e s (p_id c) (p_serviceId c) userID label (real_ip c))))"

definition ListAPIKeys_handler :: "env \<Rightarrow> 'r ServiceService \<Rightarrow> ('r, APIKeyResponse list) endpoint" where
  "ListAPIKeys_handler e s c =
     with_user c (\<lambda>userID.
       respond 200 svc_mapServiceError (\<lambda>x. x) (ListAPIKeys e s (p_id c) (p_serviceId c) userID))"

definition RevokeAPIKey_handler :: "env \<Rightarrow> 'r ServiceService \<Rightarrow> ('r, APIKeyResponse) endpoint" where
  "RevokeAPIKey_handler e s c =
     with_user c (\<lambda>userID.
       respond 200 svc_mapServiceError (\<lambda>x. x)
         (RevokeAPIKey e s (p_id c) (p_serviceId c) (p_keyId c) userID (real_ip c)))"

definition RotateAPIKey_handler :: "env \<Rightarrow> 'r ServiceService \<Rightarrow> ('r, CreateAPIKeyResponse) endpoint" where
  "RotateAPIKey_handler e s c =
     with_user c (\<lambda>userID.
       respond 201 svc_mapServiceError (\<lambda>x. x)
         (RotateAPIKey e s (p_id c) (p_serviceId c) (p_keyId c) userID (real_ip c)))"

section \<open>Middleware\<close>

fun mapMiddlewareError :: "err \<Rightarrow> 'a reply" where
  "mapMiddlewareError (OrgE OrgNotFound) = Failure 404 (org_text OrgNotFound)"
| "mapMiddlewareError (OrgE NotOrgMember) = Failure 403 (org_text NotOrgMember)"
| "mapMiddlewareError (SvcE SvcNotOrgMember) = Failure 403 (svc_text SvcNotOrgMember)"
| "mapMiddlewareError _ = internal_error"

definition RequireOrgMember :: "'r OrgAccess \<Rightarrow> ('r, 'a) endpoint \<Rightarrow> ('r, 'a) endpoint" where
  "RequireOrgMember access next_h c =
     with_user c (\<lambda>userID.
       if p_id c = [] then answer (Failure 400 ''organization id is required'')
       else guard mapMiddlewareError (access (p_id c) userID) (\<lambda>role.
         next_h (c\<lparr>ctx_org_role := Some role\<rparr>)))"

definition RequireOrgDeveloper :: "'r OrgAccess \<Rightarrow> ('r, 'a) endpoint \<Rightarrow> ('r, 'a) endpoint" where
  "RequireOrgDeveloper access next_h c =
     with_user c (\<lambda>userID.
       if p_id c = [] then answer (Failure 400 ''organization id is required'')
       else guard mapMiddlewareError (access (p_id c) userID) (\<lambda>role.
         if \<not> IsDeveloperRole role then answer (Failure 403 (svc_text SvcInsufficientPermissions))
         else next_h (c\<lparr>ctx_org_role := Some role\<rparr>)))"

end
