(* ===== verification/Key_Cache.thy ===== *)
theory Key_Cache
  imports Service
begin

text \<open>
  internal/auth/keycache.go and internal/ingest/keylookup.go: the cache that resolves a raw API
  key to its service. It keeps three kinds of entries in Redis: the record of a prefix, the
  verdict on a raw key, and a marker that a prefix was revoked. Records and verdicts are stored
  as JSON, so their codecs are parameters.
\<close>

record APIKeyRecord =
  kc_ID :: string
  kc_ServiceID :: string
  kc_OrgID :: string
  kc_Prefix :: string
  kc_KeyHash :: string
  kc_Revoked :: bool

record ResolvedAPIKey =
  ra_ID :: string
  ra_ServiceID :: string
  ra_OrgID :: string

type_synonym 'r APIKeyLookup = "string \<Rightarrow> ('r, APIKeyRecord) app"

record 'r APIKeyCache =
  kc_redis :: "'r RedisStore option"
  kc_lookup :: "'r APIKeyLookup"
  prefixTTL :: duration
  validationTTL :: duration

definition durationFromEnv :: "(string \<Rightarrow> string) \<Rightarrow> string \<Rightarrow> int \<Rightarrow> duration" where
  "durationFromEnv getenv key defaultSeconds =
     (let raw = getenv key in
      if raw \<noteq> [] then
        (case Atoi raw of
           None \<Rightarrow> wrap64 (defaultSeconds * Second)
         | Some seconds \<Rightarrow>
             if 0 < seconds then wrap64 (seconds * Second) else wrap64 (defaultSeconds * Second))
      else wrap64 (defaultSeconds * Second))"

definition NewAPIKeyCache ::
    "(string \<Rightarrow> string) \<Rightarrow> 'r RedisStore option \<Rightarrow> 'r APIKeyLookup \<Rightarrow> 'r APIKeyCache" where
  "NewAPIKeyCache getenv rs lookup =
     \<lparr>kc_redis = rs, kc_lookup = lookup,
      prefixTTL = durationFromEnv getenv ''API_KEY_CACHE_TTL_SECONDS'' 300,
      validationTTL = durationFromEnv getenv ''API_KEY_VALIDATION_CACHE_TTL_SECONDS'' 120\<rparr>"

definition prefixKey :: "string \<Rightarrow> string" where
  "prefixKey pfx = ''apikey:prefix:'' @ pfx"

definition revokedKey :: "string \<Rightarrow> string" where
  "revokedKey pfx = ''apikey:revoked:'' @ pfx"

definition validationKey :: "env \<Rightarrow> string \<Rightarrow> string" where
  "validationKey e rawKey = ''apikey:validated:'' @ EncodeToString (sha256 e rawKey)"

record key_codecs =
  rec_codec :: "APIKeyRecord codec"
  res_codec :: "ResolvedAPIKey codec"

text \<open>
  A hit that decodes is returned; a miss or an entry that does not decode falls through to the
  database, any other error of the server is returned.
\<close>

definition loadRecord ::
    "env \<Rightarrow> key_codecs \<Rightarrow> 'r APIKeyCache \<Rightarrow> string \<Rightarrow> ('r, APIKeyRecord) app" where
  "loadRecord e J c pfx =
     (let fetch =
        call (kc_lookup c pfx) (\<lambda>record.
        call (if usable (kc_redis c)
              then attempt (with_client e (kc_redis c) (\<lambda>cl t. r_exec cl t
                     [CmdSet (prefixKey pfx) (Marshal (rec_codec J) record) (prefixTTL c)])) (\<lambda>_. ret ())
              else ret ()) (\<lambda>_.
          ret record))
      in if usable (kc_redis c) then
           attempt (with_client e (kc_redis c) (\<lambda>cl t. r_get cl t (prefixKey pfx))) (\<lambda>r.
             case r of
               Inr cached \<Rightarrow>
                 (case Unmarshal (rec_codec J) cached of Some record \<Rightarrow> ret record | None \<Rightarrow> fetch)
             | Inl x \<Rightarrow> if x = RedisE RedisNil then fetch else fail x)
         else fetch)"

text \<open>The slow path of \<open>Resolve\<close>: the record, the password check, the verdict stored\<close>

definition resolve_slow ::
    "env \<Rightarrow> key_codecs \<Rightarrow> 'r APIKeyCache \<Rightarrow> string \<Rightarrow> string \<Rightarrow> ('r, ResolvedAPIKey) app" where
  "resolve_slow e J c rawKey pfx =
     call (loadRecord e J c pfx) (\<lambda>record.
     if kc_Revoked record then fail (AuthE APIKeyRevoked)
     else
       (case ValidateAPIKey e rawKey (kc_KeyHash record) of
          Some x \<Rightarrow> fail x
        | None \<Rightarrow>
            (let resolved = \<lparr>ra_ID = kc_ID record, ra_ServiceID = kc_ServiceID record,
                             ra_OrgID = kc_OrgID record\<rparr> in
             call (if usable (kc_redis c)
                   then attempt (with_client e (kc_redis c) (\<lambda>cl t. r_exec cl t
                          [CmdSet (validationKey e rawKey) (Marshal (res_codec J) resolved)
                             (validationTTL c)])) (\<lambda>_. ret ())
                   else ret ()) (\<lambda>_.
               ret resolved))))"

definition Resolve ::
    "env \<Rightarrow> key_codecs \<Rightarrow> 'r APIKeyCache \<Rightarrow> string \<Rightarrow> ('r, ResolvedAPIKey) app" where
  "Resolve e J c rawKey =
     (case ExtractAPIKeyPrefix rawKey of
        Inl x \<Rightarrow> fail x
      | Inr pfx \<Rightarrow>
          if usable (kc_redis c) then
            attempt (with_client e (kc_redis c) (\<lambda>cl t. r_exists cl t (revokedKey pfx))) (\<lambda>r1.
              if (case r1 of Inr revoked \<Rightarrow> 0 < revoked | Inl x \<Rightarrow> False)
              then fail (AuthE APIKeyRevoked)
              else
                attempt (with_client e (kc_redis c) (\<lambda>cl t. r_get cl t (validationKey e rawKey))) (\<lambda>r2.
                  case r2 of
                    Inr cached \<Rightarrow>
                      (case Unmarshal (res_codec J) cached of
                         Some resolved \<Rightarrow> ret resolved
                       | None \<Rightarrow> resolve_slow e J c rawKey pfx)
                  | Inl x \<Rightarrow> resolve_slow e J c rawKey pfx))
          else resolve_slow e J c rawKey pfx)"

text \<open>A pipeline: the record is dropped, the marker set for an hour.\<close>

definition Invalidate :: "env \<Rightarrow> 'r APIKeyCache \<Rightarrow> string \<Rightarrow> ('r, unit) app" where
  "Invalidate e c pfx =
     (if \<not> usable (kc_redis c) then ret ()
      else call (with_client e (kc_redis c) (\<lambda>cl t. r_exec cl t
             [CmdDel (prefixKey pfx), CmdSet (revokedKey pfx) ''1'' Hour])) (\<lambda>_. ret ()))"

text \<open>\<open>KeyLookup\<close>: the lookup the binaries pass to the cache\<close>

definition KeyLookup :: "env \<Rightarrow> 'r APIKeyLookup" where
  "KeyLookup e pfx =
     call (GetActiveAPIKeyByPrefix e pfx) (\<lambda>key.
       ret \<lparr>kc_ID = ak_ID key, kc_ServiceID = ak_ServiceID key, kc_OrgID = ak_OrgID key,
            kc_Prefix = ak_Prefix key, kc_KeyHash = ak_KeyHash key,
            kc_Revoked = ak_RevokedAt key \<noteq> None\<rparr>)"

end
