(* ===== verification/Service_Contract.thy ===== *)
theory Service_Contract
  imports Key_Cache Org_Contract
begin

text \<open>
  What the service of keys relies on and what it promises. It relies on an access check that
  reads roles, an audit writer, and a cache invalidation that leaves the database alone; these
  are the assumptions of the locale \<open>service_env\<close>, which the dependencies of cmd/api meet. What
  it promises is stated against an abstract registry of keys, \<open>key_step\<close>, and through the
  locale \<open>service_invariant\<close>: whatever the statements of one organization keep, every request
  keeps.
\<close>

section \<open>Programs that write nothing\<close>

lemma stmt_pure_scan: "stmt_keeps P (\<lambda>t u d. returning f (select_row tbl p t u d))"
  by (simp add: stmt_keeps_def returning_def select_row_def split: option.split)

lemma quiet_service_reads:
  "quiet (GetServiceByID e org sid)" "quiet (ListServicesByOrgID e org)"
  "quiet (CountActiveAPIKeysByServiceID e sid)" "quiet (ListAPIKeysByServiceID e org sid)"
  "quiet (GetAPIKeyByID e org sid kid)"
  unfolding service_repo_defs
  by (intro quiet_on_no_rows stmt_pure_quiet keeps_intros stmt_pure_scan)+

lemma quiet_service_list: "quiet (service_list e b svcs)"
  by (induction svcs) (auto intro!: quiet_intros quiet_service_reads)

section \<open>The dependencies\<close>

locale service_env =
  fixes e :: env
    and s :: "'r ServiceService"
  assumes access_quiet: "quiet (ss_orgAccess s org u)"
    and access_role: "ss_orgAccess s org u w = (Inr role, w') \<Longrightarrow> role_of e (db w) org u = Some role"
    and audit_grow: "ss_audit s = Some W \<Longrightarrow> W ev w = (r, w') \<Longrightarrow>
      audit_grows (db w) (db w') \<and> redis w' = redis w \<and> tick w \<le> tick w'"
    and inval_db: "ss_keyInvalidator s = Some kinv \<Longrightarrow> kinv pfx w = (r, w') \<Longrightarrow>
      db w' = db w \<and> tick w \<le> tick w'"
begin

lemma member_Inr:
  "requireMember s org u w = (Inr role, w') \<Longrightarrow>
   role_of e (db w) org u = Some role \<and> db w' = db w \<and> redis w' = redis w \<and> tick w \<le> tick w'"
  by (auto simp: requireMember_def prog_simps dest: access_role quietD[OF access_quiet] split: if_splits)

lemma quiet_requireMember: "quiet (requireMember s org u)"
  unfolding requireMember_def
  by (rule quiet_attempt[OF access_quiet]) (auto simp: quiet_ret quiet_fail split: sum.split)

lemma quiet_requireDeveloper: "quiet (requireDeveloper s org u)"
  unfolding requireDeveloper_def by (intro quiet_intros quiet_requireMember)

lemma developer_Inr:
  "requireDeveloper s org u w = (Inr x, w') \<Longrightarrow> has_role IsDeveloperRole e (db w) org u"
  by (auto simp: requireDeveloper_def prog_simps has_role_def dest!: member_Inr split: if_splits)

lemma not_developer:
  assumes "\<not> has_role IsDeveloperRole e (db w) org u"
  obtains x w' where "requireDeveloper s org u w = (Inl x, w')" and "db w' = db w" and "redis w' = redis w"
proof (cases "requireDeveloper s org u w")
  case (Pair r w')
  then show thesis
    using assms developer_Inr quietD[OF quiet_requireDeveloper] that by (cases r) blast+
qed

end

text \<open>The dependencies of cmd/api: the role query, the PostgreSQL writer, the cache of keys.\<close>

definition main_key_service :: "env \<Rightarrow> 'r APIKeyCache \<Rightarrow> 'r ServiceService" where
  "main_key_service e c =
     \<lparr>ss_audit = Some (PostgresWriter e), ss_orgAccess = GetOrgMemberRole e,
      ss_keyInvalidator = Some (Invalidate e c)\<rparr>"

lemma Invalidate_db: "Invalidate e c pfx w = (r, w') \<Longrightarrow> db w' = db w \<and> tick w \<le> tick w'"
  by (auto simp: Invalidate_def call_def ret_def with_client_def
      split: if_splits option.splits prod.splits sum.splits)

lemma tick_PostgresWriter: "PostgresWriter e ev w = (r, w') \<Longrightarrow> tick w' = Suc (tick w)"
  by (auto simp: PostgresWriter_def Let_def pg_def split: option.splits prod.splits sum.splits)

interpretation main_keys: service_env e "main_key_service e c"
  by unfold_locales
     (auto simp: main_key_service_def quiet_GetOrgMemberRole GetOrgMemberRole_role
       dest: pg_audit.appends pg_audit.redis_same tick_PostgresWriter Invalidate_db)

section \<open>The requests\<close>

datatype svc_op =
    SvcCreate string string string string string
  | SvcList string string
  | SvcGet string string string
  | SvcUpdate string string string string string string
  | SvcDelete string string string string
  | KeyCreate string string string string string
  | KeyList string string string
  | KeyRevoke string string string string string
  | KeyRotate string string string string string

text \<open>The service's operation of a request, its result dropped\<close>

fun svc_run :: "env \<Rightarrow> 'r ServiceService \<Rightarrow> svc_op \<Rightarrow> ('r, unit) app" where
  "svc_run e s (SvcCreate org u name desc ip) = call (CreateService e s org u name desc ip) (\<lambda>_. ret ())"
| "svc_run e s (SvcList org u) = call (ListServices e s org u) (\<lambda>_. ret ())"
| "svc_run e s (SvcGet org sid u) = call (GetService e s org sid u) (\<lambda>_. ret ())"
| "svc_run e s (SvcUpdate org sid u name desc ip) =
     call (UpdateService e s org sid u name desc ip) (\<lambda>_. ret ())"
| "svc_run e s (SvcDelete org sid u ip) = DeleteService e s org sid u ip"
| "svc_run e s (KeyCreate org sid u label ip) = call (svc_GenerateAPIKey e s org sid u label ip) (\<lambda>_. ret ())"
| "svc_run e s (KeyList org sid u) = call (ListAPIKeys e s org sid u) (\<lambda>_. ret ())"
| "svc_run e s (KeyRevoke org sid kid u ip) = call (RevokeAPIKey e s org sid kid u ip) (\<lambda>_. ret ())"
| "svc_run e s (KeyRotate org sid kid u ip) = call (RotateAPIKey e s org sid kid u ip) (\<lambda>_. ret ())"

fun op_org :: "svc_op \<Rightarrow> string" where
  "op_org (SvcCreate org u name desc ip) = org"
| "op_org (SvcList org u) = org"
| "op_org (SvcGet org sid u) = org"
| "op_org (SvcUpdate org sid u name desc ip) = org"
| "op_org (SvcDelete org sid u ip) = org"
| "op_org (KeyCreate org sid u label ip) = org"
| "op_org (KeyList org sid u) = org"
| "op_org (KeyRevoke org sid kid u ip) = org"
| "op_org (KeyRotate org sid kid u ip) = org"

fun op_user :: "svc_op \<Rightarrow> string" where
  "op_user (SvcCreate org u name desc ip) = u"
| "op_user (SvcList org u) = u"
| "op_user (SvcGet org sid u) = u"
| "op_user (SvcUpdate org sid u name desc ip) = u"
| "op_user (SvcDelete org sid u ip) = u"
| "op_user (KeyCreate org sid u label ip) = u"
| "op_user (KeyList org sid u) = u"
| "op_user (KeyRevoke org sid kid u ip) = u"
| "op_user (KeyRotate org sid kid u ip) = u"

text \<open>The requests that list the services of a member's organization, and all others\<close>

fun reads_services :: "svc_op \<Rightarrow> bool" where
  "reads_services (SvcList org u) = True"
| "reads_services (SvcGet org sid u) = True"
| "reads_services _ = False"

definition svc_exec :: "env \<Rightarrow> 'r ServiceService \<Rightarrow> svc_op \<Rightarrow> 'r world \<Rightarrow> 'r world" where
  "svc_exec e s p w = snd (svc_run e s p w)"

lemmas svc_ops =
  CreateService_def ListServices_def GetService_def UpdateService_def DeleteService_def
  svc_GenerateAPIKey_def ListAPIKeys_def RevokeAPIKey_def RotateAPIKey_def

context service_env
begin

text \<open>A request by somebody who may not make it fails and writes nothing.\<close>

lemma op_refused:
  assumes "\<not> has_role IsDeveloperRole e (db w) (op_org p) (op_user p)" and "\<not> reads_services p"
  shows "\<exists>x w'. svc_run e s p w = (Inl x, w') \<and> db w' = db w \<and> redis w' = redis w"
proof -
  obtain x w' where no: "requireDeveloper s (op_org p) (op_user p) w = (Inl x, w')"
    and "db w' = db w" "redis w' = redis w"
    using not_developer[OF assms(1)] by blast
  moreover have "svc_run e s p w = (Inl x, w')"
    using no assms(2) by (cases p) (simp_all add: svc_ops call_stop)
  ultimately show ?thesis by blast
qed

lemma op_read_quiet: "reads_services p \<Longrightarrow> quiet (svc_run e s p)"
  by (cases p)
     (auto simp: svc_ops intro!: quiet_intros quiet_requireMember quiet_service_reads quiet_service_list)

end

section \<open>The rotation of a key\<close>

lemma revoke_stmt_Inr:
  "revoke_stmt kid sid oid now i d = (Inr k', d') \<Longrightarrow>
   \<exists>k. k \<in> set (service_api_keys d) \<and> key_row kid sid oid k \<and> k_revoked_at k = None \<and>
     k_created_at k \<le> now \<and> k' = k\<lparr>k_revoked_at := Some now\<rparr> \<and>
     d' = d\<lparr>service_api_keys := revoke_rows kid sid oid now (service_api_keys d)\<rparr>"
  by (auto simp: revoke_stmt_def constrained_Inr split: option.splits dest!: find_Some_D)

lemma RotateAPIKey_Inl:
  "repo_RotateAPIKey e old k w = (Inl x, w') \<Longrightarrow> db w' = db w \<and> tick w \<le> tick w'"
  by (auto simp: repo_RotateAPIKey_def transaction_def pg_def Let_def call_def on_no_rows_def
      split: option.splits prod.splits sum.splits err.splits pg_err.splits)

lemma transaction_tick_Inr:
  "transaction e body w = (Inr x, w') \<longleftrightarrow>
     pg_fault e (tick w) = None \<and>
     (\<exists>w2. body (w\<lparr>tick := Suc (tick w)\<rparr>) = (Inr x, w2) \<and> pg_fault e (tick w2) = None \<and>
           w' = w2\<lparr>tick := Suc (tick w2)\<rparr>)"
  by (auto simp: transaction_def pg_def Let_def split: option.splits prod.splits sum.splits)

lemma with_uuid_Inr:
  "with_uuid e v q t u d = (Inr x, d') \<longleftrightarrow> (\<exists>i. pg_uuid e v = Some i \<and> q i t u d = (Inr x, d'))"
  by (auto simp: with_uuid_def split: option.splits)

lemma rotate_Inr:
  assumes "repo_RotateAPIKey e old k w = (Inr key, w')"
  obtains n m kid sid oid i k' row d1 k'' where
    "pg_uuid e (ak_ID old) = Some kid" and "pg_uuid e (ak_ServiceID old) = Some sid"
    and "pg_uuid e (ak_OrgID old) = Some oid"
    and "tick w \<le> n" and "Suc n \<le> m" and "m \<le> tick w'"
    and "revoke_stmt kid sid oid (clk e n) i (db w) = (Inr k', d1)"
    and "insert_api_key row d1 = (Inr k'', db w')" and "key = scan_key k''"
    and "pg_uuid e (nk_ServiceID k) = Some (k_service_id row)"
    and "pg_uuid e (nk_OrgID k) = Some (k_org_id row)"
    and "k_prefix row = nk_Prefix k" and "k_key_hash row = nk_KeyHash k" and "k_revoked_at row = None"
    and "k_rotated_from_id row = Some kid" and "k_id row = uuid e m" and "redis w' = redis w"
proof -
  let ?rev = "pg e (with_uuid e (ak_ID old) (\<lambda>kid. with_uuid e (ak_ServiceID old) (\<lambda>sid.
    with_uuid e (ak_OrgID old) (\<lambda>oid. revoke_stmt kid sid oid))))"
  let ?ins = "pg e (with_uuid e (ak_ID old) (\<lambda>kid. insert_new_key e k (Some kid)))"
  define w1 where "w1 = w\<lparr>tick := Suc (tick w)\<rparr>"
  then have w1: "db w1 = db w" "redis w1 = redis w" "tick w1 = Suc (tick w)" by simp_all
  obtain w2 where body: "call (on_no_rows (SvcE APIKeyAlreadyRevoked) ?rev) (\<lambda>_. ?ins) w1 = (Inr key, w2)"
    and w': "w' = w2\<lparr>tick := Suc (tick w2)\<rparr>"
    using assms unfolding repo_RotateAPIKey_def transaction_tick_Inr w1_def by blast
  then obtain k' w3 where rev: "?rev w1 = (Inr k', w3)" and ins: "?ins w3 = (Inr key, w2)"
    by (auto simp: prog_simps)
  obtain kid sid oid where u: "pg_uuid e (ak_ID old) = Some kid" "pg_uuid e (ak_ServiceID old) = Some sid"
    "pg_uuid e (ak_OrgID old) = Some oid"
    and r: "revoke_stmt kid sid oid (clk e (tick w1)) (uuid e (tick w1)) (db w1) = (Inr k', db w3)"
    and t3: "tick w3 = Suc (tick w1)" "redis w3 = redis w1"
    using rev by (auto simp: pg_Inr with_uuid_Inr)
  obtain row k'' where q: "insert_api_key row (db w3) = (Inr k'', db w2)" "key = scan_key k''"
      "pg_uuid e (nk_ServiceID k) = Some (k_service_id row)" "pg_uuid e (nk_OrgID k) = Some (k_org_id row)"
      "k_prefix row = nk_Prefix k" "k_key_hash row = nk_KeyHash k" "k_revoked_at row = None"
      "k_rotated_from_id row = Some kid" "k_id row = uuid e (tick w3)" "tick w2 = Suc (tick w3)" "redis w2 = redis w3"
    using ins u by (auto simp: pg_Inr with_uuid_Inr insert_new_key_def returning_Inr)
  show thesis
    by (rule that[OF u, of "tick w1" "tick w3"]) (use r q t3 w1 w' in auto)
qed

text \<open>The key a rotation starts from belongs to the organization.\<close>

lemma GetAPIKeyByID_Inr:
  "GetAPIKeyByID e org' sid kid w = (Inr k, w') \<Longrightarrow>
   \<exists>row oid sid'. row \<in> set (service_api_keys (db w)) \<and> k = scan_key row \<and> pg_uuid e org' = Some oid \<and>
     k_org_id row = oid \<and> pg_uuid e sid = Some sid' \<and> k_service_id row = sid' \<and> pg_uuid e kid = Some (k_id row) \<and>
     db w' = db w \<and> tick w' = Suc (tick w)"
  by (auto simp: GetAPIKeyByID_def prog_simps pg_Inr with_uuid_def returning_Inr select_row_def key_row_def
      split: option.splits dest!: find_Some_D)

section \<open>Invariants\<close>

text \<open>
  An invariant of the database at a time that the statements of one organization keep. Audit
  events and the passing of time may not matter to it.
\<close>

locale service_invariant = service_env +
  fixes org :: string
    and I :: "nat \<Rightarrow> database \<Rightarrow> bool"
  assumes I_audit: "I n d \<Longrightarrow> n \<le> n' \<Longrightarrow> audit_grows d d' \<Longrightarrow> I n' d'"
    and I_service: "I n d \<Longrightarrow> pg_uuid e org = Some (s_org_id x) \<Longrightarrow> insert_service x d = (Inr y, d') \<Longrightarrow> I n d'"
    and I_update: "I n d \<Longrightarrow> pg_uuid e org = Some oid \<Longrightarrow>
      update_service sid oid nm ds t i d = (Inr y, d') \<Longrightarrow> I n d'"
    and I_delete: "I n d \<Longrightarrow> pg_uuid e org = Some oid \<Longrightarrow> soft_delete sid oid t i d = (Inr z, d') \<Longrightarrow> I n d'"
    and I_key: "I n d \<Longrightarrow> pg_uuid e org = Some (k_org_id k) \<Longrightarrow> k_revoked_at k = None \<Longrightarrow>
      insert_api_key k d = (Inr k', d') \<Longrightarrow> I n d'"
    and I_revoke: "I n d \<Longrightarrow> pg_uuid e org = Some oid \<Longrightarrow>
      revoke_stmt kid sid oid (clk e n) i d = (Inr k', d') \<Longrightarrow> I (Suc n) d'"
    and I_rotate: "I n d \<Longrightarrow> pg_uuid e org = Some oid \<Longrightarrow>
      revoke_stmt kid sid oid (clk e n) i d = (Inr k', d1) \<Longrightarrow> k_revoked_at k = None \<Longrightarrow>
      k_org_id k = oid \<Longrightarrow> k_service_id k = sid \<Longrightarrow> insert_api_key k d1 = (Inr k'', d') \<Longrightarrow> I (Suc n) d'"
begin

abbreviation J where
  "J w \<equiv> I (tick w) (db w)"

lemma I_same: "I n d \<Longrightarrow> n \<le> n' \<Longrightarrow> I n' d"
  by (erule I_audit) (auto simp: audit_grows_def)

lemma J_quiet: "quiet m \<Longrightarrow> keeps J m"
  by (rule keepsI) (auto dest!: quietD intro: I_same)

lemma keeps_stmt:
  assumes "\<And>n d t i y d'. I n d \<Longrightarrow> q t i d = (Inr y, d') \<Longrightarrow> I n d'"
  shows "keeps J (pg e q)"
proof (rule keepsI)
  fix w r w' assume "J w" and "pg e q w = (r, w')"
  then show "J w'"
    using assms[of "tick w" "db w"] I_same[of "tick w" _ "Suc (tick w)"]
    by (auto simp: pg_def Let_def split: option.splits prod.splits sum.splits)
qed

lemma keeps_audit: "keeps J (writeAudit s ev)"
proof (cases "ss_audit s")
  case (Some W)
  have "keeps J (W ev)"
    by (rule keepsI) (use audit_grow[OF Some] I_audit in blast)
  then show ?thesis using Some by (simp add: writeAudit_def keeps_attempt keeps_ret)
qed (simp add: writeAudit_def keeps_ret)

lemma keeps_inval: "keeps J (invalidateKeyCache s pfx)"
proof (cases "ss_keyInvalidator s")
  case (Some kinv)
  have "keeps J (kinv pfx)"
    by (rule keepsI) (use inval_db[OF Some] I_same in metis)
  then show ?thesis using Some by (simp add: invalidateKeyCache_def keeps_attempt keeps_ret)
qed (simp add: invalidateKeyCache_def keeps_ret)

lemma keeps_CreateService: "keeps J (repo_CreateService e org name desc u)"
  unfolding repo_CreateService_def
  by (intro keeps_on_unique keeps_stmt)
     (auto simp: with_uuid_def returning_Inr split: option.splits intro: I_service[rotated 2])

lemma keeps_UpdateService: "keeps J (repo_UpdateService e org sid name desc)"
  unfolding repo_UpdateService_def
  by (intro keeps_on_unique keeps_on_no_rows keeps_stmt)
     (auto simp: with_uuid_def returning_Inr split: option.splits intro: I_update)

lemma keeps_SoftDelete: "keeps J (SoftDeleteService e org sid)"
  unfolding SoftDeleteService_def
  by (intro keeps_call keeps_stmt)
     (auto simp: with_uuid_def split: option.splits intro: I_delete keeps_ret keeps_fail)

lemma keeps_CreateAPIKey: "nk_OrgID k = org \<Longrightarrow> keeps J (CreateAPIKey e k rot)"
  unfolding CreateAPIKey_def insert_new_key_def
  by (intro keeps_stmt)
     (auto simp: with_uuid_def nullUUID_def returning_Inr split: option.splits if_splits intro: I_key[rotated 3])

lemma keeps_revoke: "keeps J (repo_RevokeAPIKey e org sid kid)"
proof -
  have "keeps J (pg e (with_uuid e kid (\<lambda>kid. with_uuid e sid (\<lambda>sid. with_uuid e org
      (\<lambda>oid now i d. returning scan_key (revoke_stmt kid sid oid now i d))))))"
    by (rule keepsI)
       (auto simp: pg_def Let_def with_uuid_def returning_Inr
         split: option.splits prod.splits sum.splits intro: I_revoke I_same)
  then show ?thesis
    unfolding repo_RevokeAPIKey_def
    by (intro keeps_attempt keeps_case_sum keeps_ret keeps_if keeps_call keeps_fail
        J_quiet[OF quiet_service_reads(5)])
qed

lemma keeps_rotate:
  assumes "pg_uuid e org = Some oid" and "pg_uuid e (ak_OrgID old) = Some oid"
    and "nk_OrgID k = org" and "pg_uuid e (nk_ServiceID k) = pg_uuid e (ak_ServiceID old)"
  shows "keeps J (repo_RotateAPIKey e old k)"
proof (rule keepsI)
  fix w r w' assume J: "J w" and run: "repo_RotateAPIKey e old k w = (r, w')"
  show "J w'"
  proof (cases r)
    case (Inl x)
    with RotateAPIKey_Inl run have "db w' = db w \<and> tick w \<le> tick w'" by blast
    then show ?thesis using I_same[OF J, of "tick w'"] by simp
  next
    case (Inr key)
    show ?thesis
    proof (rule rotate_Inr[OF run[unfolded Inr]])
      fix n m kid sid oid' i k' row d1 k''
      assume u: "pg_uuid e (ak_ServiceID old) = Some sid" "pg_uuid e (ak_OrgID old) = Some oid'"
        "pg_uuid e (nk_ServiceID k) = Some (k_service_id row)" "pg_uuid e (nk_OrgID k) = Some (k_org_id row)"
        and t: "tick w \<le> n" "Suc n \<le> m" "m \<le> tick w'"
        and rev: "revoke_stmt kid sid oid' (clk e n) i (db w) = (Inr k', d1)"
        and ins: "insert_api_key row d1 = (Inr k'', db w')" "k_revoked_at row = None"
      have "pg_uuid e org = Some oid'" "k_org_id row = oid'" "k_service_id row = sid"
        using u assms by simp_all
      with I_rotate[OF I_same[OF J t(1)] _ rev ins(2) _ _ ins(1)] have "I (Suc n) (db w')" by blast
      then show "J w'" by (rule I_same) (use t in simp)
    qed
  qed
qed

text \<open>Every request of the organization keeps the invariant.\<close>

lemma keeps_RotateAPIKey:
  assumes "uuid_law e"
  shows "keeps J (RotateAPIKey e s org sid kid u ip)"
proof -
  define Q :: "APIKey \<Rightarrow> bool" where
    "Q old \<longleftrightarrow> pg_uuid e org = Some (ak_OrgID old) \<and> pg_uuid e sid = Some (ak_ServiceID old)" for old
  have get: "yields J Q (GetAPIKeyByID e org sid kid)"
    by (rule yieldsI) (auto simp: Q_def scan_key_def dest!: GetAPIKeyByID_Inr)
  have rot: "keeps J (repo_RotateAPIKey e old k)"
    if "Q old" and "nk_OrgID k = org" and "nk_ServiceID k = sid" for old k
    by (rule keeps_rotate[of "ak_OrgID old"]) (use that assms in \<open>auto simp: Q_def uuid_law_def\<close>)
  show ?thesis
    unfolding RotateAPIKey_def
    apply (rule keeps_call, rule J_quiet[OF quiet_requireDeveloper])
    apply (rule keeps_call, rule J_quiet[OF quiet_service_reads(1)])
    apply (rule keeps_call_yields[OF J_quiet[OF quiet_service_reads(5)] get])
    apply (intro keeps_if keeps_fail keeps_call keeps_case_prod J_quiet[OF quiet_GenerateAPIKey]
        J_quiet[OF quiet_HashAPIKey] keeps_audit keeps_inval keeps_ret)
    apply (rule rot; simp)
    done
qed

lemma op_keeps:
  assumes "uuid_law e" and "op_org p = org"
  shows "keeps J (svc_run e s p)"
proof (cases "reads_services p")
  case True
  then show ?thesis by (rule J_quiet[OF op_read_quiet])
next
  case False
  note reads = J_quiet[OF quiet_service_reads(1)] J_quiet[OF quiet_service_reads(3)]
    J_quiet[OF quiet_service_reads(4)] J_quiet[OF quiet_requireDeveloper]
    J_quiet[OF quiet_GenerateAPIKey] J_quiet[OF quiet_HashAPIKey]
  show ?thesis
    using assms(2) False
    by (cases p)
       (auto simp: CreateService_def UpdateService_def DeleteService_def svc_GenerateAPIKey_def
          ListAPIKeys_def RevokeAPIKey_def lift_def split: sum.split
         intro!: keeps_call keeps_ret keeps_fail keeps_case_prod keeps_case_sum reads keeps_audit keeps_inval
           keeps_CreateService keeps_UpdateService keeps_SoftDelete keeps_CreateAPIKey
           keeps_revoke keeps_RotateAPIKey[OF assms(1)])
qed

end

end
