(* ===== verification/Key_Registry.thy ===== *)
theory Key_Registry
  imports Service_Contract "HOL-Library.Sublist"
begin

text \<open>
  What the requests of internal/service keep: the constraints of the tables, the rows of
  the other organizations, the audit trail, and the registry of keys, an abstract state machine
  that creates, revokes and rotates entries. The sublocales at the end instantiate the locale
  \<open>service_invariant\<close> at each of them.
\<close>

section \<open>The registry of keys\<close>

record key_entry =
  ke_service :: string
  ke_org :: string
  ke_prefix :: string
  ke_hash :: string
  ke_live :: bool

type_synonym registry = "string \<rightharpoonup> key_entry"

definition entry_of :: "APIKeyRow \<Rightarrow> key_entry" where
  "entry_of k = \<lparr>ke_service = k_service_id k, ke_org = k_org_id k, ke_prefix = k_prefix k,
     ke_hash = k_key_hash k, ke_live = (k_revoked_at k = None)\<rparr>"

definition key_abs :: "database \<Rightarrow> registry" where
  "key_abs d = map_of (map (\<lambda>k. (k_id k, entry_of k)) (service_api_keys d))"

definition fresh_prefix :: "string \<Rightarrow> registry \<Rightarrow> bool" where
  "fresh_prefix p m \<longleftrightarrow> (\<forall>n \<in> ran m. ke_prefix n \<noteq> p)"

inductive key_step :: "registry \<Rightarrow> registry \<Rightarrow> bool" where
  key_create: "m i = None \<Longrightarrow> fresh_prefix (ke_prefix n) m \<Longrightarrow> ke_live n \<Longrightarrow> key_step m (m(i \<mapsto> n))"
| key_revoke: "m i = Some n \<Longrightarrow> ke_live n \<Longrightarrow> key_step m (m(i \<mapsto> n\<lparr>ke_live := False\<rparr>))"
| key_rotate: "m i = Some n \<Longrightarrow> ke_live n \<Longrightarrow> m j = None \<Longrightarrow> fresh_prefix (ke_prefix n') m \<Longrightarrow>
    ke_live n' \<Longrightarrow> ke_service n' = ke_service n \<Longrightarrow> ke_org n' = ke_org n \<Longrightarrow>
    key_step m (m(i \<mapsto> n\<lparr>ke_live := False\<rparr>, j \<mapsto> n'))"

inductive_cases key_stepE: "key_step m m'"

text \<open>An entry keeps its identity, and one that was revoked stays revoked.\<close>

lemma key_step_entry:
  "key_step m m' \<Longrightarrow> m i = Some n \<Longrightarrow> m' i = Some n \<or> (ke_live n \<and> m' i = Some (n\<lparr>ke_live := False\<rparr>))"
  by (erule key_stepE) auto

lemma key_steps_entry:
  "key_step\<^sup>*\<^sup>* m m' \<Longrightarrow> m i = Some n \<Longrightarrow> m' i = Some n \<or> m' i = Some (n\<lparr>ke_live := False\<rparr>)"
proof (induction rule: rtranclp_induct)
  case (step m1 m2)
  then show ?case using key_step_entry[OF step(2)] by fastforce
qed simp

lemma key_steps_dead:
  "key_step\<^sup>*\<^sup>* m m' \<Longrightarrow> m i = Some n \<Longrightarrow> \<not> ke_live n \<Longrightarrow> m' i = Some n"
proof (induction rule: rtranclp_induct)
  case (step m1 m2)
  then show ?case using key_step_entry[OF step(2)] by blast
qed simp

text \<open>Live entries of one prefix: at most one, whatever happened.\<close>

definition prefixes_unique :: "registry \<Rightarrow> bool" where
  "prefixes_unique m \<longleftrightarrow>
     (\<forall>i j n n'. m i = Some n \<longrightarrow> m j = Some n' \<longrightarrow> ke_prefix n = ke_prefix n' \<longrightarrow> i = j)"

lemma key_step_prefixes: "key_step m m' \<Longrightarrow> prefixes_unique m \<Longrightarrow> prefixes_unique m'"
  by (erule key_stepE) (fastforce simp: prefixes_unique_def fresh_prefix_def ran_def)+

lemma key_steps_prefixes: "key_step\<^sup>*\<^sup>* m m' \<Longrightarrow> prefixes_unique m \<Longrightarrow> prefixes_unique m'"
  by (induction rule: rtranclp_induct) (auto intro: key_step_prefixes)

section \<open>The statements on keys are steps of the registry\<close>

lemma map_of_snoc: "a \<notin> fst ` set xs \<Longrightarrow> map_of (xs @ [(a, b)]) = (map_of xs)(a \<mapsto> b)"
  using map_of_eq_None_iff[of xs a] by (auto simp: map_add_def fun_eq_iff split: option.split)

lemma map_of_update_row:
  assumes "distinct (map f xs)" and "x \<in> set xs" and "f (h x) = f x"
  shows "map_of (map (\<lambda>y. (f y, g y)) (map (\<lambda>y. if f y = f x \<and> P y then h x else y) xs)) =
    (if P x then (map_of (map (\<lambda>y. (f y, g y)) xs))(f x \<mapsto> g (h x)) else map_of (map (\<lambda>y. (f y, g y)) xs))"
  using assms
proof (induction xs)
  case (Cons y ys)
  show ?case
  proof (cases "x = y")
    case True
    then have "map (\<lambda>z. if f z = f x \<and> P z then h x else z) ys = ys"
      using Cons.prems(1) by (intro map_update_where_id) (auto simp: image_iff)
    then show ?thesis using True Cons.prems(3) by (auto simp: comp_def fun_eq_iff)
  next
    case False
    then have "f y \<noteq> f x" using Cons.prems by (auto simp: image_iff)
    then show ?thesis using Cons False by (auto simp: fun_upd_twist)
  qed
qed simp

lemma key_abs_None: "key_abs d i = None \<longleftrightarrow> i \<notin> k_id ` set (service_api_keys d)"
  by (force simp: key_abs_def map_of_eq_None_iff)

lemma key_abs_Some:
  assumes "db_ok d" and "k \<in> set (service_api_keys d)"
  shows "key_abs d (k_id k) = Some (entry_of k)"
  using assms by (auto simp: key_abs_def ok_defs comp_def)

lemma key_abs_row:
  "key_abs d i = Some n \<Longrightarrow> \<exists>k \<in> set (service_api_keys d). k_id k = i \<and> n = entry_of k"
  by (auto simp: key_abs_def dest!: map_of_SomeD)

lemma insert_api_key_Inr:
  "insert_api_key k d = (Inr k', d') \<Longrightarrow>
   k' = k \<and> d' = d\<lparr>service_api_keys := service_api_keys d @ [k]\<rparr> \<and>
   k_id k \<notin> k_id ` set (service_api_keys d) \<and> k_prefix k \<notin> k_prefix ` set (service_api_keys d)"
  by (simp add: insert_api_key_def constrained_Inr)

lemma insert_key_abs:
  assumes "insert_api_key k d = (Inr k', d')"
  shows "key_abs d (k_id k) = None" and "fresh_prefix (k_prefix k) (key_abs d)"
    and "key_abs d' = (key_abs d)(k_id k \<mapsto> entry_of k)"
proof -
  note ins = insert_api_key_Inr[OF assms]
  show "key_abs d (k_id k) = None" using ins by (simp add: key_abs_None)
  show "fresh_prefix (k_prefix k) (key_abs d)"
    unfolding fresh_prefix_def
  proof
    fix n assume "n \<in> ran (key_abs d)"
    then obtain i where "key_abs d i = Some n" by (auto simp: ran_def)
    from key_abs_row[OF this] obtain k0 where "k0 \<in> set (service_api_keys d)" "n = entry_of k0" by blast
    then show "ke_prefix n \<noteq> k_prefix k" using ins by (auto simp: entry_of_def image_iff)
  qed
  show "key_abs d' = (key_abs d)(k_id k \<mapsto> entry_of k)"
    using ins by (simp add: key_abs_def map_of_snoc image_image del: map_of_append)
qed

lemma revoke_key_abs:
  assumes "db_ok d" and "revoke_stmt kid sid oid now i d = (Inr k', d')"
  obtains n where "key_abs d kid = Some n" and "ke_live n" and "ke_service n = sid" and "ke_org n = oid"
    and "key_abs d' = (key_abs d)(kid \<mapsto> n\<lparr>ke_live := False\<rparr>)"
proof -
  obtain k where k: "k \<in> set (service_api_keys d)" "key_row kid sid oid k" "k_revoked_at k = None"
    and d': "d' = d\<lparr>service_api_keys := revoke_rows kid sid oid now (service_api_keys d)\<rparr>"
    using revoke_stmt_Inr[OF assms(2)] by blast
  have dist: "distinct (map k_id (service_api_keys d))" using assms(1) by (simp add: ok_defs)
  have rows: "revoke_rows kid sid oid now (service_api_keys d) =
    map (\<lambda>y. if k_id y = k_id k \<and> k_revoked_at y = None then k\<lparr>k_revoked_at := Some now\<rparr> else y)
      (service_api_keys d)"
    unfolding revoke_rows_def
  proof (rule map_cong[OF refl])
    fix y assume "y \<in> set (service_api_keys d)"
    then have "k_id y = k_id k \<Longrightarrow> y = k" using distinct_map_eq[OF dist _ k(1)] by blast
    then show "(if key_row kid sid oid y \<and> k_revoked_at y = None then y\<lparr>k_revoked_at := Some now\<rparr> else y) =
      (if k_id y = k_id k \<and> k_revoked_at y = None then k\<lparr>k_revoked_at := Some now\<rparr> else y)"
      using k(2) by (auto simp: key_row_def)
  qed
  have "key_abs d' = (key_abs d)(k_id k \<mapsto> entry_of (k\<lparr>k_revoked_at := Some now\<rparr>))"
    unfolding key_abs_def d' rows
    using map_of_update_row[OF dist k(1), of "\<lambda>k. k\<lparr>k_revoked_at := Some now\<rparr>" entry_of "\<lambda>y. k_revoked_at y = None"] k(3)
    by simp
  moreover have "entry_of (k\<lparr>k_revoked_at := Some now\<rparr>) = (entry_of k)\<lparr>ke_live := False\<rparr>"
    by (simp add: entry_of_def)
  ultimately show thesis
    using that[of "entry_of k"] key_abs_Some[OF assms(1) k(1)] k by (simp add: key_row_def entry_of_def)
qed

section \<open>The constraints\<close>

lemma map_if_same: "(\<And>x. P x \<Longrightarrow> f (h x) = f x) \<Longrightarrow> map f (map (\<lambda>x. if P x then h x else x) xs) = map f xs"
  by (induction xs) auto

lemma image_if_same: "(\<And>x. P x \<Longrightarrow> f (h x) = f x) \<Longrightarrow> f ` (\<lambda>x. if P x then h x else x) ` A = f ` A"
  unfolding image_image by (rule image_cong) auto

lemma revoke_ok:
  assumes "db_ok d" and "revoke_stmt kid sid oid now i d = (Inr k', d')"
  shows "db_ok d'"
proof -
  have "d' = d\<lparr>service_api_keys := revoke_rows kid sid oid now (service_api_keys d)\<rparr>"
    using revoke_stmt_Inr[OF assms(2)] by blast
  then show ?thesis using assms(1)
    by (simp add: ok_defs revoke_rows_def map_if_same image_if_same del: map_map if_image_distrib)
qed

lemma active_names_delete:
  "active_names (map (\<lambda>x. if P x then x\<lparr>s_deleted_at := Some t, s_updated_at := u\<rparr> else x) xs) =
   active_names (filter (\<lambda>x. \<not> P x) xs)"
  by (induction xs) (auto simp: active_names_def)

lemma filter_commute: "filter P (filter Q xs) = filter Q (filter P xs)"
  by (induction xs) auto

lemma active_names_filter: "distinct (active_names xs) \<Longrightarrow> distinct (active_names (filter P xs))"
  unfolding active_names_def by (subst filter_commute) (rule distinct_map_filter)

lemma soft_delete_ok:
  assumes "db_ok d" and "soft_delete sid oid t i d = (Inr z, d')"
  shows "db_ok d'"
proof -
  have d': "d' = d\<lparr>services := map (\<lambda>s. if live_service sid oid s
      then s\<lparr>s_deleted_at := Some t, s_updated_at := t\<rparr> else s) (services d)\<rparr>"
    using assms(2) by (simp add: soft_delete_def)
  then show ?thesis using assms(1)
    by (simp add: ok_defs map_if_same image_if_same active_names_delete active_names_filter
        del: map_map if_image_distrib)
qed

text \<open>A new name is free among the other services of the organization.\<close>

lemma active_names_rename:
  assumes "distinct (map s_id xs)" and "distinct (active_names xs)" and "x \<in> set xs" and "live_service sid oid x"
    and "name_free oid (s_name x') (filter (\<lambda>x. s_id x \<noteq> sid) xs)"
    and "s_org_id x' = oid" and "s_deleted_at x' = None"
  shows "distinct (active_names (map (\<lambda>y. if live_service sid oid y then x' else y) xs))"
proof -
  let ?g = "\<lambda>y. if live_service sid oid y then x' else y"
  let ?N = "\<lambda>s. (s_org_id s, s_name s)" and ?p = "\<lambda>s. s_deleted_at s = None"
  have "filter ?p (map ?g xs) = map ?g (filter ?p xs)"
    using assms(7) by (induction xs) (auto simp: live_service_def)
  then have eq: "active_names (map ?g xs) = map (?N \<circ> ?g) (filter ?p xs)" by (simp add: active_names_def)
  have old: "distinct (filter ?p xs)" "inj_on ?N (set (filter ?p xs))"
    using assms(2) by (simp_all add: active_names_def distinct_map)
  have other: "?N y \<noteq> (oid, s_name x')" if "y \<in> set (filter ?p xs)" "\<not> live_service sid oid y" for y
    using assms(5) that by (auto simp: name_free_def list_ex_iff live_service_def)
  have same: "y = x" if "y \<in> set xs" "live_service sid oid y" for y
    using distinct_map_eq[OF assms(1) that(1) assms(3)] that(2) assms(4) by (simp add: live_service_def)
  have "inj_on (?N \<circ> ?g) (set (filter ?p xs))"
  proof (rule inj_onI)
    fix a b assume ab: "a \<in> set (filter ?p xs)" "b \<in> set (filter ?p xs)" "(?N \<circ> ?g) a = (?N \<circ> ?g) b"
    show "a = b"
    proof (cases "live_service sid oid a \<or> live_service sid oid b")
      case True
      then show ?thesis
        using ab other[of a] other[of b] same[of a] same[of b] assms(6) by (auto split: if_splits)
    next
      case False
      then show ?thesis using ab inj_onD[OF old(2)] by auto
    qed
  qed
  then show ?thesis using old(1) unfolding eq distinct_map by simp
qed

lemma update_service_ok:
  assumes ok: "db_ok d" and upd: "update_service sid oid nm ds t i d = (Inr y, d')"
  shows "db_ok d'"
proof -
  define x' where "x' x = x\<lparr>s_name := nm, s_description := ds, s_updated_at := t\<rparr>" for x :: ServiceRow
  obtain x where x: "x \<in> set (services d)" "live_service sid oid x"
    and free: "name_free oid nm (filter (\<lambda>x. s_id x \<noteq> sid) (services d))"
    and d': "d' = d\<lparr>services := map (\<lambda>y. if live_service sid oid y then x' x else y) (services d)\<rparr>"
    using upd unfolding x'_def
    by (auto simp: update_service_def constrained_Inr Let_def split: option.splits dest!: find_Some_D)
  have same: "s_id (x' x) = sid" "s_org_id (x' x) = oid" "s_deleted_at (x' x) = None" "s_name (x' x) = nm"
    using x(2) by (simp_all add: x'_def live_service_def)
  have rows: "live_service sid oid y \<Longrightarrow> s_id (x' x) = s_id y" "live_service sid oid y \<Longrightarrow> s_org_id (x' x) = s_org_id y" for y
    using same by (simp_all add: live_service_def)
  have "distinct (active_names (services d'))"
    unfolding d' by simp (rule active_names_rename[OF _ _ x _ same(2,3)]; use ok free same(4) in \<open>simp add: ok_defs\<close>)
  then show ?thesis
    using ok rows by (simp add: d' ok_defs map_if_same image_if_same del: map_map if_image_distrib)
qed

section \<open>What every request keeps\<close>

text \<open>The rows that are not the organization's\<close>

definition outside :: "env \<Rightarrow> string \<Rightarrow> database \<Rightarrow> database" where
  "outside e org d = d\<lparr>services := filter (\<lambda>s. pg_uuid e org \<noteq> Some (s_org_id s)) (services d),
     service_api_keys := filter (\<lambda>k. pg_uuid e org \<noteq> Some (k_org_id k)) (service_api_keys d),
     audit_events := []\<rparr>"

definition registry_inv :: "registry \<Rightarrow> database \<Rightarrow> bool" where
  "registry_inv m d \<longleftrightarrow> db_ok d \<and> key_step\<^sup>*\<^sup>* m (key_abs d)"

definition trail :: "AuditRow list \<Rightarrow> database \<Rightarrow> bool" where
  "trail as d \<longleftrightarrow> prefix as (audit_events d)"

lemma db_ok_audit: "audit_grows d d' \<Longrightarrow> db_ok d' = db_ok d"
  unfolding audit_grows_def by (elim disjE exE) (simp_all add: ok_defs)

lemma key_abs_audit: "audit_grows d d' \<Longrightarrow> key_abs d' = key_abs d"
  by (auto simp: audit_grows_def key_abs_def)

lemma outside_audit: "audit_grows d d' \<Longrightarrow> outside e org d' = outside e org d"
  by (auto simp: audit_grows_def outside_def)

lemma registry_invI: "db_ok d' \<Longrightarrow> key_step\<^sup>*\<^sup>* m (key_abs d') \<Longrightarrow> registry_inv m d'"
  by (simp add: registry_inv_def)

lemma registry_same:
  "registry_inv m d \<Longrightarrow> db_ok d' \<Longrightarrow> service_api_keys d' = service_api_keys d \<Longrightarrow> registry_inv m d'"
  by (simp add: registry_inv_def key_abs_def)

lemma update_service_keys:
  "update_service sid oid nm ds t i d = (Inr y, d') \<Longrightarrow> service_api_keys d' = service_api_keys d"
  by (auto simp: update_service_def constrained_Inr Let_def split: option.splits)

lemma registry_insert:
  assumes "registry_inv m d" and "insert_api_key k d = (Inr k', d')" and "k_revoked_at k = None"
  shows "registry_inv m d'"
proof (rule registry_invI)
  show "db_ok d'" using assms(1,2) insert_api_key_ok by (auto simp: registry_inv_def)
  have "key_step (key_abs d) (key_abs d')"
    unfolding insert_key_abs(3)[OF assms(2)]
    by (rule key_create)
       (use insert_key_abs(1,2)[OF assms(2)] assms(3) in \<open>simp_all add: entry_of_def\<close>)
  then show "key_step\<^sup>*\<^sup>* m (key_abs d')" using assms(1) by (auto simp: registry_inv_def)
qed

lemma registry_revoke:
  assumes "registry_inv m d" and "revoke_stmt kid sid oid t i d = (Inr k', d')"
  shows "registry_inv m d'"
proof (rule registry_invI)
  have ok: "db_ok d" using assms(1) by (simp add: registry_inv_def)
  then show "db_ok d'" using assms(2) by (rule revoke_ok)
  have "key_step (key_abs d) (key_abs d')"
    by (rule revoke_key_abs[OF ok assms(2)]) (metis key_revoke)
  then show "key_step\<^sup>*\<^sup>* m (key_abs d')" using assms(1) by (auto simp: registry_inv_def)
qed

text \<open>The two statements of a rotation are one step.\<close>

lemma rotate_key_abs:
  assumes "db_ok d" and "revoke_stmt kid sid oid t i d = (Inr k', d1)"
    and "insert_api_key k d1 = (Inr k'', d')" and "k_revoked_at k = None"
    and "k_org_id k = oid" and "k_service_id k = sid"
  shows "key_step (key_abs d) (key_abs d')"
proof (rule revoke_key_abs[OF assms(1,2)])
  fix n assume n: "key_abs d kid = Some n" "ke_live n" "ke_service n = sid" "ke_org n = oid"
    and d1: "key_abs d1 = (key_abs d)(kid \<mapsto> n\<lparr>ke_live := False\<rparr>)"
  note ins = insert_key_abs[OF assms(3)]
  have new: "key_abs d (k_id k) = None" using ins(1) d1 by (auto split: if_splits)
  have "fresh_prefix (k_prefix k) (key_abs d)"
    unfolding fresh_prefix_def
  proof
    fix x assume "x \<in> ran (key_abs d)"
    then obtain j where j: "key_abs d j = Some x" by (auto simp: ran_def)
    show "ke_prefix x \<noteq> k_prefix k"
    proof (cases "j = kid")
      case True
      then have "n\<lparr>ke_live := False\<rparr> \<in> ran (key_abs d1)" unfolding d1 by (auto simp: ran_def)
      then have "ke_prefix (n\<lparr>ke_live := False\<rparr>) \<noteq> k_prefix k" using ins(2) unfolding fresh_prefix_def by blast
      then show ?thesis using True j n(1) by simp
    next
      case False
      then have "x \<in> ran (key_abs d1)" using j unfolding d1 ran_def by auto
      then show ?thesis using ins(2) by (simp add: fresh_prefix_def)
    qed
  qed
  then show ?thesis
    unfolding ins(3) d1
    by (intro key_rotate) (use n new assms in \<open>simp_all add: entry_of_def\<close>)
qed

lemma registry_rotate:
  assumes "registry_inv m d" and "revoke_stmt kid sid oid t i d = (Inr k', d1)"
    and "insert_api_key k d1 = (Inr k'', d')" and "k_revoked_at k = None"
    and "k_org_id k = oid" and "k_service_id k = sid"
  shows "registry_inv m d'"
proof (rule registry_invI)
  have ok: "db_ok d" using assms(1) by (simp add: registry_inv_def)
  show "db_ok d'" using insert_api_key_ok[OF revoke_ok[OF ok assms(2)] assms(3)] .
  show "key_step\<^sup>*\<^sup>* m (key_abs d')"
    using rotate_key_abs[OF ok assms(2-6)] assms(1) by (auto simp: registry_inv_def)
qed

sublocale service_env \<subseteq> keys: service_invariant e s org "\<lambda>n. registry_inv m" for org m
proof (unfold_locales, goal_cases)
  case (1 n d n' d')
  then show ?case by (simp add: registry_inv_def db_ok_audit key_abs_audit)
next
  case (2 n d x y d')
  then show ?case
    by (intro registry_same[OF 2(1)] insert_service_ok[OF _ 2(3)])
       (auto simp: registry_inv_def insert_service_def constrained_Inr)
next
  case (3 n d oid sid nm ds t i y d')
  then show ?case
    by (intro registry_same[OF 3(1)] update_service_ok[OF _ 3(3)] update_service_keys[OF 3(3)])
       (simp add: registry_inv_def)
next
  case (4 n d oid sid t i z d')
  then show ?case
    by (intro registry_same[OF 4(1)] soft_delete_ok[OF _ 4(3)]) (auto simp: registry_inv_def soft_delete_def)
next
  case (5 n d k k' d')
  show ?case by (rule registry_insert[OF 5(1,4,3)])
next
  case (6 n d oid kid sid i k' d')
  show ?case by (rule registry_revoke[OF 6(1,3)])
next
  case (7 n d oid kid sid i k' d1 k k'' d')
  show ?case by (rule registry_rotate[OF 7(1,3,7,4-6)])
qed

text \<open>The rows of other organizations\<close>

lemma filter_if_same:
  "(\<And>x. x \<in> set xs \<Longrightarrow> P x \<Longrightarrow> \<not> Q x \<and> \<not> Q (h x)) \<Longrightarrow>
   filter Q (map (\<lambda>x. if P x then h x else x) xs) = filter Q xs"
  by (induction xs) auto

lemma outside_insert_key:
  "pg_uuid e org = Some (k_org_id k) \<Longrightarrow> insert_api_key k d = (Inr k', d') \<Longrightarrow> outside e org d' = outside e org d"
  by (auto simp: outside_def dest!: insert_api_key_Inr)

lemma outside_revoke:
  assumes "pg_uuid e org = Some oid" and "revoke_stmt kid sid oid t i d = (Inr k', d')"
  shows "outside e org d' = outside e org d"
proof -
  have "d' = d\<lparr>service_api_keys := revoke_rows kid sid oid t (service_api_keys d)\<rparr>"
    using revoke_stmt_Inr[OF assms(2)] by blast
  moreover have "filter (\<lambda>k. oid \<noteq> k_org_id k) (revoke_rows kid sid oid t xs) = filter (\<lambda>k. oid \<noteq> k_org_id k) xs" for xs
    unfolding revoke_rows_def by (rule filter_if_same) (simp add: key_row_def)
  ultimately show ?thesis using assms(1) by (simp add: outside_def)
qed

lemma outside_update:
  assumes "pg_uuid e org = Some oid" and "update_service sid oid nm ds t i d = (Inr y, d')"
  shows "outside e org d' = outside e org d"
proof -
  obtain x where "live_service sid oid x" and "d' = d\<lparr>services := map (\<lambda>y. if live_service sid oid y
        then x\<lparr>s_name := nm, s_description := ds, s_updated_at := t\<rparr> else y) (services d)\<rparr>"
    using assms(2) by (auto simp: update_service_def constrained_Inr Let_def split: option.splits dest!: find_Some_D)
  moreover have "filter (\<lambda>s. oid \<noteq> s_org_id s) (map (\<lambda>y. if live_service sid oid y
      then x\<lparr>s_name := nm, s_description := ds, s_updated_at := t\<rparr> else y) xs) = filter (\<lambda>s. oid \<noteq> s_org_id s) xs"
    for xs by (rule filter_if_same) (use \<open>live_service sid oid x\<close> in \<open>simp add: live_service_def\<close>)
  ultimately show ?thesis using assms(1) by (simp add: outside_def)
qed

lemma outside_delete:
  assumes "pg_uuid e org = Some oid" and "soft_delete sid oid t i d = (Inr z, d')"
  shows "outside e org d' = outside e org d"
proof -
  have "filter (\<lambda>s. oid \<noteq> s_org_id s) (map (\<lambda>s. if live_service sid oid s
      then s\<lparr>s_deleted_at := Some t, s_updated_at := t\<rparr> else s) xs) = filter (\<lambda>s. oid \<noteq> s_org_id s) xs"
    for xs by (rule filter_if_same) (simp add: live_service_def)
  then show ?thesis using assms by (auto simp: outside_def soft_delete_def)
qed

sublocale service_env \<subseteq> alien: service_invariant e s org "\<lambda>n d. outside e org d = rest" for org rest
proof (unfold_locales, goal_cases)
  case (2 n d x y d')
  then show ?case by (auto simp: outside_def insert_service_def constrained_Inr)
qed (auto simp: outside_audit outside_insert_key outside_revoke outside_update outside_delete)

text \<open>The audit trail\<close>

lemma trail_same: "trail as d \<Longrightarrow> audit_events d' = audit_events d \<Longrightarrow> trail as d'"
  by (simp add: trail_def)

lemma trail_grows: "trail as d \<Longrightarrow> audit_grows d d' \<Longrightarrow> trail as d'"
  by (auto simp: trail_def audit_grows_def)

lemma revoke_audit: "revoke_stmt kid sid oid t i d = (Inr k', d') \<Longrightarrow> audit_events d' = audit_events d"
  by (auto dest!: revoke_stmt_Inr)

lemma key_audit: "insert_api_key k d = (Inr k', d') \<Longrightarrow> audit_events d' = audit_events d"
  by (auto dest!: insert_api_key_Inr)

sublocale service_env \<subseteq> history: service_invariant e s org "\<lambda>n. trail as" for org as
proof (unfold_locales, goal_cases)
  case (1 n d n' d')
  show ?case by (rule trail_grows[OF 1(1,3)])
next
  case (2 n d x y d')
  then show ?case by (auto simp: insert_service_def constrained_Inr intro: trail_same)
next
  case (3 n d oid sid nm ds t i y d')
  then show ?case
    by (auto simp: update_service_def constrained_Inr Let_def split: option.splits intro: trail_same)
next
  case (4 n d oid sid t i z d')
  then show ?case by (auto simp: soft_delete_def intro: trail_same)
next
  case (5 n d k k' d')
  then show ?case by (metis key_audit trail_same)
next
  case (6 n d oid kid sid i k' d')
  then show ?case by (metis revoke_audit trail_same)
next
  case (7 n d oid kid sid i k' d1 k k'' d')
  then show ?case by (metis revoke_audit key_audit trail_same)
qed

section \<open>Sequences of requests\<close>

lemma fold_keeps:
  assumes "\<And>p w. p \<in> set ops \<Longrightarrow> P w \<Longrightarrow> P (svc_exec e s p w)" and "P w"
  shows "P (fold (svc_exec e s) ops w)"
  using assms by (induction ops arbitrary: w) auto

context service_env
begin

lemma exec_registry: "uuid_law e \<Longrightarrow> registry_inv m (db w) \<Longrightarrow> registry_inv m (db (svc_exec e s p w))"
  using keys.op_keeps[of p "op_org p" m] by (simp add: keeps_def svc_exec_def)

lemma exec_outside:
  "uuid_law e \<Longrightarrow> outside e (op_org p) (db (svc_exec e s p w)) = outside e (op_org p) (db w)"
  using alien.op_keeps[of p "op_org p" "outside e (op_org p) (db w)"] by (simp add: keeps_def svc_exec_def)

lemma exec_trail: "uuid_law e \<Longrightarrow> trail as (db w) \<Longrightarrow> trail as (db (svc_exec e s p w))"
  using history.op_keeps[of p "op_org p" as] by (simp add: keeps_def svc_exec_def)

lemma all_registry: "uuid_law e \<Longrightarrow> registry_inv m (db w) \<Longrightarrow> registry_inv m (db (fold (svc_exec e s) ops w))"
  by (rule fold_keeps[of ops "\<lambda>w. registry_inv m (db w)"]) (auto intro: exec_registry)

lemma all_trail: "uuid_law e \<Longrightarrow> trail as (db w) \<Longrightarrow> trail as (db (fold (svc_exec e s) ops w))"
  by (rule fold_keeps[of ops "\<lambda>w. trail as (db w)"]) (auto intro: exec_trail)

lemma all_outside:
  "uuid_law e \<Longrightarrow> \<forall>p \<in> set ops. op_org p = org \<Longrightarrow>
   outside e org (db (fold (svc_exec e s) ops w)) = outside e org (db w)"
  by (rule fold_keeps[of ops "\<lambda>v. outside e org (db v) = outside e org (db w)"]) (auto simp: exec_outside)

end

lemma registry_start: "db_ok d \<Longrightarrow> registry_inv (key_abs d) d"
  by (simp add: registry_inv_def)

section \<open>What a rotation returns\<close>

text \<open>bcrypt accepts the password a hash was made from.\<close>

definition bcrypt_law :: "env \<Rightarrow> bool" where
  "bcrypt_law e \<longleftrightarrow> (\<forall>n pw h. bcrypt_gen e n pw = Some h \<longrightarrow> bcrypt_cmp e h pw)"

lemma HashAPIKey_Inr:
  "bcrypt_law e \<Longrightarrow> HashAPIKey e raw w = (Inr h, w') \<Longrightarrow> ValidateAPIKey e raw h = None"
  by (auto simp: HashAPIKey_def GenerateFromPassword_def bcrypt_law_def ValidateAPIKey_def split: option.splits)

lemma GenerateAPIKey_prefix:
  "GenerateAPIKey e w = (Inr (raw, pfx), w') \<Longrightarrow> ExtractAPIKeyPrefix raw = Inr pfx"
  by (erule GenerateAPIKey_shape)
     (use ExtractAPIKeyPrefix_build no_underscore(1) in \<open>metis in_mono\<close>)

definition rotated_to :: "env \<Rightarrow> registry \<Rightarrow> registry \<Rightarrow> string \<Rightarrow> CreateAPIKeyResponse \<Rightarrow> bool" where
  "rotated_to e m m' keyID resp \<longleftrightarrow>
     (\<exists>kid n n'. pg_uuid e keyID = Some kid \<and> m kid = Some n \<and> ke_live n \<and> m (ck_ID resp) = None \<and>
        m' = m(kid \<mapsto> n\<lparr>ke_live := False\<rparr>, ck_ID resp \<mapsto> n') \<and> ke_live n' \<and>
        ke_service n' = ke_service n \<and> ke_org n' = ke_org n \<and> ke_prefix n' = ck_Prefix resp \<and>
        ExtractAPIKeyPrefix (ck_APIKey resp) = Inr (ck_Prefix resp) \<and>
        ValidateAPIKey e (ck_APIKey resp) (ke_hash n') = None)"

context service_env
begin

lemma writeAudit_grows: "writeAudit s ev w = (r, w') \<Longrightarrow> audit_grows (db w) (db w') \<and> (\<exists>u. r = Inr u)"
  by (cases "ss_audit s") (auto simp: writeAudit_def prog_simps audit_grows_def dest: audit_grow)

lemma inval_Inr: "invalidateKeyCache s pfx w = (r, w') \<Longrightarrow> db w' = db w \<and> (\<exists>u. r = Inr u)"
  by (cases "ss_keyInvalidator s") (auto simp: invalidateKeyCache_def prog_simps dest: inval_db)

lemma RotateAPIKey_Inl_same:
  assumes "RotateAPIKey e s org sid keyID u ip w = (Inl x, w')"
  shows "db w' = db w"
  using assms
  by (auto simp: RotateAPIKey_def prog_simps dest!: quietD[OF quiet_requireDeveloper] quietD[OF quiet_service_reads(1)]
      quietD[OF quiet_service_reads(5)] quietD[OF quiet_GenerateAPIKey] quietD[OF quiet_HashAPIKey]
      RotateAPIKey_Inl writeAudit_grows inval_Inr split: if_splits)

lemma RotateAPIKey_Inr_step:
  assumes law: "uuid_law e" "bcrypt_law e" and ok: "db_ok (db w)"
    and run: "RotateAPIKey e s org sid keyID u ip w = (Inr resp, w')"
  shows "rotated_to e (key_abs (db w)) (key_abs (db w')) keyID resp"
proof -
  obtain x1 x2 w1 w2 w3 w4 w5 w6 w7 u7 u8 old raw pfx h stored where
    r1: "requireDeveloper s org u w = (Inr x1, w1)" and r2: "GetServiceByID e org sid w1 = (Inr x2, w2)"
    and r3: "GetAPIKeyByID e org sid keyID w2 = (Inr old, w3)"
    and r4: "GenerateAPIKey e w3 = (Inr (raw, pfx), w4)" and r5: "HashAPIKey e raw w4 = (Inr h, w5)"
    and r6: "repo_RotateAPIKey e old \<lparr>nk_ServiceID = sid, nk_OrgID = org, nk_Prefix = pfx,
               nk_KeyHash = h, nk_Label = ak_Label old, nk_CreatedBy = u\<rparr> w5 = (Inr stored, w6)"
    and r7: "writeAudit s (service_event org u ''api_key.rotated'' ''api_key'' (ak_ID stored)
               [(''service_id'', json_string sid), (''prefix'', json_string (ak_Prefix stored)),
                (''rotated_from_id'', json_string (ak_ID old))] ip) w6 = (Inr u7, w7)"
    and r8: "invalidateKeyCache s (ak_Prefix old) w7 = (Inr u8, w')"
    and resp: "resp = created_response stored raw"
    using run unfolding RotateAPIKey_def by (auto simp: prog_simps split: if_splits)
  have dbs: "db w5 = db w" "db w2 = db w"
    using quietD[OF quiet_requireDeveloper r1] quietD[OF quiet_service_reads(1) r2] quietD[OF quiet_service_reads(5) r3]
      quietD[OF quiet_GenerateAPIKey r4] quietD[OF quiet_HashAPIKey r5] by simp_all
  obtain row where row: "row \<in> set (service_api_keys (db w))" "old = scan_key row"
    and ids: "pg_uuid e keyID = Some (k_id row)" "pg_uuid e sid = Some (k_service_id row)"
      "pg_uuid e org = Some (k_org_id row)"
    using GetAPIKeyByID_Inr[OF r3] dbs by auto
  have canon: "pg_uuid e (ak_ID old) = Some (k_id row)" "pg_uuid e (ak_ServiceID old) = Some (k_service_id row)"
    "pg_uuid e (ak_OrgID old) = Some (k_org_id row)"
    using ids law(1) row(2) by (auto simp: scan_key_def uuid_law_def)
  show ?thesis
  proof (rule rotate_Inr[OF r6])
    fix n m kid sid' oid i k' new d1 k''
    assume u: "pg_uuid e (ak_ID old) = Some kid" "pg_uuid e (ak_ServiceID old) = Some sid'"
        "pg_uuid e (ak_OrgID old) = Some oid"
      and rev: "revoke_stmt kid sid' oid (clk e n) i (db w5) = (Inr k', d1)"
      and ins: "insert_api_key new d1 = (Inr k'', db w6)" "stored = scan_key k''"
      and new: "pg_uuid e (nk_ServiceID \<lparr>nk_ServiceID = sid, nk_OrgID = org, nk_Prefix = pfx,
          nk_KeyHash = h, nk_Label = ak_Label old, nk_CreatedBy = u\<rparr>) = Some (k_service_id new)"
        "pg_uuid e (nk_OrgID \<lparr>nk_ServiceID = sid, nk_OrgID = org, nk_Prefix = pfx,
          nk_KeyHash = h, nk_Label = ak_Label old, nk_CreatedBy = u\<rparr>) = Some (k_org_id new)"
        "k_prefix new = nk_Prefix \<lparr>nk_ServiceID = sid, nk_OrgID = org, nk_Prefix = pfx,
          nk_KeyHash = h, nk_Label = ak_Label old, nk_CreatedBy = u\<rparr>"
        "k_key_hash new = nk_KeyHash \<lparr>nk_ServiceID = sid, nk_OrgID = org, nk_Prefix = pfx,
          nk_KeyHash = h, nk_Label = ak_Label old, nk_CreatedBy = u\<rparr>"
        "k_revoked_at new = None"
    have ok5: "db_ok (db w5)" using ok dbs by simp
    show ?thesis
    proof (rule revoke_key_abs[OF ok5 rev])
      fix ent assume ent: "key_abs (db w5) kid = Some ent" "ke_live ent" "ke_service ent = sid'" "ke_org ent = oid"
        and d1: "key_abs d1 = (key_abs (db w5))(kid \<mapsto> ent\<lparr>ke_live := False\<rparr>)"
      note abs6 = insert_key_abs[OF ins(1)]
      have "k'' = new" using insert_api_key_Inr[OF ins(1)] by simp
      moreover have "key_abs (db w) (k_id new) = None" using abs6(1) d1 dbs by (auto split: if_splits)
      moreover have "key_abs (db w') = key_abs (db w6)"
        using key_abs_audit writeAudit_grows[OF r7] inval_Inr[OF r8] by simp
      ultimately show ?thesis
        unfolding rotated_to_def
        using u ids canon ent d1 abs6(3) new dbs(1) ins(2) resp GenerateAPIKey_prefix[OF r4]
          HashAPIKey_Inr[OF law(2) r5]
        by (intro exI[of _ kid] exI[of _ ent] exI[of _ "entry_of new"])
           (simp add: entry_of_def created_response_def scan_key_def)
    qed
  qed
qed

end

end
