(* ===== verification/Service_Props.thy ===== *)
theory Service_Props
  imports Key_Registry Org_Props
begin

text \<open>
  What the requests of internal/service do for the callers of the API: who may make them, what
  they leave alone, the life of a key, and that a generated key is the one that authenticates.
\<close>

section \<open>Sample data\<close>

definition sample_key_db :: database where
  "sample_key_db = sample_org_db
     \<lparr>services := [\<lparr>s_id = ''svc'', s_org_id = ''org'', s_name = ''Api'', s_description = None,
         s_created_by = ''alice'', s_created_at = 0, s_updated_at = 0, s_deleted_at = None\<rparr>],
      service_api_keys := [\<lparr>k_id = ''k1'', k_service_id = ''svc'', k_org_id = ''org'', k_prefix = ''ll_bbbbbbbb'',
         k_key_hash = ''bcrypt:ll_bbbbbbbb_1'', k_label = None, k_created_by = ''alice'', k_created_at = 0,
         k_revoked_at = None, k_last_used_at = None, k_rotated_from_id = None\<rparr>]\<rparr>"

definition sample_key_world :: "keyspace world" where
  "sample_key_world = \<lparr>db = sample_key_db, redis = Map.empty, tick = 0\<rparr>"

definition no_env :: "string \<Rightarrow> string" where
  "no_env k = []"

abbreviation sample_key_cache :: "keyspace APIKeyCache" where
  "sample_key_cache \<equiv> NewAPIKeyCache no_env (store_of up_client True) (KeyLookup sample_env)"

abbreviation sample_key_service :: "keyspace ServiceService" where
  "sample_key_service \<equiv> main_key_service sample_env sample_key_cache"

lemma sample_key_ok: "db_ok sample_key_db"
  by (simp add: ok_defs sample_key_db_def sample_org_db_def empty_db_def active_names_def)

lemma randomString_sample: "randomString sample_env n w = (Inr (replicate n (CHR ''a'')), w\<lparr>tick := tick w + n\<rparr>)"
proof (induction n arbitrary: w)
  case (Suc n)
  then show ?case by (simp add: call_def ret_def RandInt_def sample_env_simps apiKeyChars_def)
qed (simp add: ret_def)

definition sample_raw_key :: string where
  "sample_raw_key = ''ll_aaaaaaaa_00000000000000000000000000000000''"

lemma GenerateAPIKey_sample [run_rules]:
  "GenerateAPIKey sample_env w = (Inr (sample_raw_key, ''ll_aaaaaaaa''), w\<lparr>tick := tick w + 9\<rparr>)"
proof -
  have "EncodeToString (replicate 16 (CHR 0x00)) = ''00000000000000000000000000000000''"
    by code_simp
  moreover have "replicate 8 (CHR ''a'') = ''aaaaaaaa''" by (simp add: numeral_eq_Suc)
  ultimately show ?thesis
    by (simp add: GenerateAPIKey_def call_def ret_def randomString_sample RandRead_def sample_env_simps
        api_key_consts sample_raw_key_def)
qed

lemmas key_run =
  svc_ops requireMember_def requireDeveloper_def writeAudit_def invalidateKeyCache_def
  normalizeServiceName_def lift_def service_event_def created_response_def service_repo_defs
  main_key_service_def GetOrgMemberRole_def IsDeveloperRole_def role_in_def
  PostgresWriter_def ActorTypeUser_def nullUUID_def null_inet_def insert_new_key_def revoke_stmt_def revoke_rows_def
  key_row_def live_service_def update_service_def soft_delete_def scan_key_def scan_service_def
  coalesce_def nullString_def active_keys_def toServiceResponse_def toAPIKeyResponse_def
  NewAPIKeyCache_def durationFromEnv_def no_env_def Invalidate_def KeyLookup_def
  HashAPIKey_def prefixKey_def revokedKey_def duration_defs
  sample_raw_key_def sample_key_db_def sample_key_world_def sample_org_db_def run_defs

lemma sample_rotate:
  "\<exists>resp w'. RotateAPIKey sample_env sample_key_service ''org'' ''svc'' ''k1'' ''alice'' ''ip'' sample_key_world = (Inr resp, w')"
  by (simp add: key_run role_defs varchar_def rune_count_ascii ascii_def run_rules cong: run_congs)


lemma sample_key_start: "registry_inv (key_abs (db sample_key_world)) (db sample_key_world)"
  by (rule registry_start) (simp add: sample_key_world_def sample_key_ok)

section \<open>Properties\<close>

text \<open>
  The service implements the registry: whatever requests it gets, the keys in the table
  move by steps of the registry only, the constraints of the tables hold, and so a prefix
  belongs to one key.
\<close>

theorem keys_refine_registry:
  assumes "uuid_law e" and "db_ok (db w)"
  shows "let w' = fold (svc_exec e (main_key_service e kc)) ops w in
    db_ok (db w') \<and> key_step\<^sup>*\<^sup>* (key_abs (db w)) (key_abs (db w'))"
  using main_keys.all_registry[OF assms(1) registry_start[OF assms(2)], of kc ops]
  by (simp add: registry_inv_def Let_def)

theorem keys_refine_registry_witness:
  "key_step\<^sup>*\<^sup>* (key_abs sample_key_db)
     (key_abs (db (fold (svc_exec sample_env sample_key_service)
        [KeyRotate ''org'' ''svc'' ''k1'' ''alice'' ''ip'', SvcDelete ''org'' ''svc'' ''alice'' ''ip'']
        sample_key_world)))"
  using keys_refine_registry[OF sample_uuid_law, of sample_key_world, where kc = sample_key_cache
      and ops = "[KeyRotate ''org'' ''svc'' ''k1'' ''alice'' ''ip'', SvcDelete ''org'' ''svc'' ''alice'' ''ip'']"]
  by (simp add: Let_def sample_key_world_def sample_key_ok)

text \<open>
  A key that was revoked stays revoked, and a key never changes its service, organization,
  prefix or hash, whatever requests follow.
\<close>

theorem revoked_forever:
  assumes "uuid_law e" and "db_ok (db w)" and "k \<in> set (service_api_keys (db w))"
  shows "\<exists>k' \<in> set (service_api_keys (db (fold (svc_exec e (main_key_service e kc)) ops w))).
    k_id k' = k_id k \<and> k_service_id k' = k_service_id k \<and> k_org_id k' = k_org_id k \<and>
    k_prefix k' = k_prefix k \<and> k_key_hash k' = k_key_hash k \<and>
    (k_revoked_at k \<noteq> None \<longrightarrow> k_revoked_at k' \<noteq> None)"
proof -
  let ?d = "db (fold (svc_exec e (main_key_service e kc)) ops w)"
  have "registry_inv (key_abs (db w)) ?d"
    by (rule main_keys.all_registry[OF assms(1) registry_start[OF assms(2)]])
  then have steps: "key_step\<^sup>*\<^sup>* (key_abs (db w)) (key_abs ?d)" by (simp add: registry_inv_def)
  have k: "key_abs (db w) (k_id k) = Some (entry_of k)" using key_abs_Some[OF assms(2,3)] .
  show ?thesis
    using key_steps_entry[OF steps k] key_steps_dead[OF steps k]
    by (auto simp: entry_of_def dest!: key_abs_row)
qed

theorem revoked_forever_witness:
  "\<exists>k' \<in> set (service_api_keys (db (fold (svc_exec sample_env sample_key_service)
      [KeyRotate ''org'' ''svc'' ''k1'' ''alice'' ''ip''] sample_key_world))). k_id k' = ''k1'' \<and> k_prefix k' = ''ll_bbbbbbbb''"
proof -
  have "hd (service_api_keys (db sample_key_world)) \<in> set (service_api_keys (db sample_key_world))"
    by (simp add: sample_key_world_def sample_key_db_def)
  from revoked_forever[OF sample_uuid_law _ this, where kc = sample_key_cache
      and ops = "[KeyRotate ''org'' ''svc'' ''k1'' ''alice'' ''ip'']"]
  show ?thesis by (simp add: sample_key_world_def sample_key_ok) (auto simp: sample_key_db_def)
qed

text \<open>
  C13: tenants are isolated: requests for one organization change no service and no key of another,
  and no table but those two and the audit trail.
\<close>

theorem services_isolated:
  assumes "uuid_law e" and "\<forall>p \<in> set ops. op_org p = org"
  shows "let d' = db (fold (svc_exec e (main_key_service e kc)) ops w); d = db w in
    filter (\<lambda>s. pg_uuid e org \<noteq> Some (s_org_id s)) (services d') =
      filter (\<lambda>s. pg_uuid e org \<noteq> Some (s_org_id s)) (services d) \<and>
    filter (\<lambda>k. pg_uuid e org \<noteq> Some (k_org_id k)) (service_api_keys d') =
      filter (\<lambda>k. pg_uuid e org \<noteq> Some (k_org_id k)) (service_api_keys d) \<and>
    (\<exists>svcs keys as. d' = d\<lparr>services := svcs, service_api_keys := keys, audit_events := as\<rparr>)"
proof -
  define d' where "d' = db (fold (svc_exec e (main_key_service e kc)) ops w)"
  have o: "outside e org d' = outside e org (db w)"
    using main_keys.all_outside[OF assms] by (simp add: d'_def)
  then have "services (outside e org d') = services (outside e org (db w))"
    and "service_api_keys (outside e org d') = service_api_keys (outside e org (db w))" by simp_all
  moreover have "d' = (db w)\<lparr>services := services d', service_api_keys := service_api_keys d',
      audit_events := audit_events d'\<rparr>"
    using o by (cases d', cases "db w") (simp add: outside_def)
  ultimately show ?thesis unfolding Let_def d'_def[symmetric] by (auto simp: outside_def)
qed

theorem services_isolated_witness:
  "filter (\<lambda>k. Some ''other'' \<noteq> Some (k_org_id k)) (service_api_keys (db (svc_exec sample_env sample_key_service
     (KeyRevoke ''other'' ''svc'' ''k1'' ''alice'' ''ip'') sample_key_world))) = service_api_keys sample_key_db"
  using services_isolated[OF sample_uuid_law, where kc = sample_key_cache and org = "''other''" and w = sample_key_world
      and ops = "[KeyRevoke ''other'' ''svc'' ''k1'' ''alice'' ''ip'']"]
  by (simp add: Let_def sample_env_simps) (simp add: sample_key_world_def sample_key_db_def)

text \<open>
  C14: services and keys are written by owners, administrators and developers of the organization
  only, and only they list its keys: any other user's request fails and changes neither the database nor Redis.
\<close>

theorem keys_need_developer:
  assumes "\<not> has_role IsDeveloperRole e (db w) (op_org p) (op_user p)" and "\<not> reads_services p"
  shows "\<exists>x w'. svc_run e (main_key_service e kc) p w = (Inl x, w') \<and> db w' = db w \<and> redis w' = redis w"
  by (rule main_keys.op_refused[OF assms])

theorem keys_need_developer_witness:
  "\<exists>x w'. svc_run sample_env sample_key_service (KeyRotate ''org'' ''svc'' ''k1'' ''bob'' ''ip'') sample_key_world =
    (Inl x, w')"
proof -
  have "\<not> has_role IsDeveloperRole sample_env (db sample_key_world) ''org'' ''bob''"
    by (simp add: has_role_def role_of_def sample_key_world_def sample_key_db_def sample_org_db_def role_in_def
        sample_env_simps)
  then show ?thesis
    using keys_need_developer[of sample_env sample_key_world "KeyRotate ''org'' ''svc'' ''k1'' ''bob'' ''ip''",
        where kc = sample_key_cache] by auto
qed

text \<open>
  The audit trail is only appended to.
\<close>

theorem audit_append_only:
  assumes "uuid_law e"
  shows "prefix (audit_events (db w))
    (audit_events (db (fold (svc_exec e (main_key_service e kc)) ops w)))"
  using main_keys.all_trail[OF assms, of "audit_events (db w)" w kc ops] by (simp add: trail_def)

theorem audit_append_only_witness:
  "prefix [] (audit_events (db (fold (svc_exec sample_env sample_key_service)
     [KeyRotate ''org'' ''svc'' ''k1'' ''alice'' ''ip''] sample_key_world)))"
  using audit_append_only[OF sample_uuid_law, where kc = sample_key_cache and w = sample_key_world
      and ops = "[KeyRotate ''org'' ''svc'' ''k1'' ''alice'' ''ip'']"]
  by (simp add: sample_key_world_def sample_key_db_def sample_org_db_def empty_db_def)

text \<open>
  C12: a rotation replaces one live key by another of the same service, or changes nothing: a
  failed request leaves the database as it was, a successful one revokes the key, adds the new
  one, and answers with a raw key whose prefix is the new key's and which its hash accepts.
\<close>

theorem RotateAPIKey_replaces:
  assumes "uuid_law e" and "bcrypt_law e" and "db_ok (db w)"
    and "RotateAPIKey e (main_key_service e kc) org sid keyID u ip w = (r, w')"
  shows "case r of
      Inl x \<Rightarrow> db w' = db w
    | Inr resp \<Rightarrow> \<exists>kid n n'. pg_uuid e keyID = Some kid \<and> key_abs (db w) kid = Some n \<and> ke_live n \<and>
        key_abs (db w) (ck_ID resp) = None \<and>
        key_abs (db w') = (key_abs (db w))(kid \<mapsto> n\<lparr>ke_live := False\<rparr>, ck_ID resp \<mapsto> n') \<and>
        ke_live n' \<and> ke_service n' = ke_service n \<and> ke_org n' = ke_org n \<and>
        ke_prefix n' = ck_Prefix resp \<and> ExtractAPIKeyPrefix (ck_APIKey resp) = Inr (ck_Prefix resp) \<and>
        ValidateAPIKey e (ck_APIKey resp) (ke_hash n') = None"
proof (cases r)
  case (Inl x)
  then show ?thesis using main_keys.RotateAPIKey_Inl_same assms(4) by auto
next
  case (Inr resp)
  then show ?thesis
    using main_keys.RotateAPIKey_Inr_step[OF assms(1-3)] assms(4) by (auto simp: rotated_to_def)
qed

theorem RotateAPIKey_replaces_witness:
  "\<exists>resp w' n'. RotateAPIKey sample_env sample_key_service ''org'' ''svc'' ''k1'' ''alice'' ''ip'' sample_key_world =
      (Inr resp, w') \<and> key_abs (db w') (ck_ID resp) = Some n' \<and> ke_service n' = ''svc''"
proof -
  obtain resp w' where r: "RotateAPIKey sample_env sample_key_service ''org'' ''svc'' ''k1'' ''alice'' ''ip''
      sample_key_world = (Inr resp, w')" using sample_rotate by blast
  have "bcrypt_law sample_env" by (simp add: bcrypt_law_def sample_env_simps)
  from RotateAPIKey_replaces[OF sample_uuid_law this _ r] obtain kid n n' where
    "kid = ''k1''" "key_abs sample_key_db kid = Some n" "ke_service n' = ke_service n"
    "key_abs (db w') = (key_abs sample_key_db)(kid \<mapsto> n\<lparr>ke_live := False\<rparr>, ck_ID resp \<mapsto> n')"
    by (auto simp: sample_key_world_def sample_key_ok sample_env_simps)
  then show ?thesis using r by (auto simp: key_abs_def sample_key_db_def entry_of_def)
qed

end
