(* ===== verification/Key_Cache_Contract.thy ===== *)
theory Key_Cache_Contract
  imports Key_Registry
begin

text \<open>
  What the cache of API keys promises. Its entries are backed by rows of the table, and a row
  that was revoked backs no entry for long: the deadline of the record of a prefix is at most
  one prefix lifetime after the revocation, that of a verdict on a raw key one verdict lifetime
  more. The invariant is kept by \<open>Resolve\<close>, by the invalidation and by every request of the
  service.
\<close>

section \<open>The invariant\<close>

text \<open>The last moment a row is known not to be revoked\<close>

definition last_ok :: "time \<Rightarrow> APIKeyRow \<Rightarrow> time" where
  "last_ok now k = (case k_revoked_at k of None \<Rightarrow> now | Some t \<Rightarrow> t)"

definition record_of :: "APIKeyRecord \<Rightarrow> string \<Rightarrow> APIKeyRow \<Rightarrow> bool" where
  "record_of rec pfx k \<longleftrightarrow> kc_ID rec = k_id k \<and> kc_ServiceID rec = k_service_id k \<and>
     kc_OrgID rec = k_org_id k \<and> kc_KeyHash rec = k_key_hash k \<and> pfx = k_prefix k"

definition verdict_of :: "env \<Rightarrow> ResolvedAPIKey \<Rightarrow> string \<Rightarrow> APIKeyRow \<Rightarrow> bool" where
  "verdict_of e res h k \<longleftrightarrow> ra_ID res = k_id k \<and> ra_ServiceID res = k_service_id k \<and>
     ra_OrgID res = k_org_id k \<and>
     (\<exists>raw. EncodeToString (sha256 e raw) = h \<and> bcrypt_cmp e (k_key_hash k) raw)"

definition records_ok :: "key_codecs \<Rightarrow> duration \<Rightarrow> time \<Rightarrow> APIKeyRow list \<Rightarrow> keyspace \<Rightarrow> bool" where
  "records_ok J p now rows K \<longleftrightarrow>
     (\<forall>pfx v D rec. K (prefixKey pfx) = Some (v, D) \<longrightarrow> Unmarshal (rec_codec J) (val_text v) = Some rec \<longrightarrow>
        (\<exists>k \<in> set rows. record_of rec pfx k \<and> (\<exists>d. D = Some d \<and> d \<le> last_ok now k + p)))"

definition verdicts_ok ::
    "env \<Rightarrow> key_codecs \<Rightarrow> duration \<Rightarrow> time \<Rightarrow> APIKeyRow list \<Rightarrow> keyspace \<Rightarrow> bool" where
  "verdicts_ok e J pv now rows K \<longleftrightarrow>
     (\<forall>h v D res. K (''apikey:validated:'' @ h) = Some (v, D) \<longrightarrow>
        Unmarshal (res_codec J) (val_text v) = Some res \<longrightarrow>
        (\<exists>k \<in> set rows. verdict_of e res h k \<and> (\<exists>d. D = Some d \<and> d \<le> last_ok now k + pv)))"

text \<open>How rows may change: a row keeps its identity, and is revoked at most once.\<close>

definition ages_to :: "time \<Rightarrow> APIKeyRow \<Rightarrow> APIKeyRow \<Rightarrow> bool" where
  "ages_to now k k' \<longleftrightarrow> k_id k' = k_id k \<and> k_service_id k' = k_service_id k \<and> k_org_id k' = k_org_id k \<and>
     k_prefix k' = k_prefix k \<and> k_key_hash k' = k_key_hash k \<and>
     (k_revoked_at k' = k_revoked_at k \<or>
      (k_revoked_at k = None \<and> (\<exists>t. k_revoked_at k' = Some t \<and> now \<le> t)))"

definition rows_age :: "time \<Rightarrow> APIKeyRow list \<Rightarrow> APIKeyRow list \<Rightarrow> bool" where
  "rows_age now rows rows' \<longleftrightarrow> (\<forall>k \<in> set rows. \<exists>k' \<in> set rows'. ages_to now k k')"

lemma ages_refl: "ages_to now k k"
  by (simp add: ages_to_def)

lemma rows_age_refl: "rows_age now rows rows"
  by (auto simp: rows_age_def intro: ages_refl)

lemma ages_last_ok: "ages_to now k k' \<Longrightarrow> now \<le> now' \<Longrightarrow> last_ok now k \<le> last_ok now' k'"
  by (auto simp: ages_to_def last_ok_def split: option.splits)

lemma records_age:
  assumes "records_ok J p now rows K" and "rows_age now rows rows'" and "now \<le> now'"
  shows "records_ok J p now' rows' K"
  unfolding records_ok_def
proof (intro allI impI)
  fix pfx v D rec assume "K (prefixKey pfx) = Some (v, D)" "Unmarshal (rec_codec J) (val_text v) = Some rec"
  then obtain k d where k: "k \<in> set rows" "record_of rec pfx k" "D = Some d" "d \<le> last_ok now k + p"
    using assms(1) unfolding records_ok_def by blast
  then obtain k' where "k' \<in> set rows'" and a: "ages_to now k k'" using assms(2) by (auto simp: rows_age_def)
  moreover have "record_of rec pfx k'" using k(2) a by (simp add: record_of_def ages_to_def)
  moreover have "d \<le> last_ok now' k' + p" using ages_last_ok[OF a assms(3)] k(4) by linarith
  ultimately show "\<exists>k \<in> set rows'. record_of rec pfx k \<and> (\<exists>d. D = Some d \<and> d \<le> last_ok now' k + p)"
    using k(3) by blast
qed

lemma verdicts_age:
  assumes "verdicts_ok e J p now rows K" and "rows_age now rows rows'" and "now \<le> now'"
  shows "verdicts_ok e J p now' rows' K"
  unfolding verdicts_ok_def
proof (intro allI impI)
  fix h v D res assume "K (''apikey:validated:'' @ h) = Some (v, D)" "Unmarshal (res_codec J) (val_text v) = Some res"
  then obtain k d where k: "k \<in> set rows" "verdict_of e res h k" "D = Some d" "d \<le> last_ok now k + p"
    using assms(1) unfolding verdicts_ok_def by blast
  then obtain k' where "k' \<in> set rows'" and a: "ages_to now k k'" using assms(2) by (auto simp: rows_age_def)
  moreover have "verdict_of e res h k'" using k(2) a by (simp add: verdict_of_def ages_to_def)
  moreover have "d \<le> last_ok now' k' + p" using ages_last_ok[OF a assms(3)] k(4) by linarith
  ultimately show "\<exists>k \<in> set rows'. verdict_of e res h k \<and> (\<exists>d. D = Some d \<and> d \<le> last_ok now' k + p)"
    using k(3) by blast
qed

text \<open>Entries may disappear, and keys outside the two families change freely.\<close>

definition entry_key :: "string \<Rightarrow> bool" where
  "entry_key key \<longleftrightarrow> HasPrefix key ''apikey:prefix:'' \<or> HasPrefix key ''apikey:validated:''"

definition shrinks :: "keyspace \<Rightarrow> keyspace \<Rightarrow> bool" where
  "shrinks K K' \<longleftrightarrow> (\<forall>key. entry_key key \<longrightarrow> K' key = K key \<or> K' key = None)"

lemma entry_keys: "entry_key (prefixKey pfx)" "entry_key (''apikey:validated:'' @ h)" "\<not> entry_key (revokedKey pfx)"
  by (simp_all add: entry_key_def prefixKey_def revokedKey_def HasPrefix_def)

lemma shrinks_refl: "shrinks K K"
  by (simp add: shrinks_def)

lemma shrinks_trans:
  assumes "shrinks K K'" and "shrinks K' K''"
  shows "shrinks K K''"
  unfolding shrinks_def
proof (intro allI impI)
  fix key assume "entry_key key"
  then have "K' key = K key \<or> K' key = None" "K'' key = K' key \<or> K'' key = None"
    using assms by (simp_all add: shrinks_def)
  then show "K'' key = K key \<or> K'' key = None" by auto
qed

lemma records_shrink: "records_ok J p now rows K \<Longrightarrow> shrinks K K' \<Longrightarrow> records_ok J p now rows K'"
  unfolding records_ok_def shrinks_def by (metis entry_keys(1) option.distinct(1))

lemma verdicts_shrink: "verdicts_ok e J p now rows K \<Longrightarrow> shrinks K K' \<Longrightarrow> verdicts_ok e J p now rows K'"
  unfolding verdicts_ok_def shrinks_def by (metis entry_keys(2) option.distinct(1))

lemma key_families:
  "prefixKey a \<noteq> ''apikey:validated:'' @ b" "prefixKey a \<noteq> revokedKey b" "revokedKey a \<noteq> ''apikey:validated:'' @ b"
  "prefixKey a = prefixKey b \<longleftrightarrow> a = b"
  by (simp_all add: prefixKey_def revokedKey_def)

lemma records_set_record:
  assumes "records_ok J p now rows K" and "codec_law (rec_codec J)"
    and "k \<in> set rows" and "record_of rec pfx k" and "k_revoked_at k = None"
  shows "records_ok J p now rows (K(prefixKey pfx \<mapsto> (RStr (Marshal (rec_codec J) rec), Some (now + p))))"
  unfolding records_ok_def
proof (intro allI impI)
  fix pfx' v D rec'
  assume "(K(prefixKey pfx \<mapsto> (RStr (Marshal (rec_codec J) rec), Some (now + p)))) (prefixKey pfx') = Some (v, D)"
    and "Unmarshal (rec_codec J) (val_text v) = Some rec'"
  then show "\<exists>k \<in> set rows. record_of rec' pfx' k \<and> (\<exists>d. D = Some d \<and> d \<le> last_ok now k + p)"
    using assms unfolding records_ok_def
    by (cases "pfx' = pfx") (auto simp: codec_law_def key_families last_ok_def)
qed

lemma verdicts_set_record:
  "verdicts_ok e J p now rows K \<Longrightarrow> verdicts_ok e J p now rows (K(prefixKey pfx \<mapsto> x))"
  using key_families(1)[symmetric] by (auto simp: verdicts_ok_def)

lemma records_set_verdict:
  "records_ok J p now rows K \<Longrightarrow> records_ok J p now rows (K(''apikey:validated:'' @ h \<mapsto> x))"
  using key_families(1) by (auto simp: records_ok_def)

lemma verdicts_set_verdict:
  assumes "verdicts_ok e J pv now rows K" and "codec_law (res_codec J)"
    and "k \<in> set rows" and "verdict_of e res h k" and "d \<le> last_ok now k + pv"
  shows "verdicts_ok e J pv now rows (K(''apikey:validated:'' @ h \<mapsto> (RStr (Marshal (res_codec J) res), Some d)))"
  unfolding verdicts_ok_def
proof (intro allI impI)
  fix h' v D res'
  assume "(K(''apikey:validated:'' @ h \<mapsto> (RStr (Marshal (res_codec J) res), Some d))) (''apikey:validated:'' @ h') = Some (v, D)"
    and "Unmarshal (res_codec J) (val_text v) = Some res'"
  then show "\<exists>k \<in> set rows. verdict_of e res' h' k \<and> (\<exists>d. D = Some d \<and> d \<le> last_ok now k + pv)"
    using assms unfolding verdicts_ok_def
    by (cases "h' = h") (auto simp: codec_law_def)
qed

section \<open>The lookup\<close>

lemma KeyLookup_Inr:
  assumes "KeyLookup e pfx w = (Inr rec, w')"
  obtains k where "k \<in> set (service_api_keys (db w))" and "record_of rec pfx k" and "k_revoked_at k = None"
    and "\<not> kc_Revoked rec" and "list_ex (\<lambda>s. s_id s = k_service_id k \<and> s_deleted_at s = None) (services (db w))"
    and "w' = w\<lparr>tick := Suc (tick w)\<rparr>"
proof -
  from assms obtain d k where "returning scan_key (select_row service_api_keys (active_key (db w) pfx)
      (clk e (tick w)) (uuid e (tick w)) (db w)) = (Inr k, d)" and w': "w' = w\<lparr>tick := Suc (tick w), db := d\<rparr>"
    and rec: "rec = \<lparr>kc_ID = ak_ID k, kc_ServiceID = ak_ServiceID k, kc_OrgID = ak_OrgID k,
            kc_Prefix = ak_Prefix k, kc_KeyHash = ak_KeyHash k, kc_Revoked = ak_RevokedAt k \<noteq> None\<rparr>"
    by (auto simp: KeyLookup_def GetActiveAPIKeyByPrefix_def prog_simps pg_Inr)
  then obtain row where row: "find (active_key (db w) pfx) (service_api_keys (db w)) = Some row"
    and "k = scan_key row" and "d = db w"
    by (auto simp: returning_Inr select_row_def split: option.splits)
  with find_Some_D[OF row] rec w' show thesis
    by (intro that[of row]) (auto simp: active_key_def record_of_def scan_key_def)
qed

lemma quiet_KeyLookup: "quiet (KeyLookup e pfx)"
proof -
  have "stmt_keeps P (\<lambda>now i d. returning scan_key (select_row service_api_keys (active_key d pfx) now i d))" for P
    by (simp add: stmt_keeps_def returning_def select_row_def split: option.split)
  then show ?thesis
    unfolding KeyLookup_def GetActiveAPIKeyByPrefix_def
    by (intro quiet_call quiet_on_no_rows quiet_ret stmt_pure_quiet)
qed

section \<open>Resolving a key\<close>

locale key_cache = redis_server C kspace for C :: "'r redis_client" and kspace :: "'r \<Rightarrow> keyspace" +
  fixes e :: env and J :: key_codecs and b :: bool and p :: duration and v :: duration
    and q :: duration
  assumes rec_law: "codec_law (rec_codec J)" and res_law: "codec_law (res_codec J)"
    and clk_mono: "mono (clk e)" and p_pos: "0 < p" and v_pos: "0 < v" and q_pos: "0 \<le> q"
begin

abbreviation kc :: "'r APIKeyCache" where
  "kc \<equiv> \<lparr>kc_redis = store_of C b, kc_lookup = KeyLookup e, prefixTTL = p, validationTTL = v\<rparr>"

definition cache_inv :: "'r world \<Rightarrow> bool" where
  "cache_inv w \<longleftrightarrow>
     records_ok J p (clk e (tick w)) (service_api_keys (db w)) (kspace (redis w)) \<and>
     verdicts_ok e J (p + q + v) (clk e (tick w)) (service_api_keys (db w)) (kspace (redis w))"

lemma inv_age:
  assumes "cache_inv w" and "rows_age (clk e (tick w)) (service_api_keys (db w)) (service_api_keys (db w'))"
    and "shrinks (kspace (redis w)) (kspace (redis w'))" and "tick w \<le> tick w'"
  shows "cache_inv w'"
  using assms(1) unfolding cache_inv_def
  by (elim conjE, intro conjI records_shrink[OF records_age[OF _ assms(2)] assms(3)]
      verdicts_shrink[OF verdicts_age[OF _ assms(2)] assms(3)])
     (simp_all add: monoD[OF clk_mono assms(4)])

lemma inv_same:
  "cache_inv w \<Longrightarrow> db w' = db w \<Longrightarrow> kspace (redis w') = kspace (redis w) \<Longrightarrow> tick w \<le> tick w' \<Longrightarrow> cache_inv w'"
  by (rule inv_age[of w]) (simp_all add: rows_age_refl shrinks_refl)

lemma set_effect:
  assumes "(if b then attempt (with_client e (store_of C b) (\<lambda>cl t. r_exec cl t [CmdSet key x ttl]))
      (\<lambda>_. ret ()) else ret ()) w = (r, w')" and "0 < ttl"
  shows "r = Inr () \<and> db w' = db w \<and> tick w \<le> tick w' \<and>
    (kspace (redis w') = kspace (redis w) \<or>
     kspace (redis w') = (kspace (redis w))(key \<mapsto> (RStr x, Some (clk e (tick w) + ttl))))"
  using assms
  by (auto simp: attempt_def ret_def with_client_store_of dest!: set_any split: if_splits prod.splits sum.splits)

text \<open>The record the cache works with is backed by a row that was not revoked long ago.\<close>

definition backed :: "time \<Rightarrow> APIKeyRecord \<Rightarrow> string \<Rightarrow> APIKeyRow list \<Rightarrow> bool" where
  "backed now rec pfx rows \<longleftrightarrow>
     (\<exists>k \<in> set rows. record_of rec pfx k \<and> (\<forall>t. k_revoked_at k = Some t \<longrightarrow> now < t + p))"

lemma fetch_effect:
  assumes inv: "cache_inv w"
    and run: "call (KeyLookup e pfx) (\<lambda>rec.
        call (if b then attempt (with_client e (store_of C b) (\<lambda>cl t. r_exec cl t
                     [CmdSet (prefixKey pfx) (Marshal (rec_codec J) rec) p])) (\<lambda>_. ret ())
              else ret ()) (\<lambda>_. ret rec)) w = (r, w')"
  shows "cache_inv w' \<and> db w' = db w \<and> tick w \<le> tick w' \<and>
    (\<forall>rec. r = Inr rec \<longrightarrow> backed (clk e (tick w)) rec pfx (service_api_keys (db w)))"
proof -
  obtain r1 w1 where look: "KeyLookup e pfx w = (r1, w1)" by fastforce
  note c1 = quietD[OF quiet_KeyLookup look]
  have inv1: "cache_inv w1" by (rule inv_same[OF inv]) (use c1 in simp_all)
  show ?thesis
  proof (cases r1)
    case (Inl x)
    then have "r = Inl x" "w' = w1" using run look by (simp_all add: call_def)
    then show ?thesis using inv1 c1 by simp
  next
    case (Inr rec)
    obtain k where k: "k \<in> set (service_api_keys (db w))" "record_of rec pfx k" "k_revoked_at k = None"
      using KeyLookup_Inr[OF look[unfolded Inr]] by blast
    obtain r2 :: "err + unit" and w2 where st: "(if b then attempt (with_client e (store_of C b) (\<lambda>cl t. r_exec cl t
        [CmdSet (prefixKey pfx) (Marshal (rec_codec J) rec) p])) (\<lambda>_. ret ()) else ret ()) w1 = (r2, w2)"
      by fastforce
    note eff = set_effect[OF st p_pos]
    have "call (KeyLookup e pfx) k w = k rec w1" for k :: "APIKeyRecord \<Rightarrow> ('r, APIKeyRecord) app"
      using look Inr by (simp add: call_step)
    with run have "call (if b then attempt (with_client e (store_of C b) (\<lambda>cl t. r_exec cl t
        [CmdSet (prefixKey pfx) (Marshal (rec_codec J) rec) p])) (\<lambda>_. ret ()) else ret ()) (\<lambda>_. ret rec) w1 = (r, w')"
      by simp
    moreover have "call m k w1 = k x w2" if "m w1 = (r2, w2)" "r2 = Inr x"
      for m :: "('r, unit) app" and k :: "unit \<Rightarrow> ('r, APIKeyRecord) app" and x
      using that by (simp add: call_step)
    ultimately have "ret rec w2 = (r, w')" using eff st by metis
    then have res: "r = Inr rec" "w' = w2" by (simp_all add: ret_def)
    have "cache_inv w2"
    proof (cases "kspace (redis w2) = kspace (redis w1)")
      case True
      then show ?thesis by (intro inv_same[OF inv1]) (use eff in simp_all)
    next
      case False
      define u where "u = w1\<lparr>redis := redis w2\<rparr>"
      have "cache_inv u"
        using False eff inv1 c1 k(1-3) records_set_record[OF _ rec_law] verdicts_set_record
        by (simp add: u_def cache_inv_def)
      then show ?thesis by (rule inv_same) (use eff in \<open>simp_all add: u_def\<close>)
    qed
    moreover have "backed (clk e (tick w)) rec pfx (service_api_keys (db w))"
      using k unfolding backed_def by auto
    ultimately show ?thesis using res eff c1 by simp
  qed
qed

lemma load_effect:
  assumes inv: "cache_inv w" and run: "loadRecord e J kc pfx w = (r, w')"
  shows "cache_inv w' \<and> db w' = db w \<and> tick w \<le> tick w' \<and>
    (\<forall>rec. r = Inr rec \<longrightarrow> backed (clk e (tick w)) rec pfx (service_api_keys (db w)))"
proof (cases b)
  case False
  then show ?thesis
    using fetch_effect[OF inv, of pfx r w'] run by (simp add: loadRecord_def Let_def usable_store_of)
next
  case True
  note b = this
  obtain g s' where get: "r_get C (clk e (tick w)) (prefixKey pfx) (redis w) = (g, s')" by fastforce
  define w1 where "w1 = w\<lparr>redis := s', tick := Suc (tick w)\<rparr>"
  have inv1: "cache_inv w1" by (rule inv_same[OF inv]) (use get_pure[OF get] in \<open>simp_all add: w1_def\<close>)
  have t1: "clk e (tick w) \<le> clk e (tick w1)" using monoD[OF clk_mono] by (simp add: w1_def)
  have bk: "backed (clk e (tick w)) rec pfx rows" if "backed (clk e (tick w1)) rec pfx rows" for rec rows
    using that t1 unfolding backed_def by fastforce
  note fetch = fetch_effect[OF inv1, of pfx r w']
  show ?thesis
  proof (cases g)
    case (Inl x)
    show ?thesis
    proof (cases "x = RedisNil")
      case True
      then show ?thesis
        using run Inl get b fetch bk
        by (simp add: loadRecord_def Let_def usable_store_of with_client_store_of attempt_def w1_def)
    next
      case False
      then have "w' = w1" "\<exists>x. r = Inl x"
        using run Inl get b
        by (auto simp: loadRecord_def Let_def usable_store_of with_client_store_of attempt_def w1_def fail_def)
      then show ?thesis using inv1 by (auto simp: w1_def)
    qed
  next
    case (Inr cached)
    show ?thesis
    proof (cases "Unmarshal (rec_codec J) cached")
      case None
      then show ?thesis
        using run Inr get b fetch bk
        by (simp add: loadRecord_def Let_def usable_store_of with_client_store_of attempt_def w1_def)
    next
      case (Some rec)
      then have res: "w' = w1" "r = Inr rec"
        using run Inr get b
        by (simp_all add: loadRecord_def Let_def usable_store_of with_client_store_of attempt_def w1_def ret_def)
      obtain x D where ent: "kspace (redis w) (prefixKey pfx) = Some (x, D)" and "val_text x = cached"
        and live: "D = Some d \<Longrightarrow> clk e (tick w) < d" for d
        using get_hit[OF get[unfolded Inr]] by (auto simp: live_def split: option.splits if_splits prod.splits)
      then obtain k d where "k \<in> set (service_api_keys (db w))" "record_of rec pfx k" "D = Some d"
        "d \<le> last_ok (clk e (tick w)) k + p"
        using inv Some unfolding records_ok_def cache_inv_def by blast
      with live have "backed (clk e (tick w)) rec pfx (service_api_keys (db w))"
        unfolding backed_def last_ok_def by (intro bexI[of _ k]) (auto split: option.splits)
      then show ?thesis using res inv1 by (simp add: w1_def)
    qed
  qed
qed

text \<open>What a resolved key stands for\<close>

definition resolved_ok :: "time \<Rightarrow> string \<Rightarrow> ResolvedAPIKey \<Rightarrow> APIKeyRow list \<Rightarrow> bool" where
  "resolved_ok now raw res rows \<longleftrightarrow>
     (\<exists>k \<in> set rows. verdict_of e res (EncodeToString (sha256 e raw)) k \<and>
        (\<forall>t. k_revoked_at k = Some t \<longrightarrow> now < t + p + q + v))"

lemma slow_effect:
  assumes inv: "cache_inv w" and run: "resolve_slow e J kc raw pfx w = (r, w')"
    and fast: "clk e (tick w') \<le> now + q" and past: "now \<le> clk e (tick w)"
  shows "cache_inv w' \<and> db w' = db w \<and> tick w \<le> tick w' \<and>
    (\<forall>res. r = Inr res \<longrightarrow> resolved_ok (clk e (tick w)) raw res (service_api_keys (db w)))"
proof -
  obtain r1 w1 where load: "loadRecord e J kc pfx w = (r1, w1)" by fastforce
  note l = load_effect[OF inv load]
  show ?thesis
  proof (cases "\<exists>rec. r1 = Inr rec \<and> \<not> kc_Revoked rec \<and> ValidateAPIKey e raw (kc_KeyHash rec) = None")
    case False
    then have "w' = w1" "\<exists>x. r = Inl x"
      using run load by (auto simp: resolve_slow_def call_def fail_def split: sum.splits if_splits option.splits)
    then show ?thesis using l by auto
  next
    case True
    then obtain rec where rec: "r1 = Inr rec" "\<not> kc_Revoked rec" "ValidateAPIKey e raw (kc_KeyHash rec) = None"
      by blast
    define res where "res = \<lparr>ra_ID = kc_ID rec, ra_ServiceID = kc_ServiceID rec, ra_OrgID = kc_OrgID rec\<rparr>"
    obtain k where k: "k \<in> set (service_api_keys (db w))" "record_of rec pfx k"
        and fresh: "\<And>t. k_revoked_at k = Some t \<Longrightarrow> clk e (tick w) < t + p"
      using l rec(1) unfolding backed_def by blast
    have verdict: "verdict_of e res (EncodeToString (sha256 e raw)) k"
      using k(2) rec(3) by (auto simp: verdict_of_def record_of_def res_def ValidateAPIKey_def split: if_splits)
    obtain r2 :: "err + unit" and w2 where st: "(if b then attempt (with_client e (store_of C b) (\<lambda>cl t. r_exec cl t
        [CmdSet (validationKey e raw) (Marshal (res_codec J) res) v])) (\<lambda>_. ret ()) else ret ()) w1 = (r2, w2)"
      by fastforce
    note eff = set_effect[OF st v_pos]
    have "call (if b then attempt (with_client e (store_of C b) (\<lambda>cl t. r_exec cl t
        [CmdSet (validationKey e raw) (Marshal (res_codec J) res) v])) (\<lambda>_. ret ()) else ret ()) (\<lambda>_. ret res) w1 = (r, w')"
      using run load rec by (cases b) (simp_all add: resolve_slow_def call_step res_def usable_store_of Let_def)
    moreover have "call m k w1 = k x w2" if "m w1 = (r2, w2)" "r2 = Inr x"
      for m :: "('r, unit) app" and k :: "unit \<Rightarrow> ('r, ResolvedAPIKey) app" and x
      using that by (simp add: call_step)
    ultimately have "ret res w2 = (r, w')" using eff st by metis
    then have out: "r = Inr res" "w' = w2" by (simp_all add: ret_def)
    have ok: "resolved_ok (clk e (tick w)) raw res (service_api_keys (db w))"
      unfolding resolved_ok_def using k(1) verdict fresh v_pos q_pos by fastforce
    have "cache_inv w2"
    proof (cases "kspace (redis w2) = kspace (redis w1)")
      case True
      then show ?thesis using l eff inv_same[of w1 w2] by simp
    next
      case False
      define u where "u = w1\<lparr>redis := redis w2\<rparr>"
      have "clk e (tick w1) \<le> clk e (tick w2)" using eff monoD[OF clk_mono] by simp
      then have "clk e (tick w1) \<le> clk e (tick w) + q" using fast past out by simp
      then have bound: "clk e (tick w1) + v \<le> last_ok (clk e (tick w1)) k + (p + q + v)"
        using fresh p_pos q_pos by (cases "k_revoked_at k") (fastforce simp: last_ok_def)+
      have K2: "kspace (redis w2) = (kspace (redis w1))(''apikey:validated:'' @ EncodeToString (sha256 e raw)
          \<mapsto> (RStr (Marshal (res_codec J) res), Some (clk e (tick w1) + v)))"
        using eff False unfolding validationKey_def by blast
      have inv1: "records_ok J p (clk e (tick w1)) (service_api_keys (db w)) (kspace (redis w1))"
        "verdicts_ok e J (p + q + v) (clk e (tick w1)) (service_api_keys (db w)) (kspace (redis w1))"
        using l by (auto simp: cache_inv_def)
      have "records_ok J p (clk e (tick w1)) (service_api_keys (db w)) (kspace (redis w2))"
        unfolding K2 by (rule records_set_verdict[OF inv1(1)])
      moreover have "verdicts_ok e J (p + q + v) (clk e (tick w1)) (service_api_keys (db w)) (kspace (redis w2))"
        unfolding K2 by (rule verdicts_set_verdict[OF inv1(2) res_law k(1) verdict bound])
      ultimately have "cache_inv u" using l by (simp add: cache_inv_def u_def)
      then show ?thesis by (rule inv_same) (use eff in \<open>simp_all add: u_def\<close>)
    qed
    then show ?thesis using out l eff ok by simp
  qed
qed

lemma resolve_effect:
  assumes inv: "cache_inv w" and run: "Resolve e J kc raw w = (r, w')"
    and fast: "clk e (tick w') \<le> clk e (tick w) + q"
  shows "cache_inv w' \<and> db w' = db w \<and> tick w \<le> tick w' \<and>
    (\<forall>res. r = Inr res \<longrightarrow> resolved_ok (clk e (tick w)) raw res (service_api_keys (db w)))"
proof (cases "ExtractAPIKeyPrefix raw")
  case (Inl x)
  then show ?thesis using run inv by (auto simp: Resolve_def fail_def)
next
  case (Inr pfx)
  show ?thesis
  proof (cases b)
    case False
    then show ?thesis
      using slow_effect[OF inv, of raw pfx r w'] run fast Inr by (simp add: Resolve_def usable_store_of)
  next
    case True
    obtain x s1 where ex: "r_exists C (clk e (tick w)) (revokedKey pfx) (redis w) = (x, s1)" by fastforce
    define w1 where "w1 = w\<lparr>redis := s1, tick := Suc (tick w)\<rparr>"
    have inv1: "cache_inv w1" by (rule inv_same[OF inv]) (use exists_pure[OF ex] in \<open>simp_all add: w1_def\<close>)
    obtain g s2 where get: "r_get C (clk e (tick w1)) (validationKey e raw) (redis w1) = (g, s2)" by fastforce
    define w2 where "w2 = w1\<lparr>redis := s2, tick := Suc (tick w1)\<rparr>"
    have inv2: "cache_inv w2" by (rule inv_same[OF inv1]) (use get_pure[OF get] in \<open>simp_all add: w2_def\<close>)
    have t: "clk e (tick w) \<le> clk e (tick w1)" "clk e (tick w1) \<le> clk e (tick w2)"
      using monoD[OF clk_mono] by (simp_all add: w1_def w2_def)
    have w2: "db w2 = db w" "tick w \<le> tick w2" by (simp_all add: w1_def w2_def)
    have weaken: "resolved_ok (clk e (tick w)) raw res rows" if "resolved_ok now raw res rows" "clk e (tick w) \<le> now"
      for now res rows using that unfolding resolved_ok_def by (meson order_le_less_trans)
    show ?thesis
    proof (cases "case x of Inr n \<Rightarrow> 0 < n | Inl _ \<Rightarrow> False")
      case marked: True
      then have "r = Inl (AuthE APIKeyRevoked)" "w' = w1"
        using run Inr True ex
        by (auto simp: Resolve_def usable_store_of with_client_store_of attempt_def fail_def w1_def split: sum.splits)
      then show ?thesis using inv1 by (simp add: w1_def)
    next
      case False
      have rest: "(case g of Inr cached \<Rightarrow> (case Unmarshal (res_codec J) cached of
          Some res \<Rightarrow> ret res | None \<Rightarrow> resolve_slow e J kc raw pfx)
        | Inl y \<Rightarrow> resolve_slow e J kc raw pfx) w2 = (r, w')"
        using run Inr True ex False get
        by (auto simp: Resolve_def usable_store_of with_client_store_of attempt_def w1_def w2_def
            split: sum.splits option.splits)
      show ?thesis
      proof (cases "\<exists>cached res. g = Inr cached \<and> Unmarshal (res_codec J) cached = Some res")
        case miss: False
        then have "resolve_slow e J kc raw pfx w2 = (r, w')" using rest by (auto split: sum.splits option.splits)
        from slow_effect[OF inv2 this fast] t weaken w2 show ?thesis by fastforce
      next
        case hit: True
        then obtain cached res where c: "g = Inr cached" "Unmarshal (res_codec J) cached = Some res" by blast
        then have out: "r = Inr res" "w' = w2" using rest by (simp_all add: ret_def)
        obtain y D where ent: "kspace (redis w1) (''apikey:validated:'' @ EncodeToString (sha256 e raw)) = Some (y, D)"
          and "val_text y = cached" and live: "\<And>d. D = Some d \<Longrightarrow> clk e (tick w1) < d"
          using get_hit[OF get[unfolded c(1)]]
          by (auto simp: live_def validationKey_def split: option.splits if_splits prod.splits)
        then obtain k d where "k \<in> set (service_api_keys (db w1))" "D = Some d"
          "verdict_of e res (EncodeToString (sha256 e raw)) k" "d \<le> last_ok (clk e (tick w1)) k + (p + q + v)"
          using inv1 c(2) unfolding cache_inv_def verdicts_ok_def by blast
        with live have "resolved_ok (clk e (tick w1)) raw res (service_api_keys (db w))"
          unfolding resolved_ok_def last_ok_def by (intro bexI[of _ k]) (auto simp: w1_def split: option.splits)
        then show ?thesis using out inv2 w2 weaken t by blast
      qed
    qed
  qed
qed

end

section \<open>Requests of the service age the rows\<close>

lemma rows_age_insert: "rows_age now rows (service_api_keys d) \<Longrightarrow> insert_api_key k d = (Inr k', d') \<Longrightarrow>
    rows_age now rows (service_api_keys d')"
  by (fastforce simp: rows_age_def dest!: insert_api_key_Inr)

lemma rows_age_revoke:
  assumes "rows_age now rows (service_api_keys d)" and "revoke_stmt kid sid oid t i d = (Inr k', d')" and "now \<le> t"
  shows "rows_age now rows (service_api_keys d')"
  unfolding rows_age_def
proof
  fix k assume "k \<in> set rows"
  then obtain y where y: "y \<in> set (service_api_keys d)" "ages_to now k y" using assms(1) by (auto simp: rows_age_def)
  define y' where "y' = (if key_row kid sid oid y \<and> k_revoked_at y = None then y\<lparr>k_revoked_at := Some t\<rparr> else y)"
  have "service_api_keys d' = revoke_rows kid sid oid t (service_api_keys d)"
    using revoke_stmt_Inr[OF assms(2)] by auto
  then have "y' \<in> set (service_api_keys d')" using y(1) by (simp add: revoke_rows_def y'_def)
  moreover have "ages_to now k y'" using y(2) assms(3) by (auto simp: ages_to_def y'_def)
  ultimately show "\<exists>k' \<in> set (service_api_keys d'). ages_to now k k'" by blast
qed

definition aged :: "env \<Rightarrow> nat \<Rightarrow> APIKeyRow list \<Rightarrow> nat \<Rightarrow> database \<Rightarrow> bool" where
  "aged e start rows n d \<longleftrightarrow>
     (mono (clk e) \<longrightarrow> start \<le> n \<and> rows_age (clk e start) rows (service_api_keys d))"

lemma aged_same: "aged e start rows n d \<Longrightarrow> n \<le> n' \<Longrightarrow> service_api_keys d' = service_api_keys d \<Longrightarrow> aged e start rows n' d'"
  by (auto simp: aged_def)

lemma aged_insert: "aged e start rows n d \<Longrightarrow> insert_api_key k d = (Inr k', d') \<Longrightarrow> aged e start rows n d'"
  by (auto simp: aged_def dest: rows_age_insert)

lemma aged_revoke:
  "aged e start rows n d \<Longrightarrow> revoke_stmt kid sid oid (clk e n) i d = (Inr k', d') \<Longrightarrow> aged e start rows (Suc n) d'"
  by (auto simp: aged_def dest: rows_age_revoke monoD)

sublocale service_env \<subseteq> ageing: service_invariant e s org "aged e start rows" for org start rows
proof (unfold_locales, goal_cases)
  case (1 n d n' d')
  then show ?case by (auto intro!: aged_same[of e start rows n d] simp: audit_grows_def)
next
  case (2 n d x y d')
  then show ?case by (auto intro!: aged_same[of e start rows n d] simp: insert_service_def constrained_Inr)
next
  case (3 n d oid sid nm ds t i y d')
  show ?case by (rule aged_same[OF 3(1) order_refl update_service_keys[OF 3(3)]])
next
  case (4 n d oid sid t i z d')
  then show ?case by (auto intro!: aged_same[of e start rows n d] simp: soft_delete_def)
next
  case (5 n d k k' d')
  show ?case by (rule aged_insert[OF 5(1,4)])
next
  case (6 n d oid kid sid i k' d')
  then show ?case by (metis aged_revoke)
next
  case (7 n d oid kid sid i k' d1 k k'' d')
  then show ?case by (metis aged_revoke aged_insert)
qed

text \<open>What the invalidation keeps in Redis, every request keeps.\<close>

definition lasting :: "(nat \<Rightarrow> 'r \<Rightarrow> bool) \<Rightarrow> bool" where
  "lasting Q \<longleftrightarrow> (\<forall>n n' s. Q n s \<longrightarrow> n \<le> n' \<longrightarrow> Q n' s)"

lemma lastingD: "lasting Q \<Longrightarrow> Q n s \<Longrightarrow> n \<le> n' \<Longrightarrow> Q n' s"
  by (auto simp: lasting_def)

lemma keeps_redis_quiet: "lasting Q \<Longrightarrow> quiet m \<Longrightarrow> keeps (\<lambda>w. Q (tick w) (redis w)) m"
  by (rule keepsI) (metis quietD lastingD)

lemma keeps_redis_stmt: "lasting Q \<Longrightarrow> keeps (\<lambda>w. Q (tick w) (redis w)) (pg e q)"
  by (rule keepsI) (metis lastingD pg_redis pg_tick le_SucI order_refl)

lemma rotate_redis: "repo_RotateAPIKey e old k w = (r, w') \<Longrightarrow> redis w' = redis w \<and> tick w \<le> tick w'"
  by (cases r) (auto simp: repo_RotateAPIKey_def elim!: transaction_redis[rotated] intro!: keeps_intros
      dest: RotateAPIKey_Inl[unfolded repo_RotateAPIKey_def] elim: rotate_Inr[unfolded repo_RotateAPIKey_def])

context service_env
begin

lemma op_redis:
  assumes mono: "lasting Q"
    and kinv: "\<And>kinv pfx. ss_keyInvalidator s = Some kinv \<Longrightarrow> keeps (\<lambda>w. Q (tick w) (redis w)) (kinv pfx)"
  shows "keeps (\<lambda>w. Q (tick w) (redis w)) (svc_run e s p)"
proof -
  have inval: "keeps (\<lambda>w. Q (tick w) (redis w)) (invalidateKeyCache s pfx)" for pfx
    using kinv by (cases "ss_keyInvalidator s")
      (auto simp: invalidateKeyCache_def intro!: keeps_attempt keeps_ret)
  have audit: "keeps (\<lambda>w. Q (tick w) (redis w)) (writeAudit s ev)" for ev
  proof (cases "ss_audit s")
    case (Some W)
    have "keeps (\<lambda>w. Q (tick w) (redis w)) (W ev)"
      by (rule keepsI) (use audit_grow[OF Some] lastingD[OF mono] in metis)
    then show ?thesis using Some by (simp add: writeAudit_def keeps_attempt keeps_ret)
  qed (simp add: writeAudit_def keeps_ret)
  have rotate: "keeps (\<lambda>w. Q (tick w) (redis w)) (repo_RotateAPIKey e old k)" for old k
    by (rule keepsI) (use rotate_redis lastingD[OF mono] in metis)
  note quiet = keeps_redis_quiet[OF mono]
  note quiets = quiet[OF quiet_requireDeveloper] quiet[OF quiet_GenerateAPIKey] quiet[OF quiet_HashAPIKey]
    quiet[OF quiet_service_reads(1)] quiet[OF quiet_service_reads(3)] quiet[OF quiet_service_reads(4)]
    quiet[OF quiet_service_reads(5)] keeps_redis_stmt[OF mono]
  show ?thesis
  proof (cases "reads_services p")
    case True
    then show ?thesis by (rule quiet[OF op_read_quiet])
  next
    case False
    then show ?thesis
      by (cases p)
         (auto simp: svc_ops lift_def repo_CreateService_def repo_UpdateService_def SoftDeleteService_def
            CreateAPIKey_def repo_RevokeAPIKey_def split: sum.split
          intro!: keeps_call keeps_attempt keeps_ret keeps_fail keeps_case_prod keeps_case_sum keeps_if
            keeps_on_unique keeps_on_no_rows quiets rotate audit inval)
  qed
qed

end

end
