(* ===== verification/Key_Marker.thy ===== *)
theory Key_Marker
  imports Key_Cache_Contract
begin

text \<open>
  The marker of a revoked prefix: an invalidation sets it for an hour, no other one removes it or
  shortens its life, and while it lives the prefix is refused.
\<close>

lemma apply_cmds_take2:
  "snd (apply_cmds t (take n [c1, c2]) K) =
     (if n = 0 then K else if n = 1 then snd (apply_cmd t c1 K) else snd (apply_cmd t c2 (snd (apply_cmd t c1 K))))"
proof -
  consider "n = 0" | "n = 1" | m where "n = Suc (Suc m)" by (metis One_nat_def not0_implies_Suc)
  then show ?thesis by cases (simp_all add: Let_def case_prod_beta)
qed

definition blocked :: "keyspace \<Rightarrow> string \<Rightarrow> time \<Rightarrow> bool" where
  "blocked K pfx t \<longleftrightarrow> (\<exists>x d. K (revokedKey pfx) = Some (x, Some d) \<and> t \<le> d)"

lemma blocked_live: "blocked K pfx t \<Longrightarrow> now < t \<Longrightarrow> live K now (revokedKey pfx) \<noteq> None"
  by (auto simp: blocked_def live_def)

context redis_server
begin

text \<open>An invalidation drops the record and may set the marker, whatever it reports.\<close>

lemma invalidate_cases:
  assumes "r_exec C t [CmdDel (prefixKey pfx), CmdSet (revokedKey pfx) ''1'' Hour] s = (r, s')"
  shows "kspace s' = kspace s \<or> kspace s' = (kspace s)(prefixKey pfx := None) \<or>
    kspace s' = (kspace s)(prefixKey pfx := None, revokedKey pfx \<mapsto> (RStr ''1'', Some (t + Hour)))"
proof (cases r)
  case (Inl x)
  then obtain n where "kspace s' = snd (apply_cmds t (take n [CmdDel (prefixKey pfx), CmdSet (revokedKey pfx) ''1'' Hour]) (kspace s))"
    using assms exec_fail by blast
  then show ?thesis unfolding apply_cmds_take2 by (simp add: duration_defs split: if_splits)
next
  case (Inr ns)
  with assms have "apply_cmds t [CmdDel (prefixKey pfx), CmdSet (revokedKey pfx) ''1'' Hour] (kspace s) = (ns, kspace s')"
    by (simp only: exec_ok)
  then show ?thesis by (auto simp: duration_defs)
qed

lemma Invalidate_marker:
  assumes clk_mono: "mono (clk e)" and kc: "kc_redis kc = store_of C b"
  shows "keeps (\<lambda>w. blocked (kspace (redis w)) pfx (t + Hour) \<and> t \<le> clk e (tick w)) (Invalidate e kc pfx')"
proof (rule keepsI)
  fix w r w' assume pre: "blocked (kspace (redis w)) pfx (t + Hour) \<and> t \<le> clk e (tick w)"
    and run: "Invalidate e kc pfx' w = (r, w')"
  have time: "tick w \<le> tick w'" using Invalidate_db[OF run] by simp
  have "kspace (redis w') = kspace (redis w) \<or> kspace (redis w') = (kspace (redis w))(prefixKey pfx' := None) \<or>
    kspace (redis w') = (kspace (redis w))(prefixKey pfx' := None, revokedKey pfx' \<mapsto> (RStr ''1'', Some (clk e (tick w) + Hour)))"
    using run
    by (auto simp: Invalidate_def kc usable_store_of with_client_store_of call_def ret_def
        dest!: invalidate_cases split: if_splits prod.splits sum.splits)
  then have "blocked (kspace (redis w')) pfx (t + Hour)"
    using pre key_families(2)[symmetric] by (auto simp: blocked_def revokedKey_def)
  then show "blocked (kspace (redis w')) pfx (t + Hour) \<and> t \<le> clk e (tick w')"
    using pre monoD[OF clk_mono time] by simp
qed

end

text \<open>While the marker lives, and Redis answers, the prefix is refused.\<close>

context healthy_redis
begin

lemma Resolve_refused:
  assumes "kc_redis kc = store_of C True" and "ExtractAPIKeyPrefix raw = Inr pfx" and "blocked (kspace (redis w)) pfx t" and "clk e (tick w) < t"
  shows "\<exists>w'. Resolve e J kc raw w = (Inl (AuthE APIKeyRevoked), w')"
proof -
  obtain x s' where ex: "r_exists C (clk e (tick w)) (revokedKey pfx) (redis w) = (x, s')" by fastforce
  then obtain n where x: "x = Inr n" using exists_up by (cases x) auto
  have "0 < n" using exists_ok[OF ex[unfolded x]] blocked_live[OF assms(3,4)] by blast
  then show ?thesis
    using assms(1,2) ex x by (simp add: Resolve_def usable_store_of with_client_store_of attempt_def fail_def)
qed

lemma Invalidate_sets:
  assumes "kc_redis kc = store_of C True" and "Invalidate e kc pfx w = (r, w')"
  shows "blocked (kspace (redis w')) pfx (clk e (tick w) + Hour)"
proof -
  obtain ns s' where x: "r_exec C (clk e (tick w)) [CmdDel (prefixKey pfx), CmdSet (revokedKey pfx) ''1'' Hour] (redis w) = (Inr ns, s')"
    and K: "apply_cmds (clk e (tick w)) [CmdDel (prefixKey pfx), CmdSet (revokedKey pfx) ''1'' Hour] (kspace (redis w)) = (ns, kspace s')"
    using exec_total by blast
  have "redis w' = s'" using assms x by (auto simp: Invalidate_def usable_store_of with_client_store_of call_def ret_def)
  moreover have "kspace s' = (kspace (redis w))(prefixKey pfx := None, revokedKey pfx \<mapsto> (RStr ''1'', Some (clk e (tick w) + Hour)))"
    using K by (auto simp: duration_defs)
  ultimately show ?thesis by (simp add: blocked_def)
qed

lemma RevokeAPIKey_marks:
  assumes clk_mono: "mono (clk e)" and kc: "kc_redis kc = store_of C True"
    and rev: "RevokeAPIKey e (main_key_service e kc) org sid kid u ip w = (Inr resp, w')"
  shows "\<exists>t. clk e (tick w) \<le> t \<and> t \<le> clk e (tick w') \<and> blocked (kspace (redis w')) (kr_Prefix resp) (t + Hour)"
proof -
  obtain x1 x2 k w1 w2 w3 w4 x4 x5 where
    r1: "requireDeveloper (main_key_service e kc) org u w = (Inr x1, w1)" and r2: "GetServiceByID e org sid w1 = (Inr x2, w2)"
    and r3: "repo_RevokeAPIKey e org sid kid w2 = (Inr k, w3)"
    and r4: "writeAudit (main_key_service e kc) (service_event org u ''api_key.revoked'' ''api_key'' (ak_ID k)
             [(''service_id'', json_string sid), (''prefix'', json_string (ak_Prefix k))] ip) w3 = (Inr x4, w4)"
    and r5: "invalidateKeyCache (main_key_service e kc) (ak_Prefix k) w4 = (Inr x5, w')"
    and resp: "resp = toAPIKeyResponse k"
    using rev unfolding RevokeAPIKey_def by (auto simp: prog_simps)
  obtain r where inv: "Invalidate e kc (ak_Prefix k) w4 = (r, w')"
    using r5 by (auto simp: invalidateKeyCache_def main_key_service_def attempt_def ret_def split: prod.splits)
  have "tick w2 \<le> tick w3"
    using r3 by (auto simp: repo_RevokeAPIKey_def prog_simps dest!: pg_tick quietD[OF quiet_service_reads(5)]
        split: if_splits sum.splits)
  moreover have "tick w3 \<le> tick w4"
    using r4 main_keys.audit_grow by (auto simp: writeAudit_def main_key_service_def attempt_def ret_def
        dest!: tick_PostgresWriter split: prod.splits)
  moreover have "tick w4 \<le> tick w'" using Invalidate_db[OF inv] by simp
  moreover have "tick w \<le> tick w2"
    using quietD[OF main_keys.quiet_requireDeveloper r1] quietD[OF quiet_service_reads(1) r2] by simp
  ultimately have "tick w \<le> tick w4" "tick w4 \<le> tick w'" by simp_all
  with Invalidate_sets[OF kc inv] show ?thesis
    using monoD[OF clk_mono] by (auto simp: resp toAPIKeyResponse_def)
qed

end

end
