(* ===== verification/Key_Cache_Props.thy ===== *)
theory Key_Cache_Props
  imports Key_Marker Service_Props
begin

text \<open>
  Resolving keys while requests revoke and rotate them: whom a resolved key stands for, how long
  a revoked key can still be used, and what a revocation does at once when Redis is up.
\<close>

section \<open>The machine\<close>

text \<open>
  The ingestor resolves keys (a request takes at most \<open>q\<close>), the API serves requests on services
  and keys, and time passes.
\<close>

inductive cache_step ::
    "env \<Rightarrow> key_codecs \<Rightarrow> 'r APIKeyCache \<Rightarrow> duration \<Rightarrow> 'r world \<Rightarrow> 'r world \<Rightarrow> bool"
  for e J c q where
  resolve_step: "Resolve e J c raw w = (r, w') \<Longrightarrow> clk e (tick w') \<le> clk e (tick w) + q \<Longrightarrow>
     cache_step e J c q w w'"
| request_step: "svc_run e (main_key_service e c) p w = (r', w') \<Longrightarrow> cache_step e J c q w w'"
| idle_step: "tick w \<le> n \<Longrightarrow> cache_step e J c q w (w\<lparr>tick := n\<rparr>)"

inductive_cases cache_stepE: "cache_step e J c q w w'"

definition no_entries :: "keyspace \<Rightarrow> bool" where
  "no_entries K \<longleftrightarrow> (\<forall>key. entry_key key \<longrightarrow> K key = None)"

context redis_server
begin

lemma invalidate_shrinks:
  assumes "r_exec C t [CmdDel (prefixKey pfx), CmdSet (revokedKey pfx) ''1'' Hour] s = (r, s')"
  shows "shrinks (kspace s) (kspace s')"
proof -
  have "shrinks K (K(prefixKey pfx := None))" "shrinks K (K(prefixKey pfx := None, revokedKey pfx \<mapsto> x))" for K x
    using entry_keys(3)[of pfx] by (auto simp: shrinks_def)
  then show ?thesis using invalidate_cases[OF assms] shrinks_refl by fastforce
qed

end

context key_cache
begin

lemma Invalidate_shrinks: "keeps (\<lambda>w. shrinks K (kspace (redis w))) (Invalidate e kc pfx)"
proof (rule keepsI)
  fix w r w' assume K: "shrinks K (kspace (redis w))" and run: "Invalidate e kc pfx w = (r, w')"
  have "shrinks (kspace (redis w)) (kspace (redis w'))"
    using run invalidate_shrinks
    by (auto simp: Invalidate_def usable_store_of with_client_store_of call_def ret_def shrinks_refl
        split: if_splits prod.splits sum.splits)
  then show "shrinks K (kspace (redis w'))" by (rule shrinks_trans[OF K])
qed

lemma op_shrinks:
  assumes "svc_run e (main_key_service e kc) x w = (r, w')"
  shows "shrinks (kspace (redis w)) (kspace (redis w'))"
proof -
  have "keeps (\<lambda>v. shrinks (kspace (redis w)) (kspace (redis v))) (svc_run e (main_key_service e kc) x)"
    by (rule main_keys.op_redis[where Q = "\<lambda>n s. shrinks (kspace (redis w)) (kspace s)"])
       (auto simp: main_key_service_def lasting_def intro: Invalidate_shrinks)
  from keepsD[OF this shrinks_refl assms] show ?thesis .
qed

lemma step_inv:
  assumes "uuid_law e" and "cache_step e J kc q w w'" and "cache_inv w"
  shows "cache_inv w'"
  using assms(2)
proof (cases rule: cache_step.cases)
  case (resolve_step raw r)
  then show ?thesis using resolve_effect[OF assms(3)] by blast
next
  case (request_step x r)
  have "keeps (\<lambda>v. aged e (tick w) (service_api_keys (db w)) (tick v) (db v)) (svc_run e (main_key_service e kc) x)"
    by (rule main_keys.ageing.op_keeps[OF assms(1) refl])
  moreover have "aged e (tick w) (service_api_keys (db w)) (tick w) (db w)" by (simp add: aged_def rows_age_refl)
  ultimately have "aged e (tick w) (service_api_keys (db w)) (tick w') (db w')"
    using request_step by (meson keepsD)
  then show ?thesis using inv_age[OF assms(3)] op_shrinks[OF request_step] clk_mono by (simp add: aged_def)
next
  case (idle_step n)
  then show ?thesis using inv_same[OF assms(3)] by simp
qed

lemma steps_inv: "(cache_step e J kc q)\<^sup>*\<^sup>* w w' \<Longrightarrow> uuid_law e \<Longrightarrow> cache_inv w \<Longrightarrow> cache_inv w'"
  by (induction rule: rtranclp_induct) (auto intro: step_inv)

lemma empty_inv: "no_entries (kspace (redis w)) \<Longrightarrow> cache_inv w"
  unfolding cache_inv_def records_ok_def verdicts_ok_def no_entries_def
  by (metis entry_keys(1,2) option.distinct(1))

end

section \<open>The marker of a revoked prefix\<close>

lemma keeps_with_client_redis:
  "(\<And>t s. Q s \<Longrightarrow> Q (snd (op C t s))) \<Longrightarrow> keeps (\<lambda>w. Q (redis w)) (with_client e (store_of C b) op)"
proof (rule keepsI)
  fix w r w' assume Q: "\<And>t s. Q s \<Longrightarrow> Q (snd (op C t s))" "Q (redis w)"
    and run: "with_client e (store_of C b) op w = (r, w')"
  have "redis w' = snd (op C (clk e (tick w)) (redis w))"
    using run by (auto simp: with_client_store_of split: prod.splits sum.splits)
  then show "Q (redis w')" using Q by simp
qed

lemma cl_keeps: "keeps (\<lambda>v. n \<le> tick v) (with_client e (store_of C b) op)"
  by (rule keepsI) (auto simp: with_client_store_of split: prod.splits sum.splits)

context key_cache
begin

lemma resolve_tick:
  assumes "Resolve e J kc raw w = (r, w')"
  shows "tick w \<le> tick w'"
proof -
  let ?I = "\<lambda>v. tick w \<le> tick v"
  have look: "keeps ?I (KeyLookup e pf)" for pf
    by (rule keepsI) (auto dest: quietD[OF quiet_KeyLookup])
  have "keeps ?I (Resolve e J kc raw)"
    unfolding Resolve_def resolve_slow_def loadRecord_def Let_def
    by (auto intro!: keeps_attempt keeps_call keeps_if keeps_ret keeps_fail keeps_case_sum keeps_case_option look cl_keeps)
  then show ?thesis using assms by (meson keepsD order_refl)
qed

lemma Resolve_marker: "keeps (\<lambda>w. blocked (kspace (redis w)) pfx t) (Resolve e J kc raw)"
proof -
  let ?Q = "\<lambda>s. blocked (kspace s) pfx t"
  have get: "?Q s \<Longrightarrow> ?Q (snd (r_get C u k s))" for s u k
    using get_pure[of u k s] by (metis prod.collapse)
  have ex: "?Q s \<Longrightarrow> ?Q (snd (r_exists C u k s))" for s u k
    using exists_pure[of u k s] by (metis prod.collapse)
  have set_other: "?Q s \<Longrightarrow> ?Q (snd (r_exec C u [CmdSet k x ttl] s))" if "k \<noteq> revokedKey pfx" for s u k x ttl
  proof -
    assume Q: "?Q s"
    obtain r s' where x: "r_exec C u [CmdSet k x ttl] s = (r, s')" by fastforce
    show "?Q (snd (r_exec C u [CmdSet k x ttl] s))"
      using exec_other[OF x, of "revokedKey pfx"] that Q x by (simp add: blocked_def)
  qed
  have keys: "prefixKey a \<noteq> revokedKey pfx" "validationKey e a \<noteq> revokedKey pfx" for a
    by (simp_all add: prefixKey_def revokedKey_def validationKey_def)
  have look: "keeps (\<lambda>w. ?Q (redis w)) (KeyLookup e pf)" for pf
    by (rule keepsI) (use quietD[OF quiet_KeyLookup] in metis)
  have load: "keeps (\<lambda>w. ?Q (redis w)) (loadRecord e J kc pf)" for pf
    unfolding loadRecord_def Let_def
    by (auto intro!: keeps_attempt keeps_call keeps_if keeps_ret keeps_fail keeps_case_sum keeps_case_option look
        keeps_with_client_redis[of ?Q] get set_other keys)
  have slow: "keeps (\<lambda>w. ?Q (redis w)) (resolve_slow e J kc raw pf)" for pf
    unfolding resolve_slow_def Let_def
    by (auto intro!: keeps_attempt keeps_call keeps_if keeps_ret keeps_fail keeps_case_option load
        keeps_with_client_redis[of ?Q] set_other keys)
  show ?thesis
    unfolding Resolve_def
    by (auto intro!: keeps_attempt keeps_if keeps_ret keeps_fail keeps_case_sum keeps_case_option slow
        keeps_with_client_redis[of ?Q] get ex)
qed

lemma step_marker:
  assumes "cache_step e J kc q w w'" and "blocked (kspace (redis w)) pfx (t + Hour)" and "t \<le> clk e (tick w)"
  shows "blocked (kspace (redis w')) pfx (t + Hour) \<and> t \<le> clk e (tick w')"
  using assms(1)
proof (cases rule: cache_step.cases)
  case (resolve_step raw r)
  have "tick w \<le> tick w'" using resolve_tick[OF resolve_step(1)] .
  then show ?thesis
    using keepsD[OF Resolve_marker assms(2) resolve_step(1)] assms(3) monoD[OF clk_mono] by fastforce
next
  case (request_step x r)
  let ?Q = "\<lambda>n s. blocked (kspace s) pfx (t + Hour) \<and> t \<le> clk e n"
  have "lasting ?Q" using monoD[OF clk_mono] by (auto simp: lasting_def intro: order_trans)
  then have "keeps (\<lambda>v. ?Q (tick v) (redis v)) (svc_run e (main_key_service e kc) x)"
    by (rule main_keys.op_redis) (auto simp: main_key_service_def intro: Invalidate_marker[OF clk_mono])
  then show ?thesis using keepsD[of _ _ w r w'] request_step assms(2,3) by blast
next
  case (idle_step n)
  then show ?thesis using assms monoD[OF clk_mono idle_step(2)] by simp
qed

lemma steps_marker:
  assumes "(cache_step e J kc q)\<^sup>*\<^sup>* w w'" and "blocked (kspace (redis w)) pfx (t + Hour)" and "t \<le> clk e (tick w)"
  shows "blocked (kspace (redis w')) pfx (t + Hour)"
proof -
  have "blocked (kspace (redis w')) pfx (t + Hour) \<and> t \<le> clk e (tick w')"
    using assms by (induction rule: rtranclp_induct) (blast dest: step_marker)+
  then show ?thesis ..
qed

end

text \<open>While the marker lives, and Redis answers, the prefix is refused.\<close>

locale healthy_cache = key_cache + healthy_redis

section \<open>Sample data\<close>

definition sample_codecs :: key_codecs where
  "sample_codecs =
     \<lparr>rec_codec = \<lparr>Marshal = (\<lambda>r. net_enc_list [kc_ID r, kc_ServiceID r, kc_OrgID r, kc_Prefix r, kc_KeyHash r,
          if kc_Revoked r then ''t'' else ''f'']),
        Unmarshal = (\<lambda>s. case net_dec_list 6 s of
          Some [i, sv, org, pfx, h, rv] \<Rightarrow> Some \<lparr>kc_ID = i, kc_ServiceID = sv, kc_OrgID = org, kc_Prefix = pfx,
            kc_KeyHash = h, kc_Revoked = (rv = ''t'')\<rparr>
        | _ \<Rightarrow> None)\<rparr>,
      res_codec = \<lparr>Marshal = (\<lambda>r. net_enc_list [ra_ID r, ra_ServiceID r, ra_OrgID r]),
        Unmarshal = (\<lambda>s. case net_dec_list 3 s of
          Some [i, sv, org] \<Rightarrow> Some \<lparr>ra_ID = i, ra_ServiceID = sv, ra_OrgID = org\<rparr>
        | _ \<Rightarrow> None)\<rparr>\<rparr>"

lemma sample_codecs_law: "codec_law (rec_codec sample_codecs)" "codec_law (res_codec sample_codecs)"
  using net_dec_enc_list[of "[a, b, c, d, f, g]" for a b c d f g] net_dec_enc_list[of "[a, b, c]" for a b c]
  by (simp_all add: codec_law_def sample_codecs_def numeral_eq_Suc)

lemma sample_clock: "mono (clk sample_env)"
  by (simp add: mono_def sample_env_simps)

lemma sample_ttls:
  "sample_key_cache = \<lparr>kc_redis = store_of up_client True, kc_lookup = KeyLookup sample_env,
     prefixTTL = 300 * Second, validationTTL = 120 * Second\<rparr>"
  by (simp add: NewAPIKeyCache_def durationFromEnv_def no_env_def wrap64_id duration_defs)

interpretation sample_cache: healthy_cache up_client id sample_env sample_codecs True "300 * Second" "120 * Second" "10 * Second"
  by unfold_locales (auto simp: sample_codecs_law sample_clock duration_defs)

section \<open>Properties\<close>

text \<open>
  C18: whom a key resolves to, and for how long: starting with no cached entries, after any
  requests and resolutions, a key that resolves stands for a row of the table (a key with the
  same digest passed its password check), and if that row was revoked, the revocation is less
  than the two lifetimes of the cache and the time of one request ago.
\<close>

theorem Resolve_staleness:
  assumes "key_cache C kspace e J p v q" and "uuid_law e" and "no_entries (kspace (redis start))"
    and "(cache_step e J \<lparr>kc_redis = store_of C b, kc_lookup = KeyLookup e, prefixTTL = p, validationTTL = v\<rparr> q)\<^sup>*\<^sup>*
      start w"
    and "Resolve e J \<lparr>kc_redis = store_of C b, kc_lookup = KeyLookup e, prefixTTL = p, validationTTL = v\<rparr> raw w =
      (Inr res, w')"
    and "clk e (tick w') \<le> clk e (tick w) + q"
  shows "\<exists>k \<in> set (service_api_keys (db w)). k_id k = ra_ID res \<and> k_service_id k = ra_ServiceID res \<and>
    k_org_id k = ra_OrgID res \<and>
    (\<exists>raw'. EncodeToString (sha256 e raw') = EncodeToString (sha256 e raw) \<and> bcrypt_cmp e (k_key_hash k) raw') \<and>
    (\<forall>t. k_revoked_at k = Some t \<longrightarrow> clk e (tick w) < t + p + q + v)"
proof -
  have "key_cache.cache_inv kspace e J p v q w"
    using key_cache.steps_inv[OF assms(1,4,2) key_cache.empty_inv[OF assms(1,3)]] .
  from key_cache.resolve_effect[OF assms(1) this assms(5,6)] show ?thesis
    by (auto simp: key_cache.resolved_ok_def[OF assms(1)] verdict_of_def)
qed

lemma sample_resolve:
  "\<exists>w'. Resolve sample_env sample_codecs sample_key_cache ''ll_bbbbbbbb_1'' sample_key_world =
     (Inr \<lparr>ra_ID = ''k1'', ra_ServiceID = ''svc'', ra_OrgID = ''org''\<rparr>, w') \<and> tick w' = 6"
proof -
  have x: "ExtractAPIKeyPrefix ''ll_bbbbbbbb_1'' = Inr ''ll_bbbbbbbb''"
    by (simp add: ExtractAPIKeyPrefix_def HasPrefix_def TrimPrefix_def api_key_consts Let_def numeral_eq_Suc)
  show ?thesis
    unfolding sample_ttls
    by (simp add: Resolve_def x resolve_slow_def loadRecord_def KeyLookup_def GetActiveAPIKeyByPrefix_def
        active_key_def scan_key_def prefixKey_def revokedKey_def validationKey_def ValidateAPIKey_def
        sample_key_world_def sample_key_db_def sample_org_db_def run_defs duration_defs coalesce_def run_rules cong: run_congs)
qed

theorem Resolve_staleness_witness:
  "\<exists>k \<in> set (service_api_keys sample_key_db). k_service_id k = ''svc'' \<and> k_revoked_at k = None \<and>
     (\<exists>w'. Resolve sample_env sample_codecs sample_key_cache ''ll_bbbbbbbb_1'' sample_key_world =
       (Inr \<lparr>ra_ID = k_id k, ra_ServiceID = k_service_id k, ra_OrgID = k_org_id k\<rparr>, w'))"
proof -
  obtain w' where r: "Resolve sample_env sample_codecs sample_key_cache ''ll_bbbbbbbb_1'' sample_key_world =
     (Inr \<lparr>ra_ID = ''k1'', ra_ServiceID = ''svc'', ra_OrgID = ''org''\<rparr>, w')" and "tick w' = 6"
    using sample_resolve by blast
  then have fast: "clk sample_env (tick w') \<le> clk sample_env (tick sample_key_world) + 10 * Second"
    by (simp add: sample_env_simps duration_defs)
  have empty: "no_entries (id (redis sample_key_world))" by (simp add: no_entries_def sample_key_world_def)
  from Resolve_staleness[OF sample_cache.key_cache_axioms sample_uuid_law empty rtranclp.rtrancl_refl
      r[unfolded sample_ttls] fast] r
  show ?thesis by (auto simp: sample_key_world_def sample_key_db_def)
qed

text \<open>
  When Redis answers, a revocation counts at once: for an hour after a successful request
  to revoke a key, every raw key with its prefix is refused as revoked, whatever else happens.
\<close>

theorem RevokeAPIKey_immediate:
  assumes "healthy_cache C kspace e J p v q"
    and "RevokeAPIKey e (main_key_service e \<lparr>kc_redis = store_of C True, kc_lookup = KeyLookup e,
      prefixTTL = p, validationTTL = v\<rparr>) org sid kid u ip w = (Inr resp, w1)"
    and "(cache_step e J \<lparr>kc_redis = store_of C True, kc_lookup = KeyLookup e, prefixTTL = p, validationTTL = v\<rparr> q)\<^sup>*\<^sup>*
      w1 w2"
    and "clk e (tick w2) < clk e (tick w) + Hour" and "ExtractAPIKeyPrefix raw = Inr (kr_Prefix resp)"
  shows "\<exists>w3. Resolve e J \<lparr>kc_redis = store_of C True, kc_lookup = KeyLookup e, prefixTTL = p, validationTTL = v\<rparr> raw w2 =
    (Inl (AuthE APIKeyRevoked), w3)"
proof -
  have kc: "key_cache C kspace e J p v q" and up: "healthy_redis C kspace"
    using assms(1) by (simp_all add: healthy_cache_def)
  obtain t where t: "clk e (tick w) \<le> t" "t \<le> clk e (tick w1)"
    and mark: "blocked (kspace (redis w1)) (kr_Prefix resp) (t + Hour)"
    using healthy_redis.RevokeAPIKey_marks[OF up key_cache.clk_mono[OF kc] _ assms(2)] by auto
  have "blocked (kspace (redis w2)) (kr_Prefix resp) (t + Hour)"
    by (rule key_cache.steps_marker[OF kc assms(3) mark t(2)])
  from healthy_redis.Resolve_refused[OF up _ assms(5) this] t assms(4) show ?thesis by simp
qed

lemma sample_revoke:
  "\<exists>resp w'. RevokeAPIKey sample_env sample_key_service ''org'' ''svc'' ''k1'' ''alice'' ''ip'' sample_key_world =
     (Inr resp, w') \<and> kr_Prefix resp = ''ll_bbbbbbbb'' \<and> tick w' = 5"
  by (simp add: key_run role_defs varchar_def rune_count_ascii ascii_def run_rules cong: run_congs)

theorem RevokeAPIKey_immediate_witness:
  "\<exists>resp w1 w3. RevokeAPIKey sample_env sample_key_service ''org'' ''svc'' ''k1'' ''alice'' ''ip'' sample_key_world =
      (Inr resp, w1) \<and>
    Resolve sample_env sample_codecs sample_key_cache ''ll_bbbbbbbb_1'' w1 = (Inl (AuthE APIKeyRevoked), w3)"
proof -
  obtain resp w1 where r: "RevokeAPIKey sample_env sample_key_service ''org'' ''svc'' ''k1'' ''alice'' ''ip''
      sample_key_world = (Inr resp, w1)" and resp: "kr_Prefix resp = ''ll_bbbbbbbb''" and "tick w1 = 5"
    using sample_revoke by blast
  then have soon: "clk sample_env (tick w1) < clk sample_env (tick sample_key_world) + Hour"
    by (simp add: sample_env_simps duration_defs)
  have x: "ExtractAPIKeyPrefix ''ll_bbbbbbbb_1'' = Inr (kr_Prefix resp)"
    by (simp add: resp ExtractAPIKeyPrefix_def HasPrefix_def TrimPrefix_def api_key_consts Let_def numeral_eq_Suc)
  from RevokeAPIKey_immediate[OF sample_cache.healthy_cache_axioms r[unfolded sample_ttls] rtranclp.rtrancl_refl soon x] r
  show ?thesis unfolding sample_ttls by blast
qed

definition long_cache :: "keyspace APIKeyCache" where
  "long_cache = NewAPIKeyCache (\<lambda>k. if k = ''API_KEY_VALIDATION_CACHE_TTL_SECONDS'' then ''7200'' else [])
     (store_of up_client True) (KeyLookup sample_env)"

definition wait_until :: "nat \<Rightarrow> ('r, unit) app" where
  "wait_until n w = (Inr (), w\<lparr>tick := n\<rparr>)"

text \<open>
  C35: a verdict may outlive the marker: with a verdict lifetime of two hours, a key that was
  used before it was revoked is refused during the first hour and accepted again after it.
\<close>

theorem revoked_key_revives:
  "\<exists>w'. call (Resolve sample_env sample_codecs long_cache ''ll_bbbbbbbb_1'') (\<lambda>_.
      call (RevokeAPIKey sample_env (main_key_service sample_env long_cache) ''org'' ''svc'' ''k1'' ''alice'' ''ip'') (\<lambda>_.
      call (wait_until 4000) (\<lambda>_. Resolve sample_env sample_codecs long_cache ''ll_bbbbbbbb_1''))) sample_key_world =
    (Inr \<lparr>ra_ID = ''k1'', ra_ServiceID = ''svc'', ra_OrgID = ''org''\<rparr>, w')"
proof -
  have x: "ExtractAPIKeyPrefix ''ll_bbbbbbbb_1'' = Inr ''ll_bbbbbbbb''"
    by (simp add: ExtractAPIKeyPrefix_def HasPrefix_def TrimPrefix_def api_key_consts Let_def numeral_eq_Suc)
  have ttl: "durationFromEnv (\<lambda>k. if k = ''API_KEY_VALIDATION_CACHE_TTL_SECONDS'' then ''7200'' else [])
      ''API_KEY_VALIDATION_CACHE_TTL_SECONDS'' 120 = 7200 * Second"
    "durationFromEnv (\<lambda>k. if k = ''API_KEY_VALIDATION_CACHE_TTL_SECONDS'' then ''7200'' else [])
      ''API_KEY_CACHE_TTL_SECONDS'' 300 = 300 * Second"
    by (simp_all add: durationFromEnv_def Atoi_def digit_val_def duration_defs wrap64_id)
  have long: "long_cache = \<lparr>kc_redis = store_of up_client True, kc_lookup = KeyLookup sample_env,
      prefixTTL = 300 * Second, validationTTL = 7200 * Second\<rparr>"
    by (simp add: long_cache_def NewAPIKeyCache_def ttl)
  have codec: "Unmarshal (res_codec sample_codecs) (Marshal (res_codec sample_codecs) r) = Some r" for r
    using sample_codecs_law(2) by (simp add: codec_law_def)
  show ?thesis
    unfolding long
    by (simp add: Resolve_def x resolve_slow_def loadRecord_def GetActiveAPIKeyByPrefix_def active_key_def validationKey_def
        ValidateAPIKey_def wait_until_def codec key_run role_defs varchar_def rune_count_ascii ascii_def run_rules
        cong: run_congs)
qed

end
