(* ===== verification/Telemetry.thy ===== *)
theory Telemetry
  imports Http Go_Json Redis_Store "HOL-Library.List_Lexorder" "HOL-Library.Char_ord"
begin

text \<open>
  internal/telemetry: log entries and their limits, the search filters read from the query
  string, the repository of logs with its paginated search, the Kafka producer and consumer, and
  the live channel in Redis. The Kafka client, the full-text match, the RFC 3339 parser and the
  JSON of an entry are parameters.
\<close>

section \<open>Entries\<close>

definition MaxMessageBytes :: nat where "MaxMessageBytes = 65536"

definition ValidSeverities :: "string list" where
  "ValidSeverities = [''DEBUG'', ''INFO'', ''WARN'', ''ERROR'', ''FATAL'']"

text \<open>\<open>Metadata\<close> is \<open>None\<close> when the map is nil.\<close>

record IngestRequest =
  ir_Timestamp :: "time option"
  ir_Severity :: string
  ir_Message :: string
  ir_Metadata :: "json_object option"

record LogEntry =
  le_ID :: string
  le_OrgID :: string
  le_ServiceID :: string
  le_Timestamp :: time
  le_Severity :: string
  le_Message :: string
  le_Metadata :: "json_object option"
  le_IngestedAt :: time

definition IsValidSeverity :: "string \<Rightarrow> bool" where
  "IsValidSeverity severity \<longleftrightarrow> severity \<in> set ValidSeverities"

definition ServiceChannel :: "string \<Rightarrow> string" where
  "ServiceChannel serviceID = ''logs:service:'' @ serviceID"

record SearchFilters =
  sf_OrgID :: string
  sf_ServiceIDs :: "string list"
  sf_Severities :: "string list"
  sf_From :: "time option"
  sf_To :: "time option"
  sf_Query :: string
  sf_Page :: int
  sf_Limit :: int

record Pagination =
  pg_Page :: int
  pg_Limit :: int
  pg_Total :: int
  pg_TotalPages :: int

record SearchResult =
  sres_Logs :: "LogEntry list"
  sres_Pagination :: Pagination

text \<open>
  \<open>MarshalJSON\<close> turns a nil map into an empty one, which the tag \<open>omitempty\<close> then leaves out:
  what a reader of the JSON gets back. Encoding fails for a time whose year has no four digits.
\<close>

record entry_codec =
  ec_Marshal :: "LogEntry \<Rightarrow> string option"
  ec_Unmarshal :: "string \<Rightarrow> LogEntry option"

definition MarshalJSON :: "LogEntry \<Rightarrow> LogEntry" where
  "MarshalJSON entry =
     entry\<lparr>le_Metadata := (case le_Metadata entry of None \<Rightarrow> None | Some m \<Rightarrow> if m = [] then None else Some m)\<rparr>"

definition entry_law :: "entry_codec \<Rightarrow> bool" where
  "entry_law J \<longleftrightarrow> (\<forall>x s. ec_Marshal J x = Some s \<longrightarrow> ec_Unmarshal J s = Some (MarshalJSON x))"

section \<open>Search filters\<close>

definition DefaultSearchLimit :: int where "DefaultSearchLimit = 100"
definition MaxSearchLimit :: int where "MaxSearchLimit = 1000"
definition MaxSearchRangeDays :: int where "MaxSearchRangeDays = 30"

text \<open>The query parameters, each the empty string when it is absent\<close>

record query_params =
  qp_service_id :: string
  qp_severity :: string
  qp_from :: string
  qp_to :: string
  qp_q :: string
  qp_page :: string
  qp_limit :: string

text \<open>
  What the search relies on: \<open>time.Parse(time.RFC3339, _)\<close>, \<open>strconv.Quote\<close>, and the match of
  a message against \<open>plainto_tsquery('english', _)\<close>.
\<close>

record search_lib =
  parse_rfc3339 :: "string \<Rightarrow> time option"
  go_quote :: "string \<Rightarrow> string"
  ts_match :: "string \<Rightarrow> string \<Rightarrow> bool"

datatype search_err =
    BadOrganization | BadServiceID string | NoServiceID | BadSeverity string | NoSeverity
  | BadFrom | BadTo | FromAfterTo | RangeTooLong | BadPage | BadLimit | LimitTooLarge

fun search_text :: "search_lib \<Rightarrow> search_err \<Rightarrow> string" where
  "search_text L BadOrganization = ''invalid search parameter: invalid organization id''"
| "search_text L (BadServiceID s) = ''invalid search parameter: invalid service_id '' @ go_quote L s"
| "search_text L NoServiceID = ''invalid search parameter: service_id cannot be empty''"
| "search_text L (BadSeverity s) = ''invalid search parameter: invalid severity '' @ go_quote L s"
| "search_text L NoSeverity = ''invalid search parameter: severity cannot be empty''"
| "search_text L BadFrom = ''invalid search parameter: from must be RFC3339''"
| "search_text L BadTo = ''invalid search parameter: to must be RFC3339''"
| "search_text L FromAfterTo = ''invalid search parameter: from must be before to''"
| "search_text L RangeTooLong = ''invalid search parameter: time range cannot exceed 30 days''"
| "search_text L BadPage = ''invalid search parameter: page must be a positive integer''"
| "search_text L BadLimit = ''invalid search parameter: limit must be a positive integer''"
| "search_text L LimitTooLarge = ''invalid search parameter: limit cannot exceed 1000''"

fun uuid_parts :: "env \<Rightarrow> string list \<Rightarrow> search_err + string list" where
  "uuid_parts e [] = Inr []"
| "uuid_parts e (p # ps) =
     (let part = TrimSpace p in
      if part = [] then uuid_parts e ps
      else if \<not> uuid_ok e part then Inl (BadServiceID part)
      else (case uuid_parts e ps of Inl x \<Rightarrow> Inl x | Inr ids \<Rightarrow> Inr (part # ids)))"

definition parseUUIDList :: "env \<Rightarrow> string \<Rightarrow> search_err + string list" where
  "parseUUIDList e raw =
     (case uuid_parts e (Split raw (CHR '','')) of
        Inl x \<Rightarrow> Inl x
      | Inr ids \<Rightarrow> if ids = [] then Inl NoServiceID else Inr ids)"

fun severity_parts :: "env \<Rightarrow> string list \<Rightarrow> search_err + string list" where
  "severity_parts e [] = Inr []"
| "severity_parts e (p # ps) =
     (let part = TrimSpace (ToUpper (uni_upper e) p) in
      if part = [] then severity_parts e ps
      else if \<not> IsValidSeverity part then Inl (BadSeverity part)
      else (case severity_parts e ps of Inl x \<Rightarrow> Inl x | Inr xs \<Rightarrow> Inr (part # xs)))"

definition parseSeverityList :: "env \<Rightarrow> string \<Rightarrow> search_err + string list" where
  "parseSeverityList e raw =
     (case severity_parts e (Split raw (CHR '','')) of
        Inl x \<Rightarrow> Inl x
      | Inr xs \<Rightarrow> if xs = [] then Inl NoSeverity else Inr xs)"

text \<open>One optional parameter: absent after trimming, or parsed\<close>

definition optional :: "string \<Rightarrow> 'a \<Rightarrow> (string \<Rightarrow> 'x + 'a) \<Rightarrow> ('a \<Rightarrow> 'x + 'b) \<Rightarrow> 'x + 'b" where
  "optional param dflt parse k =
     (let raw = TrimSpace param in
      if raw = [] then k dflt
      else (case parse raw of Inl x \<Rightarrow> Inl x | Inr v \<Rightarrow> k v))"

definition parse_time :: "search_lib \<Rightarrow> search_err \<Rightarrow> string \<Rightarrow> search_err + time option" where
  "parse_time L x raw = (case parse_rfc3339 L raw of None \<Rightarrow> Inl x | Some t \<Rightarrow> Inr (Some t))"

definition check_range :: "time option \<Rightarrow> time option \<Rightarrow> (search_err + 'b) \<Rightarrow> search_err + 'b" where
  "check_range from to k =
     (case (from, to) of
        (Some f, Some t) \<Rightarrow>
          if t < f then Inl FromAfterTo
          else if MaxSearchRangeDays * 24 * Hour < t - f then Inl RangeTooLong
          else k
      | _ \<Rightarrow> k)"

definition parse_page :: "string \<Rightarrow> search_err + int" where
  "parse_page raw =
     (case Atoi raw of None \<Rightarrow> Inl BadPage | Some page \<Rightarrow> if page < 1 then Inl BadPage else Inr page)"

definition parse_limit :: "string \<Rightarrow> search_err + int" where
  "parse_limit raw =
     (case Atoi raw of
        None \<Rightarrow> Inl BadLimit
      | Some limit \<Rightarrow>
          if limit < 1 then Inl BadLimit
          else if MaxSearchLimit < limit then Inl LimitTooLarge
          else Inr limit)"

definition ParseSearchFilters ::
    "env \<Rightarrow> search_lib \<Rightarrow> query_params \<Rightarrow> string \<Rightarrow> search_err + SearchFilters" where
  "ParseSearchFilters e L qp orgID =
     (if \<not> uuid_ok e orgID then Inl BadOrganization
      else
        optional (qp_service_id qp) [] (parseUUIDList e) (\<lambda>ids.
        optional (qp_severity qp) [] (parseSeverityList e) (\<lambda>severities.
        optional (qp_from qp) None (parse_time L BadFrom) (\<lambda>from.
        optional (qp_to qp) None (parse_time L BadTo) (\<lambda>to.
        check_range from to
          (let q = TrimSpace (qp_q qp) in
           optional (qp_page qp) 1 parse_page (\<lambda>page.
           optional (qp_limit qp) DefaultSearchLimit parse_limit (\<lambda>limit.
             Inr \<lparr>sf_OrgID = orgID, sf_ServiceIDs = ids, sf_Severities = severities, sf_From = from,
                  sf_To = to, sf_Query = q, sf_Page = page, sf_Limit = limit\<rparr>))))))))"

section \<open>Repository\<close>

text \<open>A \<open>timestamptz\<close> holds microseconds.\<close>

definition pg_time :: "time \<Rightarrow> time" where
  "pg_time t = t div 1000 * 1000"

text \<open>The order of a page: newest first, equal times by the greater UUID\<close>

datatype log_key = LogKey (key_time: time) (key_id: string)

instantiation log_key :: linorder
begin

definition less_eq_log_key :: "log_key \<Rightarrow> log_key \<Rightarrow> bool" where
  "a \<le> b \<longleftrightarrow> key_time b < key_time a \<or> (key_time a = key_time b \<and> key_id b \<le> key_id a)"

definition less_log_key :: "log_key \<Rightarrow> log_key \<Rightarrow> bool" where
  "a < b \<longleftrightarrow> key_time b < key_time a \<or> (key_time a = key_time b \<and> key_id b < key_id a)"

instance
  by standard (auto simp: less_eq_log_key_def less_log_key_def log_key.expand)

end

definition log_key_of :: "LogRow \<Rightarrow> log_key" where
  "log_key_of r = LogKey (l_timestamp r) (l_id r)"

definition scan_log :: "LogRow \<Rightarrow> LogEntry" where
  "scan_log r =
     \<lparr>le_ID = l_id r, le_OrgID = l_org_id r, le_ServiceID = l_service_id r,
      le_Timestamp = l_timestamp r, le_Severity = l_severity r, le_Message = l_message r,
      le_Metadata = Some (l_metadata r), le_IngestedAt = l_ingested_at r\<rparr>"

definition insert_entry :: "env \<Rightarrow> LogEntry \<Rightarrow> unit stmt" where
  "insert_entry e x =
     with_uuid e (le_ID x) (\<lambda>id'. with_uuid e (le_OrgID x) (\<lambda>oid. with_uuid e (le_ServiceID x) (\<lambda>sid now i d.
       returning (\<lambda>_. ()) (insert_log
         \<lparr>l_id = id', l_org_id = oid, l_service_id = sid, l_timestamp = pg_time (le_Timestamp x),
          l_severity = le_Severity x, l_message = le_Message x,
          l_metadata = (case le_Metadata x of None \<Rightarrow> [] | Some m \<Rightarrow> m),
          l_ingested_at = pg_time (le_IngestedAt x)\<rparr> d))))"

text \<open>A batch is one implicit transaction: the first statement that fails undoes the others.\<close>

fun insert_batch :: "env \<Rightarrow> LogEntry list \<Rightarrow> unit stmt" where
  "insert_batch e [] now i d = (Inr (), d)"
| "insert_batch e (x # xs) now i d =
     (case insert_entry e x now i d of
        (Inl f, _) \<Rightarrow> (Inl f, d)
      | (Inr _, d1) \<Rightarrow>
          (case insert_batch e xs now i d1 of (Inl f, _) \<Rightarrow> (Inl f, d) | (Inr u, d2) \<Rightarrow> (Inr u, d2)))"

definition InsertLogs :: "env \<Rightarrow> LogEntry list \<Rightarrow> ('r, unit) app" where
  "InsertLogs e entries = (if entries = [] then ret () else pg e (insert_batch e entries))"

definition GetLogByID :: "env \<Rightarrow> string \<Rightarrow> string \<Rightarrow> string \<Rightarrow> ('r, LogEntry) app" where
  "GetLogByID e orgID serviceID logID =
     on_no_rows LogNotFound
       (pg e (with_uuid e logID (\<lambda>lid. with_uuid e orgID (\<lambda>oid. with_uuid e serviceID (\<lambda>sid now i d.
          returning scan_log (select_row logs
            (\<lambda>r. l_id r = lid \<and> l_org_id r = oid \<and> l_service_id r = sid) now i d))))))"

definition GetLogByOrgID :: "env \<Rightarrow> string \<Rightarrow> string \<Rightarrow> ('r, LogEntry) app" where
  "GetLogByOrgID e orgID logID =
     on_no_rows LogNotFound
       (pg e (with_uuid e logID (\<lambda>lid. with_uuid e orgID (\<lambda>oid now i d.
          returning scan_log (select_row logs (\<lambda>r. l_id r = lid \<and> l_org_id r = oid) now i d)))))"

text \<open>\<open>$2::uuid[]\<close>: every element must be a UUID.\<close>

fun with_uuids :: "env \<Rightarrow> string list \<Rightarrow> (string list \<Rightarrow> 'a stmt) \<Rightarrow> 'a stmt" where
  "with_uuids e [] q = q []"
| "with_uuids e (x # xs) q = with_uuid e x (\<lambda>i. with_uuids e xs (\<lambda>is. q (i # is)))"

definition log_matches :: "search_lib \<Rightarrow> SearchFilters \<Rightarrow> string \<Rightarrow> string list \<Rightarrow> LogRow \<Rightarrow> bool" where
  "log_matches L f oid sids r \<longleftrightarrow>
     l_org_id r = oid \<and>
     (sf_ServiceIDs f = [] \<or> l_service_id r \<in> set sids) \<and>
     (sf_Severities f = [] \<or> l_severity r \<in> set (sf_Severities f)) \<and>
     (case sf_From f of None \<Rightarrow> True | Some t \<Rightarrow> pg_time t \<le> l_timestamp r) \<and>
     (case sf_To f of None \<Rightarrow> True | Some t \<Rightarrow> l_timestamp r \<le> pg_time t) \<and>
     (sf_Query f = [] \<or> ts_match L (l_message r) (sf_Query f))"

definition search_where :: "env \<Rightarrow> search_lib \<Rightarrow> SearchFilters \<Rightarrow> (LogRow list \<Rightarrow> pg_err + 'a) \<Rightarrow> 'a stmt" where
  "search_where e L f out =
     with_uuid e (sf_OrgID f) (\<lambda>oid. with_uuids e (sf_ServiceIDs f) (\<lambda>sids now i d.
       (out (filter (log_matches L f oid sids) (logs d)), d)))"

definition page_of :: "int \<Rightarrow> int \<Rightarrow> LogRow list \<Rightarrow> pg_err + LogRow list" where
  "page_of limit offset rows =
     (if limit < 0 then Inl (OtherPg ''2201W'')
      else if offset < 0 then Inl (OtherPg ''2201X'')
      else Inr (take (nat limit) (drop (nat offset) (sort_key log_key_of rows))))"

definition SearchLogs :: "env \<Rightarrow> search_lib \<Rightarrow> SearchFilters \<Rightarrow> ('r, SearchResult) app" where
  "SearchLogs e L f =
     call (pg e (search_where e L f (\<lambda>rows. Inr (int (length rows))))) (\<lambda>total.
       let offset = wrap64 (wrap64 (sf_Page f - 1) * sf_Limit f) in
     call (pg e (search_where e L f (page_of (sf_Limit f) offset))) (\<lambda>rows.
     call (if 0 < total then
             if sf_Limit f = 0 then fail (OtherE ''integer divide by zero'')
             else ret (quot (wrap64 (wrap64 (total + sf_Limit f) - 1)) (sf_Limit f))
           else ret 0) (\<lambda>totalPages.
       ret \<lparr>sres_Logs = map scan_log rows,
            sres_Pagination = \<lparr>pg_Page = sf_Page f, pg_Limit = sf_Limit f, pg_Total = total,
              pg_TotalPages = totalPages\<rparr>\<rparr>)))"

definition DeleteOlderThan :: "env \<Rightarrow> time \<Rightarrow> ('r, int) app" where
  "DeleteOlderThan e cutoff =
     pg e (\<lambda>now i d.
       (Inr (int (length (filter (\<lambda>r. l_timestamp r < pg_time cutoff) (logs d)))),
        d\<lparr>logs := filter (\<lambda>r. \<not> l_timestamp r < pg_time cutoff) (logs d)\<rparr>))"

section \<open>Handlers\<close>

fun mapLogError :: "err \<Rightarrow> 'a reply" where
  "mapLogError LogNotFound = Failure 404 ''log not found''"
| "mapLogError _ = internal_error"

definition GetLog_handler :: "env \<Rightarrow> ('r, LogEntry) endpoint" where
  "GetLog_handler e c =
     with_user c (\<lambda>_. respond 200 mapLogError (\<lambda>x. x) (GetLogByID e (p_id c) (p_serviceId c) (p_logId c)))"

definition GetLogByOrg_handler :: "env \<Rightarrow> ('r, LogEntry) endpoint" where
  "GetLogByOrg_handler e c =
     with_user c (\<lambda>_. respond 200 mapLogError (\<lambda>x. x) (GetLogByOrgID e (p_id c) (p_logId c)))"

definition SearchLogs_handler :: "env \<Rightarrow> search_lib \<Rightarrow> query_params \<Rightarrow> ('r, SearchResult) endpoint" where
  "SearchLogs_handler e L qp c =
     with_user c (\<lambda>_.
       case ParseSearchFilters e L qp (p_id c) of
         Inl x \<Rightarrow> answer (Failure 400 (search_text L x))
       | Inr f \<Rightarrow> respond 200 (\<lambda>_. internal_error) (\<lambda>x. x) (SearchLogs e L f))"

definition telemetry_Health :: "('r, string) endpoint" where
  "telemetry_Health c = answer (Success 200 ''ok'')"

section \<open>Kafka\<close>

definition KafkaBrokers :: "(string \<Rightarrow> string) \<Rightarrow> string list" where
  "KafkaBrokers getenv =
     (let raw = getenv ''KAFKA_BROKERS'' in
      if raw = [] then [''localhost:9092'']
      else filter (\<lambda>b. b \<noteq> []) (map TrimSpace (Split raw (CHR '',''))))"

definition KafkaTopic :: "(string \<Rightarrow> string) \<Rightarrow> string" where
  "KafkaTopic getenv =
     (let topic = getenv ''KAFKA_TOPIC_LOGS'' in if topic \<noteq> [] then topic else ''loglens.logs'')"

definition KafkaConsumerGroup :: "(string \<Rightarrow> string) \<Rightarrow> string" where
  "KafkaConsumerGroup getenv =
     (let group = getenv ''KAFKA_CONSUMER_GROUP'' in if group \<noteq> [] then group else ''loglens-consumer'')"

text \<open>
  The client of the broker, over the state of the outside servers: \<open>WriteMessages\<close> of one
  message, \<open>FetchMessage\<close>, which returns the next message of the partition and its offset, and
  \<open>CommitMessages\<close> of a message's offset.
\<close>

record kafka_message =
  km_key :: string
  km_value :: string
  km_time :: time

record 'r kafka =
  k_write :: "kafka_message \<Rightarrow> 'r \<Rightarrow> (string + unit) \<times> 'r"
  k_fetch :: "'r \<Rightarrow> (string + nat \<times> kafka_message) \<times> 'r"
  k_commit :: "nat \<Rightarrow> 'r \<Rightarrow> (string + unit) \<times> 'r"

text \<open>
  \<open>NewProducer\<close> and \<open>NewConsumer\<close>: the settings they give the writer and the reader of the library.
  With \<open>RequireAll\<close> a write returns when all replicas have the message; \<open>LeastBytes\<close> spreads the
  messages over the partitions whatever their keys; the commit interval makes commits asynchronous.
\<close>

datatype kafka_acks = RequireNone | RequireOne | RequireAll

datatype kafka_balancer = RoundRobin | LeastBytes | HashKey

datatype kafka_offset = FirstOffset | LastOffset

record WriterConfig =
  wc_Addr :: "string list"
  wc_Topic :: string
  wc_RequiredAcks :: kafka_acks
  wc_Balancer :: kafka_balancer

record ReaderConfig =
  rd_Brokers :: "string list"
  rd_Topic :: string
  rd_GroupID :: string
  rd_MinBytes :: int
  rd_MaxBytes :: int
  rd_MaxWait :: duration
  rd_CommitInterval :: duration
  rd_StartOffset :: kafka_offset

definition NewProducer :: "(string \<Rightarrow> string) \<Rightarrow> (WriterConfig \<Rightarrow> 'w) \<Rightarrow> 'w" where
  "NewProducer getenv newWriter = newWriter
     \<lparr>wc_Addr = KafkaBrokers getenv, wc_Topic = KafkaTopic getenv, wc_RequiredAcks = RequireAll, wc_Balancer = LeastBytes\<rparr>"

definition NewConsumer :: "(string \<Rightarrow> string) \<Rightarrow> (ReaderConfig \<Rightarrow> 'w) \<Rightarrow> 'w" where
  "NewConsumer getenv newReader = newReader
     \<lparr>rd_Brokers = KafkaBrokers getenv, rd_Topic = KafkaTopic getenv, rd_GroupID = KafkaConsumerGroup getenv,
      rd_MinBytes = 1, rd_MaxBytes = 10000000, rd_MaxWait = 500 * Millisecond, rd_CommitInterval = Second,
      rd_StartOffset = FirstOffset\<rparr>"

text \<open>Closing does nothing on a nil receiver or a nil handle.\<close>

definition Producer_Close :: "('w \<Rightarrow> string + unit) \<Rightarrow> 'w option option \<Rightarrow> string + unit" where
  "Producer_Close close p = (case p of Some (Some writer) \<Rightarrow> close writer | _ \<Rightarrow> Inr ())"

definition Consumer_Close :: "('w \<Rightarrow> string + unit) \<Rightarrow> 'w option option \<Rightarrow> string + unit" where
  "Consumer_Close close c = (case c of Some (Some reader) \<Rightarrow> close reader | _ \<Rightarrow> Inr ())"

definition with_kafka :: "('r \<Rightarrow> (string + 'a) \<times> 'r) \<Rightarrow> ('r, 'a) app" where
  "with_kafka op w =
     (case op (redis w) of
        (Inl x, s) \<Rightarrow> (Inl (OtherE x), w\<lparr>redis := s, tick := Suc (tick w)\<rparr>)
      | (Inr v, s) \<Rightarrow> (Inr v, w\<lparr>redis := s, tick := Suc (tick w)\<rparr>))"

definition Publish :: "env \<Rightarrow> 'r kafka \<Rightarrow> entry_codec \<Rightarrow> LogEntry \<Rightarrow> ('r, unit) app" where
  "Publish e K J entry =
     (case ec_Marshal J entry of
        None \<Rightarrow> fail (OtherE ''json'')
      | Some payload \<Rightarrow>
          call (Now e) (\<lambda>now.
            with_kafka (k_write K \<lparr>km_key = le_ServiceID entry, km_value = payload, km_time = now\<rparr>)))"

text \<open>A message that does not decode is an error, and so is a failed fetch.\<close>

definition Fetch :: "'r kafka \<Rightarrow> entry_codec \<Rightarrow> ('r, LogEntry \<times> nat) app" where
  "Fetch K J =
     call (with_kafka (k_fetch K)) (\<lambda>(off, msg).
       case ec_Unmarshal J (km_value msg) of
         None \<Rightarrow> fail (OtherE ''json'')
       | Some entry \<Rightarrow>
           ret (if le_Metadata entry = None then entry\<lparr>le_Metadata := Some []\<rparr> else entry, off))"

definition Commit :: "'r kafka \<Rightarrow> nat \<Rightarrow> ('r, unit) app" where
  "Commit K off = with_kafka (k_commit K off)"

definition IsKafkaUnavailable :: "err option \<Rightarrow> bool" where
  "IsKafkaUnavailable x \<longleftrightarrow> x \<noteq> None \<and> x \<noteq> Some (OtherE ''context canceled'')"

section \<open>The live channel\<close>

definition PublishLog :: "env \<Rightarrow> 'r RedisStore option \<Rightarrow> entry_codec \<Rightarrow> LogEntry \<Rightarrow> ('r, unit) app" where
  "PublishLog e rs J entry =
     (if \<not> usable rs then ret ()
      else
        (case ec_Marshal J entry of
           None \<Rightarrow> fail (OtherE ''json'')
         | Some payload \<Rightarrow>
             with_client e rs (\<lambda>c t. r_publish c t (ServiceChannel (le_ServiceID entry)) payload)))"

end
