(* ===== verification/Telemetry_Contract.thy ===== *)
theory Telemetry_Contract
  imports Telemetry Service_Contract
begin

text \<open>
  Lemmas on the telemetry component: what the filters guarantee, what a search returns, and that
  the pages of a search are the sorted result cut into pieces.
\<close>

section \<open>Filters\<close>

lemma uuid_parts_ok: "uuid_parts e ps = Inr ids \<Longrightarrow> list_all (uuid_ok e) ids"
  by (induction ps arbitrary: ids) (auto simp: Let_def split: if_splits sum.splits)

lemma severity_parts_ok: "severity_parts e ps = Inr xs \<Longrightarrow> list_all IsValidSeverity xs"
  by (induction ps arbitrary: xs) (auto simp: Let_def split: if_splits sum.splits)

lemma optional_Inr:
  "optional s x p k = Inr y \<longleftrightarrow>
     (if TrimSpace s = [] then k x = Inr y else \<exists>v. p (TrimSpace s) = Inr v \<and> k v = Inr y)"
  by (auto simp: optional_def Let_def split: sum.splits)

lemma check_range_Inr:
  "check_range from to k = Inr y \<longleftrightarrow>
     k = Inr y \<and> (\<forall>f t. from = Some f \<longrightarrow> to = Some t \<longrightarrow> f \<le> t \<and> t - f \<le> MaxSearchRangeDays * 24 * Hour)"
  by (auto simp: check_range_def split: option.splits if_splits)

definition filters_ok :: "env \<Rightarrow> string \<Rightarrow> SearchFilters \<Rightarrow> bool" where
  "filters_ok e org f \<longleftrightarrow>
     sf_OrgID f = org \<and> uuid_ok e org \<and> list_all (uuid_ok e) (sf_ServiceIDs f) \<and>
     list_all IsValidSeverity (sf_Severities f) \<and> trimmed (sf_Query f) \<and>
     1 \<le> sf_Page f \<and> sf_Page f < 2 ^ 63 \<and> 1 \<le> sf_Limit f \<and> sf_Limit f \<le> 1000 \<and>
     (\<forall>a b. sf_From f = Some a \<longrightarrow> sf_To f = Some b \<longrightarrow> a \<le> b \<and> b - a \<le> 30 * 24 * Hour)"

lemma parse_page_Inr: "parse_page s = Inr n \<Longrightarrow> 1 \<le> n \<and> n < 2 ^ 63"
  by (auto simp: parse_page_def dest: Atoi_range split: option.splits if_splits)

lemma parse_limit_Inr: "parse_limit s = Inr n \<Longrightarrow> 1 \<le> n \<and> n \<le> 1000"
  by (auto simp: parse_limit_def MaxSearchLimit_def split: option.splits if_splits)

lemma parseUUIDList_Inr: "parseUUIDList e s = Inr ids \<Longrightarrow> list_all (uuid_ok e) ids"
  by (auto simp: parseUUIDList_def dest: uuid_parts_ok split: sum.splits if_splits)

lemma parseSeverityList_Inr: "parseSeverityList e s = Inr xs \<Longrightarrow> list_all IsValidSeverity xs"
  by (auto simp: parseSeverityList_def dest: severity_parts_ok split: sum.splits if_splits)

lemma optional_cases:
  assumes "optional s x p k = Inr y" and "P x" and "\<And>r v. p r = Inr v \<Longrightarrow> P v"
  obtains v where "P v" and "k v = Inr y"
  using assms by (auto simp: optional_Inr split: if_splits)

lemma filters_ok: "ParseSearchFilters e L qp org = Inr f \<Longrightarrow> filters_ok e org f"
  unfolding ParseSearchFilters_def Let_def
  apply (split if_split_asm, simp)
  apply (erule optional_cases[where P = "list_all (uuid_ok e)"], simp, erule parseUUIDList_Inr)
  apply (erule optional_cases[where P = "list_all IsValidSeverity"], simp, erule parseSeverityList_Inr)
  apply (erule optional_cases[where P = "\<lambda>_. True"], simp, simp)
  apply (erule optional_cases[where P = "\<lambda>_. True"], simp, simp)
  apply (unfold check_range_Inr, erule conjE)
  apply (erule optional_cases[where P = "\<lambda>n. 1 \<le> n \<and> n < 2 ^ 63"], simp, erule parse_page_Inr)
  apply (erule optional_cases[where P = "\<lambda>n. 1 \<le> n \<and> n \<le> 1000"], simp add: DefaultSearchLimit_def,
      erule parse_limit_Inr)
  apply (auto simp: filters_ok_def MaxSearchRangeDays_def)
  done

section \<open>Search\<close>

text \<open>The rows a search is about, unsorted\<close>

definition found :: "env \<Rightarrow> search_lib \<Rightarrow> SearchFilters \<Rightarrow> database \<Rightarrow> LogRow list" where
  "found e L f d =
     (case (pg_uuid e (sf_OrgID f), those (map (pg_uuid e) (sf_ServiceIDs f))) of
        (Some oid, Some sids) \<Rightarrow> filter (log_matches L f oid sids) (logs d)
      | _ \<Rightarrow> [])"

definition search_ids_ok :: "env \<Rightarrow> SearchFilters \<Rightarrow> bool" where
  "search_ids_ok e f \<longleftrightarrow> pg_uuid e (sf_OrgID f) \<noteq> None \<and> those (map (pg_uuid e) (sf_ServiceIDs f)) \<noteq> None"

lemma with_uuids_eq:
  "with_uuids e xs q t u d =
     (case those (map (pg_uuid e) xs) of None \<Rightarrow> (Inl (OtherPg ''22P02''), d) | Some is \<Rightarrow> q is t u d)"
  by (induction xs arbitrary: q) (auto simp: with_uuid_def split: option.splits)

lemma search_where_eq:
  "search_where e L f out t u d =
     (if search_ids_ok e f then (out (found e L f d), d) else (Inl (OtherPg ''22P02''), d))"
  by (auto simp: search_where_def with_uuid_def with_uuids_eq found_def search_ids_ok_def split: option.splits)

lemma pg_search:
  "pg e (search_where e L f out) w = (Inr x, w') \<longleftrightarrow>
     pg_fault e (tick w) = None \<and> search_ids_ok e f \<and> out (found e L f (db w)) = Inr x \<and> w' = w\<lparr>tick := Suc (tick w)\<rparr>"
  by (auto simp: pg_Inr search_where_eq)

definition offset_of :: "SearchFilters \<Rightarrow> int" where
  "offset_of f = wrap64 (wrap64 (sf_Page f - 1) * sf_Limit f)"

definition page_rows :: "env \<Rightarrow> search_lib \<Rightarrow> SearchFilters \<Rightarrow> database \<Rightarrow> LogRow list" where
  "page_rows e L f d =
     take (nat (sf_Limit f)) (drop (nat (offset_of f)) (sort_key log_key_of (found e L f d)))"

definition total_pages :: "SearchFilters \<Rightarrow> int \<Rightarrow> int" where
  "total_pages f n = (if 0 < n then quot (wrap64 (wrap64 (n + sf_Limit f) - 1)) (sf_Limit f) else 0)"

lemma SearchLogs_Inr:
  "SearchLogs e L f w = (Inr res, w') \<longleftrightarrow>
     pg_fault e (tick w) = None \<and> pg_fault e (Suc (tick w)) = None \<and> search_ids_ok e f \<and>
     0 \<le> sf_Limit f \<and> 0 \<le> offset_of f \<and> (0 < length (found e L f (db w)) \<longrightarrow> sf_Limit f \<noteq> 0) \<and>
     res = \<lparr>sres_Logs = map scan_log (page_rows e L f (db w)),
            sres_Pagination = \<lparr>pg_Page = sf_Page f, pg_Limit = sf_Limit f,
              pg_Total = int (length (found e L f (db w))),
              pg_TotalPages = total_pages f (int (length (found e L f (db w))))\<rparr>\<rparr> \<and>
     w' = w\<lparr>tick := Suc (Suc (tick w))\<rparr>"
  unfolding SearchLogs_def Let_def call_Inr pg_search
  by (auto simp: page_of_def ret_def fail_def page_rows_def total_pages_def offset_of_def
      split: if_splits)

lemma stmt_pure_search: "stmt_keeps P (search_where e L f out)"
  by (simp add: stmt_keeps_def search_where_eq)

lemma quiet_SearchLogs: "quiet (SearchLogs e L f)"
  unfolding SearchLogs_def Let_def
  by (intro quiet_call quiet_if quiet_ret quiet_fail stmt_pure_quiet stmt_pure_search)

text \<open>A negative offset is an error of the server.\<close>

lemma SearchLogs_bad_offset:
  assumes "\<forall>n. pg_fault e n = None" and "search_ids_ok e f" and "0 \<le> sf_Limit f" and "offset_of f < 0"
  shows "\<exists>w'. SearchLogs e L f w = (Inl (PgE (OtherPg ''2201X'')), w')"
proof -
  have "\<exists>n w1. pg e (search_where e L f (\<lambda>rows. Inr (int (length rows)))) w = (Inr n, w1)"
    using assms(1,2) by (simp add: pg_search)
  then obtain n w1 where "pg e (search_where e L f (\<lambda>rows. Inr (int (length rows)))) w = (Inr n, w1)" by blast
  moreover have "\<exists>w2. pg e (search_where e L f (page_of (sf_Limit f) (offset_of f))) w1 = (Inl (PgE (OtherPg ''2201X'')), w2)"
    using assms by (simp add: pg_def Let_def search_where_eq page_of_def)
  then obtain w2 where "pg e (search_where e L f (page_of (sf_Limit f) (offset_of f))) w1 = (Inl (PgE (OtherPg ''2201X'')), w2)"
    by blast
  ultimately show ?thesis unfolding SearchLogs_def Let_def offset_of_def by (simp add: call_step call_stop)
qed

section \<open>Pages\<close>

text \<open>Cut into pieces of \<open>k\<close>, as many as the rounded-up quotient says, a list is what it was.\<close>

lemma pages_concat:
  assumes "0 < k"
  shows "concat (map (\<lambda>i. take k (drop (i * k) xs)) [0..<(length xs + k - 1) div k]) = xs"
proof -
  have pref: "concat (map (\<lambda>i. take k (drop (i * k) xs)) [0..<n]) = take (n * k) xs" for n
  proof (induction n)
    case (Suc n)
    then show ?case by (simp add: take_add add.commute[of k])
  qed simp
  have "length xs \<le> (length xs + k - 1) div k * k"
    using dividend_less_div_times[OF assms, of "length xs + k - 1"] by linarith
  then show ?thesis by (simp add: pref)
qed

lemma quot_pos: "0 \<le> a \<Longrightarrow> 0 < b \<Longrightarrow> quot a b = a div b"
  by (cases "a = 0") (simp_all add: quot_def)

lemma total_pages_eq:
  assumes "1 \<le> sf_Limit f" and "sf_Limit f \<le> 1000" and "n < 2 ^ 62"
  shows "total_pages f (int n) = int ((n + nat (sf_Limit f) - 1) div nat (sf_Limit f))"
proof (cases "n = 0")
  case True
  then show ?thesis using assms(1) by (simp add: total_pages_def)
next
  case False
  define k where "k = nat (sf_Limit f)"
  have k: "sf_Limit f = int k" "1 \<le> k" "k \<le> 1000" using assms(1,2) by (simp_all add: k_def)
  have "wrap64 (int n + int k) = int n + int k" using assms(3) k by (intro wrap64_id) simp_all
  moreover have "wrap64 (int n + int k - 1) = int n + int k - 1" using assms(3) k by (intro wrap64_id) simp_all
  ultimately have "total_pages f (int n) = quot (int n + int k - 1) (int k)"
    using False by (simp add: total_pages_def k(1))
  also have "\<dots> = int ((n + k - 1) div k)"
    using k by (simp add: quot_pos zdiv_int of_nat_diff)
  finally show ?thesis by (simp add: k_def)
qed

lemma offset_page:
  assumes "1 \<le> sf_Limit f" and "sf_Limit f \<le> 1000" and "n < 2 ^ 62" and "i < (n + nat (sf_Limit f) - 1) div nat (sf_Limit f)"
  shows "offset_of (f\<lparr>sf_Page := int i + 1\<rparr>) = int (i * nat (sf_Limit f))"
proof -
  define k where "k = nat (sf_Limit f)"
  have k: "sf_Limit f = int k" "1 \<le> k" "k \<le> 1000" using assms(1,2) by (simp_all add: k_def)
  have "i * k \<le> (n + k - 1) div k * k" using assms(4) by (simp add: k_def)
  also have "\<dots> \<le> n + k - 1" by simp
  finally have le: "i * k \<le> n + k - 1" .
  have "i * 1 \<le> i * k" using k(2) by (intro mult_le_mono2)
  then have "i \<le> n + k - 1" using le by linarith
  with le have "i < 2 ^ 63" "i * k < 2 ^ 63" using assms(3) k(3) by simp_all
  then have small: "int i < 2 ^ 63" "int (i * k) < 2 ^ 63"
    by (simp_all only: of_nat_less_numeral_power_cancel_iff)
  have "wrap64 (int i) = int i" using small(1) by (intro wrap64_id) simp_all
  moreover have "wrap64 (int i * int k) = int i * int k" using small(2) by (intro wrap64_id) (simp_all flip: of_nat_mult)
  ultimately show ?thesis by (simp add: offset_of_def k(1))
qed

end
