(* ===== verification/Telemetry_Props.thy ===== *)
theory Telemetry_Props
  imports Telemetry_Contract "HOL-Library.Multiset"
begin

text \<open>
  What the telemetry component promises its users: the filters it accepts, the pages of a search,
  and that a stored entry is the one that is read back.
\<close>

section \<open>Sample data\<close>

definition sample_lib :: search_lib where
  "sample_lib = \<lparr>parse_rfc3339 = (\<lambda>s. None), go_quote = (\<lambda>s. s), ts_match = (\<lambda>m q. m = q)\<rparr>"

definition sample_log :: "string \<Rightarrow> time \<Rightarrow> LogRow" where
  "sample_log i t = \<lparr>l_id = i, l_org_id = ''org'', l_service_id = ''svc'', l_timestamp = t, l_severity = ''INFO'',
     l_message = ''m'', l_metadata = [], l_ingested_at = t\<rparr>"

definition sample_log_world :: "unit world" where
  "sample_log_world = \<lparr>db = empty_db
     \<lparr>organizations := [\<lparr>o_id = ''org'', o_name = ''Org'', o_created_by = ''alice'', o_created_at = 0, o_updated_at = 0\<rparr>],
      services := [\<lparr>s_id = ''svc'', s_org_id = ''org'', s_name = ''Api'', s_description = None,
         s_created_by = ''alice'', s_created_at = 0, s_updated_at = 0, s_deleted_at = None\<rparr>],
      logs := [sample_log ''a'' 1000, sample_log ''b'' 3000, sample_log ''c'' 2000]\<rparr>, redis = (), tick = 0\<rparr>"

definition sample_filters :: SearchFilters where
  "sample_filters = \<lparr>sf_OrgID = ''org'', sf_ServiceIDs = [], sf_Severities = [], sf_From = None, sf_To = None,
     sf_Query = [], sf_Page = 1, sf_Limit = 2\<rparr>"

definition no_params :: query_params where
  "no_params = \<lparr>qp_service_id = [], qp_severity = [], qp_from = [], qp_to = [], qp_q = [], qp_page = [], qp_limit = []\<rparr>"

lemma TrimSpace_Nil [simp]: "TrimSpace [] = []"
  using TrimSpace_length[of "[]"] by simp

lemma log_matches_page: "log_matches L (f\<lparr>sf_Page := p\<rparr>) = log_matches L f"
  by (intro ext) (simp add: log_matches_def)

lemma those_Some: "those xs = Some ys \<Longrightarrow> xs = map Some ys"
  by (induction xs arbitrary: ys) (auto split: option.splits)

lemma page_run:
  assumes "\<forall>n. pg_fault e n = None" and "search_ids_ok e f" and "1 \<le> sf_Limit f" and "sf_Limit f \<le> 1000"
    and "length (logs (db v)) < 2 ^ 62"
    and "i < (length (found e L f (db v)) + nat (sf_Limit f) - 1) div nat (sf_Limit f)"
  shows "\<exists>v'. SearchLogs e L (f\<lparr>sf_Page := int i + 1\<rparr>) v = (Inr
      \<lparr>sres_Logs = map scan_log (take (nat (sf_Limit f)) (drop (i * nat (sf_Limit f)) (sort_key log_key_of (found e L f (db v))))),
       sres_Pagination = \<lparr>pg_Page = int i + 1, pg_Limit = sf_Limit f, pg_Total = int (length (found e L f (db v))),
         pg_TotalPages = int ((length (found e L f (db v)) + nat (sf_Limit f) - 1) div nat (sf_Limit f))\<rparr>\<rparr>, v')"
proof -
  let ?g = "f\<lparr>sf_Page := int i + 1\<rparr>"
  have fnd: "found e L ?g d = found e L f d" for d
    unfolding found_def log_matches_page by simp
  have "length (found e L f (db v)) \<le> length (logs (db v))"
    by (auto simp: found_def split: option.splits)
  then have len: "length (found e L f (db v)) < 2 ^ 62" using assms(5) by linarith
  have off: "offset_of ?g = int (i * nat (sf_Limit f))" by (rule offset_page[OF assms(3,4) len assms(6)])
  have tot: "total_pages ?g (int (length (found e L f (db v)))) =
      int ((length (found e L f (db v)) + nat (sf_Limit f) - 1) div nat (sf_Limit f))"
  proof -
    have "total_pages ?g m = total_pages f m" for m by (simp add: total_pages_def)
    then show ?thesis using total_pages_eq[OF assms(3,4) len] by metis
  qed
  have ids: "search_ids_ok e ?g" using assms(2) by (simp add: search_ids_ok_def)
  show ?thesis
    unfolding SearchLogs_Inr page_rows_def fnd off
    using assms(1,3) ids tot by (simp flip: of_nat_mult)
qed

section \<open>Properties\<close>

text \<open>
  C34: a search that is not refused has filters within bounds: UUIDs and severities are valid, the
  page is positive, the limit is between 1 and 1000, and a closed time range is ordered and at
  most 30 days long.
\<close>

theorem ParseSearchFilters_bounds:
  assumes "ParseSearchFilters e L qp org = Inr f"
  shows "sf_OrgID f = org \<and> uuid_ok e org \<and> (\<forall>i \<in> set (sf_ServiceIDs f). uuid_ok e i) \<and>
    (\<forall>s \<in> set (sf_Severities f). s \<in> {''DEBUG'', ''INFO'', ''WARN'', ''ERROR'', ''FATAL''}) \<and>
    1 \<le> sf_Page f \<and> sf_Page f < 2 ^ 63 \<and> 1 \<le> sf_Limit f \<and> sf_Limit f \<le> 1000 \<and>
    (\<forall>a b. sf_From f = Some a \<longrightarrow> sf_To f = Some b \<longrightarrow> a \<le> b \<and> b - a \<le> 30 * 24 * Hour)"
  using filters_ok[OF assms]
  by (auto simp: filters_ok_def list_all_iff IsValidSeverity_def ValidSeverities_def)

theorem ParseSearchFilters_bounds_witness:
  "\<exists>f. ParseSearchFilters sample_env sample_lib no_params ''org'' = Inr f \<and> sf_Limit f \<le> 1000"
proof -
  obtain f where f: "ParseSearchFilters sample_env sample_lib no_params ''org'' = Inr f"
    by (simp add: ParseSearchFilters_def optional_def check_range_def no_params_def sample_env_simps Let_def)
  from ParseSearchFilters_bounds[OF f] f show ?thesis by blast
qed

text \<open>
  C16: the pages of a search, one after the other, are exactly the entries it matches, newest
  first: nothing is left out, shown twice or shown in another order, and the number of pages is
  the one every page announces.
\<close>

theorem SearchLogs_pages:
  fixes w :: "'r world"
  assumes "\<forall>n. pg_fault e n = None" and "SearchLogs e L f w = (Inr res, w')"
    and "1 \<le> sf_Limit f" and "sf_Limit f \<le> 1000" and "length (logs (db w)) < 2 ^ 62"
  shows "\<exists>oid sids rows pages.
    pg_uuid e (sf_OrgID f) = Some oid \<and> map (pg_uuid e) (sf_ServiceIDs f) = map Some sids \<and>
    mset rows = mset (filter (log_matches L f oid sids) (logs (db w))) \<and> sorted (map log_key_of rows) \<and>
    concat (map sres_Logs pages) = map scan_log rows \<and>
    int (length pages) = pg_TotalPages (sres_Pagination res) \<and>
    (\<forall>i < length pages. \<forall>v :: 'r world. db v = db w \<longrightarrow>
       (\<exists>v'. SearchLogs e L (f\<lparr>sf_Page := int i + 1\<rparr>) v = (Inr (pages ! i), v')))"
proof -
  have ids: "search_ids_ok e f" and res: "res = \<lparr>sres_Logs = map scan_log (page_rows e L f (db w)),
            sres_Pagination = \<lparr>pg_Page = sf_Page f, pg_Limit = sf_Limit f,
              pg_Total = int (length (found e L f (db w))),
              pg_TotalPages = total_pages f (int (length (found e L f (db w))))\<rparr>\<rparr>"
    using assms(2) unfolding SearchLogs_Inr by simp_all
  obtain oid sids where u: "pg_uuid e (sf_OrgID f) = Some oid" "those (map (pg_uuid e) (sf_ServiceIDs f)) = Some sids"
    using ids by (auto simp: search_ids_ok_def)
  have sids: "map (pg_uuid e) (sf_ServiceIDs f) = map Some sids"
    using u(2) by (rule those_Some)
  define k where "k = nat (sf_Limit f)"
  define rows where "rows = sort_key log_key_of (found e L f (db w))"
  define n where "n = (length rows + k - 1) div k"
  have k: "0 < k" using assms(3) by (simp add: k_def)
  have len: "length rows = length (found e L f (db w))" by (simp add: rows_def)
  have "length (found e L f (db w)) \<le> length (logs (db w))" by (auto simp: found_def split: option.splits)
  then have small: "length (found e L f (db w)) < 2 ^ 62" using assms(5) by linarith
  define page where "page i = \<lparr>sres_Logs = map scan_log (take k (drop (i * k) rows)),
       sres_Pagination = \<lparr>pg_Page = int i + 1, pg_Limit = sf_Limit f, pg_Total = int (length rows),
         pg_TotalPages = int n\<rparr>\<rparr>" for i
  have "concat (map sres_Logs (map page [0..<n])) = map scan_log (concat (map (\<lambda>i. take k (drop (i * k) rows)) [0..<n]))"
    by (simp add: page_def map_concat comp_def)
  also have "\<dots> = map scan_log rows" unfolding n_def pages_concat[OF k] ..
  finally have cat: "concat (map sres_Logs (map page [0..<n])) = map scan_log rows" .
  have tot: "pg_TotalPages (sres_Pagination res) = int n"
    using total_pages_eq[OF assms(3,4) small] by (simp add: res n_def k_def len)
  have run: "\<forall>i < length (map page [0..<n]). \<forall>v :: 'r world. db v = db w \<longrightarrow>
      (\<exists>v'. SearchLogs e L (f\<lparr>sf_Page := int i + 1\<rparr>) v = (Inr (map page [0..<n] ! i), v'))"
  proof (intro allI impI)
    fix i and v :: "'r world"
    assume "i < length (map page [0..<n])" "db v = db w"
    then show "\<exists>v'. SearchLogs e L (f\<lparr>sf_Page := int i + 1\<rparr>) v = (Inr (map page [0..<n] ! i), v')"
      using page_run[OF assms(1) ids assms(3,4), of v i L] assms(5)
      by (simp add: page_def rows_def k_def n_def)
  qed
  have "mset rows = mset (filter (log_matches L f oid sids) (logs (db w)))"
    by (simp add: rows_def found_def u)
  moreover have "sorted (map log_key_of rows)" by (simp add: rows_def)
  moreover have "int (length (map page [0..<n])) = pg_TotalPages (sres_Pagination res)" using tot by simp
  ultimately show ?thesis
    using u(1) sids cat run by blast
qed

theorem SearchLogs_pages_witness:
  "\<exists>pages. length (concat (map sres_Logs pages)) = 3 \<and>
    (\<forall>i < length pages. \<exists>v'. SearchLogs sample_env sample_lib (sample_filters\<lparr>sf_Page := int i + 1\<rparr>) sample_log_world =
       (Inr (pages ! i), v'))"
proof -
  obtain res w' where r: "SearchLogs sample_env sample_lib sample_filters sample_log_world = (Inr res, w')"
    unfolding SearchLogs_Inr
    by (simp add: search_ids_ok_def sample_env_simps sample_filters_def offset_of_def wrap64_id)
  have ok: "\<forall>n. pg_fault sample_env n = None" by (simp add: sample_env_simps)
  have lim: "1 \<le> sf_Limit sample_filters" "sf_Limit sample_filters \<le> 1000" "length (logs (db sample_log_world)) < 2 ^ 62"
    by (simp_all add: sample_filters_def sample_log_world_def)
  obtain oid sids rows pages where "pg_uuid sample_env (sf_OrgID sample_filters) = Some oid"
    and m: "mset rows = mset (filter (log_matches sample_lib sample_filters oid sids) (logs (db sample_log_world)))"
    and c: "concat (map sres_Logs pages) = map scan_log rows"
    and p: "\<forall>i < length pages. \<forall>v :: unit world. db v = db sample_log_world \<longrightarrow>
       (\<exists>v'. SearchLogs sample_env sample_lib (sample_filters\<lparr>sf_Page := int i + 1\<rparr>) v = (Inr (pages ! i), v'))"
    using SearchLogs_pages[OF ok r lim] by (elim exE conjE) (rule that)
  then have "oid = ''org''" by (simp add: sample_env_simps sample_filters_def)
  with m have m: "mset rows = mset (filter (log_matches sample_lib sample_filters ''org'' sids) (logs (db sample_log_world)))"
    by simp
  have "filter (log_matches sample_lib sample_filters ''org'' sids) (logs (db sample_log_world)) =
      [sample_log ''a'' 1000, sample_log ''b'' 3000, sample_log ''c'' 2000]"
    by (simp add: log_matches_def sample_filters_def sample_log_world_def sample_log_def)
  with mset_eq_length[OF m] have "length rows = length [sample_log ''a'' 1000, sample_log ''b'' 3000, sample_log ''c'' 2000]"
    by (simp only:)
  then have "length rows = 3" by simp
  then show ?thesis using c p by (metis length_map)
qed

lemma big_page:
  "ParseSearchFilters sample_env sample_lib (no_params\<lparr>qp_page := ''9223372036854775807'', qp_limit := ''1000''\<rparr>) ''org'' =
   Inr (sample_filters\<lparr>sf_Page := 9223372036854775807, sf_Limit := 1000\<rparr>)"
proof -
  have t: "TrimSpace ''9223372036854775807'' = ''9223372036854775807''" "TrimSpace ''1000'' = ''1000''"
    by code_simp+
  show ?thesis
    by (simp add: ParseSearchFilters_def optional_def check_range_def no_params_def sample_env_simps Let_def t
        parse_page_def parse_limit_def Atoi_def digit_val_def MaxSearchLimit_def sample_filters_def)
qed

text \<open>
  A page far out of range is a server error instead of an empty page: the product of page and
  limit wraps around, the server refuses the negative offset, and the answer is 500.
\<close>

theorem SearchLogs_offset_overflow:
  "\<exists>w'. SearchLogs_handler sample_env sample_lib
      (no_params\<lparr>qp_page := ''9223372036854775807'', qp_limit := ''1000''\<rparr>)
      \<lparr>auth_header = [], ctx_user = Some ''alice'', ctx_role = None, ctx_org_role = None, p_id = ''org'',
       p_serviceId = [], p_keyId = [], p_logId = [], real_ip = []\<rparr> sample_log_world =
    (Failure 500 ''internal server error'', w')"
proof -
  let ?f = "sample_filters\<lparr>sf_Page := 9223372036854775807, sf_Limit := 1000\<rparr>"
  have "offset_of ?f = -2000" by (simp add: offset_of_def wrap64_def)
  then obtain w' where "SearchLogs sample_env sample_lib ?f sample_log_world = (Inl (PgE (OtherPg ''2201X'')), w')"
    using SearchLogs_bad_offset[of sample_env ?f]
    by (auto simp: sample_env_simps search_ids_ok_def sample_filters_def)
  then show ?thesis
    by (simp add: SearchLogs_handler_def with_user_def big_page respond_def internal_error_def)
qed

definition sample_entry :: LogEntry where
  "sample_entry = \<lparr>le_ID = ''d'', le_OrgID = ''org'', le_ServiceID = ''svc'', le_Timestamp = 4567, le_Severity = ''WARN'',
     le_Message = ''hello'', le_Metadata = None, le_IngestedAt = 5000\<rparr>"

lemma insert_batch_one: "insert_batch e [x] t u d = (Inr (), d') \<longleftrightarrow> insert_entry e x t u d = (Inr (), d')"
  by (cases "insert_entry e x t u d"; cases "fst (insert_entry e x t u d)") auto

text \<open>
  C33: a stored entry is read back as it was written, its identifiers in the server's spelling and
  its times cut to microseconds.
\<close>

theorem InsertLogs_GetLogByID:
  assumes "uuid_law e" and "InsertLogs e [x] w = (Inr (), w1)" and "logs_ok (db w)" and "db w2 = db w1"
    and "pg_fault e (tick w2) = None"
  shows "\<exists>i oid sid w3. pg_uuid e (le_ID x) = Some i \<and> pg_uuid e (le_OrgID x) = Some oid \<and>
    pg_uuid e (le_ServiceID x) = Some sid \<and>
    GetLogByID e (le_OrgID x) (le_ServiceID x) (le_ID x) w2 =
      (Inr \<lparr>le_ID = i, le_OrgID = oid, le_ServiceID = sid, le_Timestamp = pg_time (le_Timestamp x),
            le_Severity = le_Severity x, le_Message = le_Message x,
            le_Metadata = Some (case le_Metadata x of None \<Rightarrow> [] | Some m \<Rightarrow> m),
            le_IngestedAt = pg_time (le_IngestedAt x)\<rparr>, w3)"
proof -
  have "insert_batch e [x] (clk e (tick w)) (uuid e (tick w)) (db w) = (Inr (), db w1)"
    using assms(2) unfolding InsertLogs_def if_not_P[OF list.distinct(2)] pg_Inr by (elim conjE exE) simp
  then have ins: "insert_entry e x (clk e (tick w)) (uuid e (tick w)) (db w) = (Inr (), db w1)"
    by (simp only: insert_batch_one)
  obtain i oid sid where u: "pg_uuid e (le_ID x) = Some i" "pg_uuid e (le_OrgID x) = Some oid"
      "pg_uuid e (le_ServiceID x) = Some sid" and new: "i \<notin> l_id ` set (logs (db w))"
    and d: "db w1 = (db w)\<lparr>logs := logs (db w) @ [\<lparr>l_id = i, l_org_id = oid, l_service_id = sid,
        l_timestamp = pg_time (le_Timestamp x), l_severity = le_Severity x, l_message = le_Message x,
        l_metadata = (case le_Metadata x of None \<Rightarrow> [] | Some m \<Rightarrow> m), l_ingested_at = pg_time (le_IngestedAt x)\<rparr>]\<rparr>"
    using ins by (auto simp: insert_entry_def with_uuid_Inr returning_Inr insert_log_def constrained_Inr)
  have none: "find (\<lambda>r. l_id r = i \<and> l_org_id r = oid \<and> l_service_id r = sid) (logs (db w)) = None"
    using new by (auto simp: find_None_iff)
  let ?row = "\<lparr>l_id = i, l_org_id = oid, l_service_id = sid,
        l_timestamp = pg_time (le_Timestamp x), l_severity = le_Severity x, l_message = le_Message x,
        l_metadata = (case le_Metadata x of None \<Rightarrow> [] | Some m \<Rightarrow> m), l_ingested_at = pg_time (le_IngestedAt x)\<rparr>"
  have "logs (db w2) = logs (db w) @ [?row]" using d assms(4) by simp
  then have "find (\<lambda>r. l_id r = i \<and> l_org_id r = oid \<and> l_service_id r = sid) (logs (db w2)) = Some ?row"
    by (simp add: find_append none)
  then have "select_row logs (\<lambda>r. l_id r = i \<and> l_org_id r = oid \<and> l_service_id r = sid) t v (db w2) = (Inr ?row, db w2)"
    for t v by (simp add: select_row_def)
  then have "GetLogByID e (le_OrgID x) (le_ServiceID x) (le_ID x) w2 = (Inr (scan_log ?row), w2\<lparr>tick := Suc (tick w2), db := db w2\<rparr>)"
    unfolding GetLogByID_def on_no_rows_Inr pg_Inr with_uuid_Inr returning_Inr using u assms(5) by blast
  then show ?thesis using u by (simp add: scan_log_def)
qed

theorem InsertLogs_GetLogByID_witness:
  "\<exists>w1 w3. InsertLogs sample_env [sample_entry] sample_log_world = (Inr (), w1) \<and>
    GetLogByID sample_env ''org'' ''svc'' ''d'' w1 = (Inr (sample_entry\<lparr>le_Timestamp := 4000, le_Metadata := Some []\<rparr>), w3)"
proof -
  have d: "\<exists>d. insert_entry sample_env sample_entry t u (db sample_log_world) = (Inr (), d)" for t u
    by (simp add: insert_entry_def sample_entry_def sample_log_world_def sample_log_def sample_env_simps
        insert_log_def varchar_def rune_count_ascii ascii_def run_defs)
  then have "\<exists>d. insert_batch sample_env [sample_entry] t u (db sample_log_world) = (Inr (), d)" for t u
    unfolding insert_batch_one by blast
  then obtain d where
    "insert_batch sample_env [sample_entry] (clk sample_env (tick sample_log_world)) (uuid sample_env (tick sample_log_world))
      (db sample_log_world) = (Inr (), d)"
    by blast
  then obtain w1 where w1: "InsertLogs sample_env [sample_entry] sample_log_world = (Inr (), w1)"
    unfolding InsertLogs_def if_not_P[OF list.distinct(2)] pg_Inr using sample_env_simps(3) by blast
  have "uuid_law sample_env" by (simp add: uuid_law_def sample_env_simps)
  moreover have "logs_ok (db sample_log_world)"
    by (simp add: logs_ok_def sample_log_world_def sample_log_def)
  moreover have "pg_fault sample_env (tick w1) = None" by (simp add: sample_env_simps)
  ultimately show ?thesis
    using InsertLogs_GetLogByID[OF _ w1 _ refl] w1
    by (fastforce simp: sample_entry_def sample_env_simps pg_time_def)
qed

end
