(* ===== verification/Ai.thy ===== *)
theory Ai
  imports Telemetry
begin

text \<open>
  internal/ai: the clients of the two model providers, the orchestrator that falls back from one
  to the other and extracts JSON from the answer, the prompts, and the three endpoints. The HTTP
  transport, the decoding of JSON, the encoding of the logs in a prompt and \<open>%q\<close> are parameters.
\<close>

section \<open>Types and configuration\<close>

datatype Provider = ProviderGemini | ProviderOpenRouter

record GenerateRequest =
  gr_UseCase :: string
  gr_Model :: string
  gr_Prompt :: string

record GenerateResult =
  gx_Provider :: Provider
  gx_Model :: string
  gx_Text :: string

text \<open>The interface the orchestrator calls\<close>

record 'r ai_client =
  cl_Provider :: Provider
  cl_Generate :: "GenerateRequest \<Rightarrow> ('r, GenerateResult) app"

definition OpenRouterFallbackModel :: "(string \<Rightarrow> string) \<Rightarrow> string" where
  "OpenRouterFallbackModel getenv =
     (let m = getenv ''AI_OPENROUTER_FALLBACK_MODEL'' in
      if m \<noteq> [] then m else ''meta-llama/llama-3.3-70b-instruct:free'')"

section \<open>Providers\<close>

record http_request =
  hr_url :: string
  hr_headers :: "(string \<times> string) list"
  hr_body :: string

text \<open>
  What the clients rely on: whether \<open>http.NewRequest\<close> accepts a URL, the round trip, which
  fails or returns a status and what could be read of the body, and the decoding of the two
  answers, reduced to the fields the code reads.
\<close>

record 'r ai_lib =
  url_ok :: "string \<Rightarrow> bool"
  http_do :: "http_request \<Rightarrow> 'r \<Rightarrow> (string + nat \<times> string) \<times> 'r"
  decode_gemini :: "string \<Rightarrow> string list list option"
  decode_openrouter :: "string \<Rightarrow> string list option"

definition round_trip :: "'r ai_lib \<Rightarrow> http_request \<Rightarrow> ('r, nat \<times> string) app" where
  "round_trip L rq w =
     (case http_do L rq (redis w) of
        (Inl x, s) \<Rightarrow> (Inl (AiE ProviderFailure), w\<lparr>redis := s, tick := Suc (tick w)\<rparr>)
      | (Inr v, s) \<Rightarrow> (Inr v, w\<lparr>redis := s, tick := Suc (tick w)\<rparr>))"

text \<open>The checks on the status both clients make, and then the answer\<close>

definition checked :: "(string \<Rightarrow> ai_err + string) \<Rightarrow> nat \<times> string \<Rightarrow> ai_err + string" where
  "checked parse resp =
     (case resp of (status, raw) \<Rightarrow>
        if status = 429 then Inl AIRateLimited
        else if status < 200 \<or> 300 \<le> status then Inl ProviderFailure
        else parse raw)"

record GeminiClient =
  gm_apiKey :: string
  gm_baseURL :: string

definition NewGeminiClient :: "(string \<Rightarrow> string) \<Rightarrow> GeminiClient option" where
  "NewGeminiClient getenv =
     (let key = getenv ''GEMINI_API_KEY'' in
      if key = [] then None
      else Some \<lparr>gm_apiKey = key, gm_baseURL = ''https://generativelanguage.googleapis.com/v1beta''\<rparr>)"

definition geminiReq :: "string \<Rightarrow> string" where
  "geminiReq prompt =
     CHR 0x7B # json_string ''contents'' @ '':[{'' @ json_string ''parts'' @ '':[{'' @ json_string ''text'' @
     '':'' @ json_string prompt @ ''}]}]}''"

definition gemini_text :: "'r ai_lib \<Rightarrow> string \<Rightarrow> ai_err + string" where
  "gemini_text L raw =
     (case decode_gemini L raw of
        None \<Rightarrow> Inl BadResponse
      | Some candidates \<Rightarrow>
          (case candidates of
             [] \<Rightarrow> Inl BadResponse
           | parts # _ \<Rightarrow> (case parts of [] \<Rightarrow> Inl BadResponse | t # _ \<Rightarrow> Inr t)))"

definition gemini_Generate :: "'r ai_lib \<Rightarrow> GeminiClient \<Rightarrow> GenerateRequest \<Rightarrow> ('r, GenerateResult) app" where
  "gemini_Generate L c req =
     (let url = gm_baseURL c @ ''/models/'' @ gr_Model req @ '':generateContent'' in
      if \<not> url_ok L url then fail (OtherE ''url'')
      else
        call (round_trip L \<lparr>hr_url = url,
            hr_headers = [(''Content-Type'', ''application/json''), (''X-goog-api-key'', gm_apiKey c)],
            hr_body = geminiReq (gr_Prompt req)\<rparr>) (\<lambda>resp.
          case checked (gemini_text L) resp of
            Inl x \<Rightarrow> fail (AiE x)
          | Inr t \<Rightarrow> ret \<lparr>gx_Provider = ProviderGemini, gx_Model = gr_Model req, gx_Text = t\<rparr>))"

record OpenRouterClient =
  or_apiKey :: string
  or_baseURL :: string

definition NewOpenRouterClient :: "(string \<Rightarrow> string) \<Rightarrow> OpenRouterClient option" where
  "NewOpenRouterClient getenv =
     (let key = getenv ''OPENROUTER_API_KEY'' in
      if key = [] then None
      else Some \<lparr>or_apiKey = key, or_baseURL = ''https://openrouter.ai/api/v1''\<rparr>)"

definition openaiChatReq :: "string \<Rightarrow> string \<Rightarrow> string" where
  "openaiChatReq model prompt =
     CHR 0x7B # json_string ''model'' @ '':'' @ json_string model @ '','' @ json_string ''messages'' @ '':[{'' @
     json_string ''role'' @ '':'' @ json_string ''user'' @ '','' @ json_string ''content'' @ '':'' @ json_string prompt @
     ''}],'' @ json_string ''reasoning'' @ '':{'' @ json_string ''enabled'' @ '':true}}''"

definition openrouter_text :: "'r ai_lib \<Rightarrow> string \<Rightarrow> ai_err + string" where
  "openrouter_text L raw =
     (case decode_openrouter L raw of
        None \<Rightarrow> Inl BadResponse
      | Some choices \<Rightarrow> (case choices of [] \<Rightarrow> Inl BadResponse | t # _ \<Rightarrow> Inr t))"

definition openrouter_Generate ::
    "'r ai_lib \<Rightarrow> OpenRouterClient \<Rightarrow> GenerateRequest \<Rightarrow> ('r, GenerateResult) app" where
  "openrouter_Generate L c req =
     (let url = or_baseURL c @ ''/chat/completions'' in
      if \<not> url_ok L url then fail (OtherE ''url'')
      else
        call (round_trip L \<lparr>hr_url = url,
            hr_headers = [(''Content-Type'', ''application/json''), (''Authorization'', ''Bearer '' @ or_apiKey c)],
            hr_body = openaiChatReq (gr_Model req) (gr_Prompt req)\<rparr>) (\<lambda>resp.
          case checked (openrouter_text L) resp of
            Inl x \<Rightarrow> fail (AiE x)
          | Inr t \<Rightarrow> ret \<lparr>gx_Provider = ProviderOpenRouter, gx_Model = gr_Model req, gx_Text = t\<rparr>))"

definition gemini_client :: "'r ai_lib \<Rightarrow> GeminiClient \<Rightarrow> 'r ai_client" where
  "gemini_client L c = \<lparr>cl_Provider = ProviderGemini, cl_Generate = gemini_Generate L c\<rparr>"

definition openrouter_client :: "'r ai_lib \<Rightarrow> OpenRouterClient \<Rightarrow> 'r ai_client" where
  "openrouter_client L c = \<lparr>cl_Provider = ProviderOpenRouter, cl_Generate = openrouter_Generate L c\<rparr>"

section \<open>Orchestration\<close>

record 'r Orchestrator =
  primary :: "'r ai_client"
  fallback :: "'r ai_client"

record RunResult =
  rr_Provider :: Provider
  rr_Model :: string

definition fence :: string where "fence = replicate 3 (CHR 0x60)"

text \<open>From the first opening to the last closing bracket\<close>

definition extractFirstJSON :: "string \<Rightarrow> string option" where
  "extractFirstJSON s0 =
     (let s = TrimSpace s0;
          s = TrimPrefix s (fence @ ''json'');
          s = TrimPrefix s fence;
          s = TrimSuffix s fence;
          s = TrimSpace s;
          startObj = IndexByte s (CHR 0x7B);
          startArr = IndexByte s (CHR 0x5B);
          start = (if 0 \<le> startObj \<and> 0 \<le> startArr then (if startObj < startArr then startObj else startArr)
                   else if 0 \<le> startObj then startObj else startArr) in
      if start < 0 then None
      else
        let endObj = LastIndexByte s (CHR 0x7D);
            endArr = LastIndexByte s (CHR 0x5D);
            end' = (if endObj < endArr then endArr else endObj) in
        if end' \<le> start then None
        else Some (TrimSpace (take (nat (end' + 1 - start)) (drop (nat start) s))))"

text \<open>
  \<open>json.Unmarshal\<close> into \<open>out\<close>: what it leaves in \<open>out\<close>, and whether it succeeded. It may write
  some fields and then fail.
\<close>

type_synonym 'o decoder = "string \<Rightarrow> 'o \<Rightarrow> 'o \<times> bool"

definition tryProvider ::
    "'r ai_client \<Rightarrow> GenerateRequest \<Rightarrow> 'o decoder \<Rightarrow> 'o \<Rightarrow> 'r world \<Rightarrow> ((err + RunResult) \<times> 'o) \<times> 'r world" where
  "tryProvider client req D out w =
     (case cl_Generate client req w of
        (Inl x, w') \<Rightarrow> ((Inl x, out), w')
      | (Inr result, w') \<Rightarrow>
          (case extractFirstJSON (gx_Text result) of
             None \<Rightarrow> ((Inl (AiE BadResponse), out), w')
           | Some jsonText \<Rightarrow>
               (case D jsonText out of (out', ok) \<Rightarrow>
                  if ok then ((Inr \<lparr>rr_Provider = gx_Provider result, rr_Model = gx_Model result\<rparr>, out'), w')
                  else ((Inl (AiE BadResponse), out'), w'))))"

definition recoverable :: "err \<Rightarrow> bool" where
  "recoverable x \<longleftrightarrow> x = AiE AIRateLimited \<or> x = AiE ProviderFailure \<or> x = AiE BadResponse"

definition RunJSON ::
    "'r Orchestrator \<Rightarrow> GenerateRequest \<Rightarrow> string \<Rightarrow> 'o decoder \<Rightarrow> 'o \<Rightarrow> 'r world \<Rightarrow>
     ((err + RunResult) \<times> 'o) \<times> 'r world" where
  "RunJSON orch req fallbackModel D out w =
     (case tryProvider (primary orch) req D out w of
        ((Inr res, out'), w') \<Rightarrow> ((Inr res, out'), w')
      | ((Inl x, out'), w') \<Rightarrow>
          if \<not> recoverable x then ((Inl x, out'), w')
          else tryProvider (fallback orch) (req\<lparr>gr_Model := fallbackModel\<rparr>) D out' w')"

section \<open>Prompts\<close>

record SummarizeInputLog =
  sl_ID :: string
  sl_Timestamp :: time
  sl_Severity :: string
  sl_Message :: string
  sl_ServiceID :: string

definition newline :: char where "newline = CHR 0x0A"

definition PromptNLQ :: "search_lib \<Rightarrow> string \<Rightarrow> string" where
  "PromptNLQ L question = TrimSpace (Join
     [[],
      ''Return ONLY valid JSON. No markdown. No extra keys.'',
      [],
      ''Schema:'',
      CHR 0x7B # json_string ''service_ids'' @ '':['' @ json_string ''uuid'' @ ''],'' @ json_string ''severity'' @ '':['' @
        json_string ''DEBUG|INFO|WARN|ERROR|FATAL'' @ ''],'' @ json_string ''from'' @ '':'' @ json_string ''RFC3339|null'' @
        '','' @ json_string ''to'' @ '':'' @ json_string ''RFC3339|null'' @ '','' @ json_string ''q'' @ '':'' @
        json_string ''string'' @ '','' @ json_string ''limit'' @ '':100}'',
      [],
      ''Rules:'',
      ''- service_ids can be empty array'',
      ''- severity can be empty array'',
      ''- from/to may be null'',
      ''- q should be a short keyword query (or empty string)'',
      ''- limit 1..1000'',
      [],
      ''Question: '' @ go_quote L question,
      []] newline)"

text \<open>The logs are written as a JSON array, unless a time cannot be.\<close>

type_synonym logs_encoder = "SummarizeInputLog list \<Rightarrow> string option"

definition PromptSummarize :: "search_lib \<Rightarrow> logs_encoder \<Rightarrow> string \<Rightarrow> SummarizeInputLog list \<Rightarrow> string option" where
  "PromptSummarize L enc window inputs =
     map_option (\<lambda>b. TrimSpace (Join
       [[],
        ''Return ONLY valid JSON. No markdown. No extra keys.'',
        [],
        ''Schema:'',
        CHR 0x7B # json_string ''summary'' @ '':'' @ json_string ''string'' @ '','' @ json_string ''highlights'' @ '':['' @
          json_string ''string'' @ ''],'' @ json_string ''top_errors'' @ '':[{'' @ json_string ''message'' @ '':'' @
          json_string ''string'' @ '','' @ json_string ''count'' @ '':0}],'' @ json_string ''confidence'' @ '':0.0}'',
        [],
        ''Context: Summarize logs for window '' @ go_quote L window @ ''.'',
        ''Logs (JSON array):'',
        b,
        []] newline)) (enc inputs)"

definition PromptInvestigate :: "search_lib \<Rightarrow> logs_encoder \<Rightarrow> string \<Rightarrow> SummarizeInputLog list \<Rightarrow> string option" where
  "PromptInvestigate L enc question inputs =
     map_option (\<lambda>b. TrimSpace (Join
       [[],
        ''Return ONLY valid JSON. No markdown. No extra keys.'',
        [],
        ''Schema:'',
        CHR 0x7B # json_string ''hypothesis'' @ '':'' @ json_string ''string'' @ '','' @ json_string ''evidence'' @ '':['' @
          json_string ''string'' @ ''],'' @ json_string ''next_steps'' @ '':['' @ json_string ''string'' @ ''],'' @
          json_string ''related_log_ids'' @ '':['' @ json_string ''uuid'' @ ''],'' @ json_string ''confidence'' @ '':0.0}'',
        [],
        ''Question: '' @ go_quote L question,
        ''Logs (JSON array):'',
        b,
        []] newline)) (enc inputs)"

section \<open>Endpoints\<close>

record nlqRequest =
  nq_Question :: string
  nq_Page :: int
  nq_Limit :: int

record nlqAIResponse =
  na_ServiceIDs :: "string list"
  na_Severity :: "string list"
  na_From :: "string option"
  na_To :: "string option"
  na_Q :: string
  na_Limit :: int

record nlqResponse =
  nr_Provider :: Provider
  nr_Model :: string
  nr_Query :: nlqAIResponse
  nr_Result :: SearchResult

definition nlq_zero :: nlqAIResponse where
  "nlq_zero = \<lparr>na_ServiceIDs = [], na_Severity = [], na_From = None, na_To = None, na_Q = [], na_Limit = 0\<rparr>"

text \<open>A time that does not parse is ignored.\<close>

definition nlq_time :: "search_lib \<Rightarrow> string option \<Rightarrow> time option" where
  "nlq_time L v = (case v of None \<Rightarrow> None | Some s \<Rightarrow> if s = [] then None else parse_rfc3339 L s)"

definition nlq_filters :: "search_lib \<Rightarrow> string \<Rightarrow> nlqRequest \<Rightarrow> nlqAIResponse \<Rightarrow> SearchFilters" where
  "nlq_filters L orgID req aiOut =
     \<lparr>sf_OrgID = orgID, sf_ServiceIDs = na_ServiceIDs aiOut, sf_Severities = na_Severity aiOut,
      sf_From = nlq_time L (na_From aiOut), sf_To = nlq_time L (na_To aiOut), sf_Query = na_Q aiOut,
      sf_Page = (if 0 < nq_Page req then nq_Page req else 1),
      sf_Limit = (if 0 < nq_Limit req then nq_Limit req
                  else if 0 < na_Limit aiOut then na_Limit aiOut
                  else DefaultSearchLimit)\<rparr>"

record 'r AiHandler =
  ai_orchestrator :: "'r Orchestrator"
  ai_fallbackModel :: string

text \<open>\<open>run, err := RunJSON(...); if err != nil { return 503 }\<close>\<close>

definition with_ai ::
    "'r AiHandler \<Rightarrow> string \<Rightarrow> string \<Rightarrow> 'o decoder \<Rightarrow> 'o \<Rightarrow> (RunResult \<Rightarrow> 'o \<Rightarrow> ('r, 'a) handler) \<Rightarrow> ('r, 'a) handler" where
  "with_ai h useCase prompt D zero k w =
     (case RunJSON (ai_orchestrator h) \<lparr>gr_UseCase = useCase, gr_Model = ''gemini-2.5-flash'', gr_Prompt = prompt\<rparr>
             (ai_fallbackModel h) D zero w of
        ((Inl _, _), w') \<Rightarrow> (Failure 503 ''ai unavailable'', w')
      | ((Inr run, out), w') \<Rightarrow> k run out w')"

definition NLQ ::
    "env \<Rightarrow> search_lib \<Rightarrow> 'r AiHandler \<Rightarrow> nlqAIResponse decoder \<Rightarrow> nlqRequest option \<Rightarrow> ('r, nlqResponse) endpoint" where
  "NLQ e L h D body c =
     with_user c (\<lambda>_.
       if \<not> uuid_ok e (p_id c) then answer (Failure 400 ''invalid organization id'')
       else with_body body (\<lambda>req.
         if nq_Question req = [] then answer (Failure 400 ''question is required'')
         else with_ai h ''fr13_nlq'' (PromptNLQ L (nq_Question req)) D nlq_zero (\<lambda>run aiOut.
           respond 200 (\<lambda>_. internal_error)
             (\<lambda>result. \<lparr>nr_Provider = rr_Provider run, nr_Model = rr_Model run, nr_Query = aiOut, nr_Result = result\<rparr>)
             (SearchLogs e L (nlq_filters L (p_id c) req aiOut)))))"

record summarizeRequest =
  sq_Window :: string
  sq_Logs :: "SummarizeInputLog list"

text \<open>\<open>'f\<close> is the type of the numbers.\<close>

record 'f summarizeResponse =
  sp_Summary :: string
  sp_Highlights :: "string list"
  sp_TopErrors :: "(string \<times> int) list"
  sp_Confidence :: 'f

definition Summarize ::
    "search_lib \<Rightarrow> logs_encoder \<Rightarrow> 'r AiHandler \<Rightarrow> 'f summarizeResponse decoder \<Rightarrow> 'f \<Rightarrow> summarizeRequest option \<Rightarrow>
     ('r, 'f summarizeResponse) endpoint" where
  "Summarize L enc h D zero body c =
     with_body body (\<lambda>req.
       if sq_Logs req = [] then answer (Failure 400 ''logs are required'')
       else
         (case PromptSummarize L enc (sq_Window req) (sq_Logs req) of
            None \<Rightarrow> answer internal_error
          | Some prompt \<Rightarrow>
              with_ai h ''fr14_summarize'' prompt D
                \<lparr>sp_Summary = [], sp_Highlights = [], sp_TopErrors = [], sp_Confidence = zero\<rparr>
                (\<lambda>_ aiOut. answer (Success 200 aiOut))))"

record investigateRequest =
  iq_Question :: string
  iq_Logs :: "SummarizeInputLog list"

record 'f investigateResponse =
  ip_Hypothesis :: string
  ip_Evidence :: "string list"
  ip_NextSteps :: "string list"
  ip_RelatedLogIDs :: "string list"
  ip_Confidence :: 'f

definition Investigate ::
    "search_lib \<Rightarrow> logs_encoder \<Rightarrow> 'r AiHandler \<Rightarrow> 'f investigateResponse decoder \<Rightarrow> 'f \<Rightarrow> investigateRequest option \<Rightarrow>
     ('r, 'f investigateResponse) endpoint" where
  "Investigate L enc h D zero body c =
     with_body body (\<lambda>req.
       if iq_Question req = [] then answer (Failure 400 ''question is required'')
       else if iq_Logs req = [] then answer (Failure 400 ''logs are required'')
       else
         (case PromptInvestigate L enc (iq_Question req) (iq_Logs req) of
            None \<Rightarrow> answer internal_error
          | Some prompt \<Rightarrow>
              with_ai h ''fr15_investigate'' prompt D
                \<lparr>ip_Hypothesis = [], ip_Evidence = [], ip_NextSteps = [], ip_RelatedLogIDs = [], ip_Confidence = zero\<rparr>
                (\<lambda>_ aiOut. answer (Success 200 aiOut))))"

end
