(* ===== verification/Ai_Props.thy ===== *)
theory Ai_Props
  imports Ai Middleware Telemetry_Props
begin

text \<open>
  The orchestration of the model providers: the JSON in an answer is found in the text around it,
  the second provider is asked exactly when the first one fails, and what the endpoint that turns
  a question into a search does with what it gets.
\<close>

section \<open>Trimming around a text\<close>

text \<open>A character that no removed string contains stops the removal.\<close>

lemma strip_left_keep:
  assumes "\<forall>p \<in> set ps. c \<notin> set p"
  shows "\<exists>pre'. strip_left ps (pre @ c # r) = pre' @ c # r \<and> set pre' \<subseteq> set pre"
proof (induction pre rule: length_induct)
  case (1 pre)
  show ?case
  proof (cases "find (\<lambda>p. p \<noteq> [] \<and> prefix p (pre @ c # r)) ps")
    case None
    then show ?thesis by (subst strip_left.simps) auto
  next
    case (Some p)
    then have p: "p \<noteq> []" "prefix p (pre @ c # r)" "p \<in> set ps" by (auto dest!: find_Some_D)
    then obtain q where q: "pre = p @ q" using prefix_before[of p pre c r] assms by (auto simp: prefix_def)
    have "length q < length pre" using p q by simp
    then obtain pre' where "strip_left ps (q @ c # r) = pre' @ c # r" "set pre' \<subseteq> set q" using 1 by blast
    then show ?thesis using Some q by (subst strip_left.simps) auto
  qed
qed

text \<open>A text whose first and last characters are kept by everything that trims\<close>

definition solid :: "char \<Rightarrow> bool" where
  "solid c \<longleftrightarrow> (\<forall>p \<in> set space_runes. c \<notin> set p) \<and> c \<notin> set (fence @ ''json'')"

definition around :: "string \<Rightarrow> string \<Rightarrow> string \<Rightarrow> string \<Rightarrow> bool" where
  "around pre j post s \<longleftrightarrow> (\<exists>p q. s = p @ j @ q \<and> set p \<subseteq> set pre \<and> set q \<subseteq> set post)"

lemma aroundI: "s = p @ j @ q \<Longrightarrow> set p \<subseteq> set pre \<Longrightarrow> set q \<subseteq> set post \<Longrightarrow> around pre j post s"
  by (auto simp: around_def)

lemma aroundE:
  assumes "around pre j post s"
  obtains p q where "s = p @ j @ q" and "set p \<subseteq> set pre" and "set q \<subseteq> set post"
  using assms by (auto simp: around_def)

lemma ends:
  assumes "j \<noteq> []"
  obtains j1 j2 where "j = hd j # j1" and "j = j2 @ [last j]"
  using assms by (metis append_butlast_last_id list.collapse)

lemma TrimSpace_around:
  assumes "around pre j post s" and "j \<noteq> []" and "solid (hd j)" and "solid (last j)"
  shows "around pre j post (TrimSpace s)"
proof -
  from assms(1) obtain p q where s: "s = p @ j @ q" "set p \<subseteq> set pre" "set q \<subseteq> set post" by (rule aroundE)
  from assms(2) obtain j1 j2 where j1: "j = hd j # j1" and j2: "j = j2 @ [last j]" by (rule ends)
  have "\<forall>p \<in> set space_runes. hd j \<notin> set p" using assms(3) by (simp add: solid_def)
  from strip_left_keep[OF this, of p "j1 @ q"] obtain p' where
    l: "TrimLeftSpace (p @ (hd j # j1) @ q) = p' @ (hd j # j1) @ q" "set p' \<subseteq> set p"
    by (auto simp: TrimLeftSpace_def)
  then have l': "TrimLeftSpace s = p' @ j @ q" using s(1) by (simp flip: j1)
  have "\<forall>p \<in> set (map rev space_runes). last j \<notin> set p" using assms(4) by (simp add: solid_def)
  from strip_left_keep[OF this, of "rev q" "rev j2 @ rev p'"] obtain q' where
    q': "strip_left (map rev space_runes) (rev (p' @ (j2 @ [last j]) @ q)) = q' @ rev (j2 @ [last j]) @ rev p'"
    "set q' \<subseteq> set q"
    by auto
  then have "TrimSpace s = p' @ j @ rev q'"
    by (simp add: TrimSpace_def TrimRightSpace_def l' flip: j2)
  then show ?thesis using s(2,3) l(2) q'(2) by (intro aroundI[of _ p' j "rev q'"]) auto
qed

lemma TrimPrefix_around:
  assumes "around pre j post s" and "j \<noteq> []" and "hd j \<notin> set x"
  shows "around pre j post (TrimPrefix s x)"
proof -
  from assms(1) obtain p q where s: "s = p @ j @ q" "set p \<subseteq> set pre" "set q \<subseteq> set post" by (rule aroundE)
  show ?thesis
  proof (cases "prefix x s")
    case True
    then obtain y where "p = x @ y"
      using prefix_before[of x p "hd j" "tl j @ q"] s assms(2,3) by (cases j) (auto simp: prefix_def)
    then show ?thesis using s True by (intro aroundI[of _ y j q]) (auto simp: TrimPrefix_def)
  next
    case False
    then show ?thesis using assms(1) by (simp add: TrimPrefix_def)
  qed
qed

lemma TrimSuffix_around:
  assumes "around pre j post s" and "j \<noteq> []" and "last j \<notin> set x"
  shows "around pre j post (TrimSuffix s x)"
proof -
  from assms(1) obtain p q where s: "s = p @ j @ q" "set p \<subseteq> set pre" "set q \<subseteq> set post" by (rule aroundE)
  have split: "s = (p @ butlast j) @ last j # q" using s(1) assms(2) by simp
  show ?thesis
  proof (cases "suffix x s")
    case True
    then obtain y where y: "q = y @ x"
      using suffix_after[of x "p @ butlast j" "last j" q] assms(3) split by (auto simp: suffix_def)
    then show ?thesis using s True by (intro aroundI[of _ p j y]) (auto simp: TrimSuffix_def)
  next
    case False
    then show ?thesis using assms(1) by (simp add: TrimSuffix_def)
  qed
qed

section \<open>Finding the brackets\<close>

lemma IndexByte_around:
  assumes "c \<notin> set p"
  shows "IndexByte (p @ s) c = (if IndexByte s c < 0 then -1 else int (length p) + IndexByte s c)"
proof -
  have "-1 \<le> IndexByte s c" by (rule IndexByte_ge)
  then show ?thesis using assms by (induction p) (auto simp: Let_def)
qed

lemma LastIndexByte_ge: "-1 \<le> LastIndexByte s c"
  by (induction s) (auto simp: Let_def)

lemma LastIndexByte_around:
  assumes "c \<notin> set q"
  shows "LastIndexByte (s @ q) c = LastIndexByte s c"
proof -
  have "LastIndexByte q c = -1" using LastIndexByte_none[of q c] LastIndexByte_ge[of q c] assms by linarith
  then show ?thesis by (induction s) (auto simp: Let_def)
qed

lemma LastIndexByte_snoc: "LastIndexByte (s @ [c]) d = (if c = d then int (length s) else LastIndexByte s d)"
  by (induction s) (auto simp: Let_def)

lemma LastIndexByte_bound: "LastIndexByte s c < int (length s)"
  by (induction s) (auto simp: Let_def)

lemma bracket_solid: "c \<in> {CHR 0x7B, CHR 0x5B, CHR 0x7D, CHR 0x5D} \<Longrightarrow> solid c"
  by (auto simp: solid_def space_runes_def fence_def numeral_eq_Suc)

lemma extract_around:
  assumes "2 \<le> length j" and "hd j \<in> {CHR 0x7B, CHR 0x5B}" and "last j \<in> {CHR 0x7D, CHR 0x5D}"
    and "CHR 0x7B \<notin> set pre" and "CHR 0x5B \<notin> set pre" and "CHR 0x7D \<notin> set post" and "CHR 0x5D \<notin> set post"
    and "around pre j post s"
  shows "extractFirstJSON s = Some j"
proof -
  have ne: "j \<noteq> []" using assms(1) by auto
  have solid: "solid (hd j)" "solid (last j)" using assms(2,3) bracket_solid by blast+
  let ?s = "TrimSpace (TrimSuffix (TrimPrefix (TrimPrefix (TrimSpace s) (fence @ ''json'')) fence) fence)"
  have "around pre j post ?s"
    by (intro TrimSpace_around TrimSuffix_around TrimPrefix_around assms(8) ne solid)
       (use solid in \<open>auto simp: solid_def\<close>)
  then obtain p q where s: "?s = p @ j @ q" "set p \<subseteq> set pre" "set q \<subseteq> set post" by (rule aroundE)
  from ne obtain j1 j2 where j1: "j = hd j # j1" and j2: "j = j2 @ [last j]" by (rule ends)
  have p: "CHR 0x7B \<notin> set p" "CHR 0x5B \<notin> set p" and q: "CHR 0x7D \<notin> set q" "CHR 0x5D \<notin> set q"
    using s assms(4-7) by auto
  have hdj: "IndexByte (j @ q) (hd j) = 0" by (subst j1) simp
  have pos: "IndexByte (j @ q) c = -1 \<or> 0 \<le> IndexByte (j @ q) c" for c
    using IndexByte_minus1[of "j @ q" c] by linarith
  have start: "(if 0 \<le> IndexByte ?s (CHR 0x7B) \<and> 0 \<le> IndexByte ?s (CHR 0x5B)
      then (if IndexByte ?s (CHR 0x7B) < IndexByte ?s (CHR 0x5B) then IndexByte ?s (CHR 0x7B) else IndexByte ?s (CHR 0x5B))
      else if 0 \<le> IndexByte ?s (CHR 0x7B) then IndexByte ?s (CHR 0x7B) else IndexByte ?s (CHR 0x5B)) = int (length p)"
    unfolding s(1) IndexByte_around[OF p(1)] IndexByte_around[OF p(2)]
    using assms(2) hdj pos[of "CHR 0x7B"] pos[of "CHR 0x5B"] by auto
  have last_at: "LastIndexByte (p @ j) c = (if last j = c then int (length p + length j) - 1 else LastIndexByte (p @ j2) c)" for c
  proof -
    have "p @ j = (p @ j2) @ [last j]" using j2 by simp
    moreover have "int (length (p @ j2)) = int (length p + length j) - 1" using arg_cong[OF j2, of length] by simp
    ultimately show ?thesis using LastIndexByte_snoc[of "p @ j2" "last j" c] by metis
  qed
  have "LastIndexByte (p @ j2) c < int (length p + length j) - 1" for c
    using LastIndexByte_bound[of "p @ j2" c] arg_cong[OF j2, of length] by simp
  then have "LastIndexByte (p @ j2) (CHR 0x7D) < int (length p + length j) - 1"
    "LastIndexByte (p @ j2) (CHR 0x5D) < int (length p + length j) - 1" by blast+
  then have end': "(if LastIndexByte ?s (CHR 0x7D) < LastIndexByte ?s (CHR 0x5D) then LastIndexByte ?s (CHR 0x5D)
      else LastIndexByte ?s (CHR 0x7D)) = int (length p + length j) - 1"
    unfolding s(1) append_assoc[symmetric] LastIndexByte_around[OF q(1)] LastIndexByte_around[OF q(2)] last_at
    using assms(3) by auto
  have "trimmed j"
    using solid j1 j2 unfolding trimmed_iff solid_def prefix_def suffix_def
    by (metis append_Cons append_is_Nil_conv hd_append2 hd_in_set last_appendR last_in_set list.sel(1) space_rune_nonempty)
  then show ?thesis
    unfolding extractFirstJSON_def Let_def start end' using assms(1) by (simp add: s(1) nat_diff_distrib')
qed

section \<open>Sample providers\<close>

text \<open>A transport that always answers with the given status, and a decoder that accepts every text\<close>

definition sample_ai :: "nat \<Rightarrow> string \<Rightarrow> 'r ai_lib" where
  "sample_ai status t = \<lparr>url_ok = (\<lambda>u. True), http_do = (\<lambda>rq s. (Inr (status, t), s)),
     decode_gemini = (\<lambda>raw. Some [[raw]]), decode_openrouter = (\<lambda>raw. Some [raw])\<rparr>"

definition sample_gemini :: GeminiClient where
  "sample_gemini = \<lparr>gm_apiKey = ''k'', gm_baseURL = ''https://g''\<rparr>"

definition sample_openrouter :: OpenRouterClient where
  "sample_openrouter = \<lparr>or_apiKey = ''k'', or_baseURL = ''https://o''\<rparr>"

lemma empty_object: "extractFirstJSON ''{}'' = Some ''{}''"
  using extract_around[of "''{}''" "[]" "[]" "''{}''"] aroundI[of "''{}''" "[]" "''{}''" "[]"] by simp

section \<open>Properties\<close>

text \<open>
  C37: the JSON of an answer is found whatever stands around it: for a text that begins with an
  opening and ends with a closing bracket, any prose, white space or code fence before it without
  opening brackets, and any after it without closing ones, is removed, and nothing else.
\<close>

theorem extractFirstJSON_recovers:
  assumes "2 \<le> length j" and "hd j \<in> {CHR 0x7B, CHR 0x5B}" and "last j \<in> {CHR 0x7D, CHR 0x5D}"
    and "set pre \<inter> {CHR 0x7B, CHR 0x5B} = {}" and "set post \<inter> {CHR 0x7D, CHR 0x5D} = {}"
  shows "extractFirstJSON (pre @ j @ post) = Some j"
  using assms by (intro extract_around[OF assms(1-3), of pre post]) (auto intro: aroundI)

theorem extractFirstJSON_recovers_witness:
  "extractFirstJSON ((fence @ ''json'' @ [newline]) @ ''{1:[]}'' @ ([newline] @ fence @ ''Done.'')) = Some ''{1:[]}''"
  by (rule extractFirstJSON_recovers) (auto simp: fence_def newline_def)





lemma client_simps:
  "cl_Generate (gemini_client L g) = gemini_Generate L g" "cl_Generate (openrouter_client L o') = openrouter_Generate L o'"
  by (simp_all add: gemini_client_def openrouter_client_def)



definition sample_generate :: GenerateRequest where
  "sample_generate = \<lparr>gr_UseCase = ''t'', gr_Model = ''m'', gr_Prompt = ''p''\<rparr>"


text \<open>A search for more rows than the search endpoint allows\<close>

definition many_logs_world :: "unit world" where
  "many_logs_world = sample_log_world\<lparr>db := (db sample_log_world)
     \<lparr>logs := map (\<lambda>n. sample_log (replicate n (CHR ''x'')) 0) [0..<1500]\<rparr>\<rparr>"

definition sample_ai_handler :: "unit AiHandler" where
  "sample_ai_handler = \<lparr>ai_orchestrator =
      \<lparr>primary = gemini_client (sample_ai 200 ''{}'') sample_gemini,
       fallback = openrouter_client (sample_ai 200 ''{}'') sample_openrouter\<rparr>, ai_fallbackModel = ''f''\<rparr>"

definition member_ctx :: ctx where
  "member_ctx = \<lparr>auth_header = [], ctx_user = Some ''alice'', ctx_role = None, ctx_org_role = None,
     p_id = ''org'', p_serviceId = [], p_keyId = [], p_logId = [], real_ip = []\<rparr>"

lemma sample_run:
  "\<exists>w'. RunJSON (ai_orchestrator sample_ai_handler) req ''f'' (\<lambda>j out. (out, True)) out w =
     ((Inr \<lparr>rr_Provider = ProviderGemini, rr_Model = gr_Model req\<rparr>, out), w') \<and> db w' = db w"
  by (simp add: RunJSON_def tryProvider_def client_simps gemini_Generate_def round_trip_def call_def ret_def checked_def
      gemini_text_def sample_ai_def empty_object sample_ai_handler_def)

lemma many_found:
  "search_ids_ok sample_env (nlq_filters sample_lib ''org'' q nlq_zero)"
  "db v = db many_logs_world \<Longrightarrow> length (found sample_env sample_lib (nlq_filters sample_lib ''org'' q nlq_zero) (db v)) = 1500"
  by (simp_all add: search_ids_ok_def found_def nlq_filters_def nlq_zero_def sample_env_simps log_matches_def nlq_time_def
      many_logs_world_def sample_log_world_def sample_log_def comp_def)

text \<open>
  The endpoint that turns a question into a search does not keep the bound of the search
  endpoint: a limit of 5000 is refused with 400 when it is a query parameter of a search, and
  answered with 1500 entries when it is the limit of a question.
\<close>

theorem NLQ_ignores_limit:
  "\<exists>r w'. NLQ sample_env sample_lib sample_ai_handler (\<lambda>j out. (out, True))
      (Some \<lparr>nq_Question = ''all'', nq_Page = 0, nq_Limit = 5000\<rparr>) member_ctx many_logs_world = (Success 200 r, w') \<and>
    length (sres_Logs (nr_Result r)) = 1500 \<and>
    SearchLogs_handler sample_env sample_lib (no_params\<lparr>qp_limit := ''5000''\<rparr>) member_ctx many_logs_world =
      (Failure 400 ''invalid search parameter: limit cannot exceed 1000'', many_logs_world)"
proof -
  let ?q = "\<lparr>nq_Question = ''all'', nq_Page = 0, nq_Limit = 5000\<rparr>"
  let ?f = "nlq_filters sample_lib ''org'' ?q nlq_zero"
  obtain w1 where run: "RunJSON (ai_orchestrator sample_ai_handler)
      \<lparr>gr_UseCase = ''fr13_nlq'', gr_Model = ''gemini-2.5-flash'', gr_Prompt = PromptNLQ sample_lib ''all''\<rparr> ''f''
      (\<lambda>j out. (out, True)) nlq_zero many_logs_world =
      ((Inr \<lparr>rr_Provider = ProviderGemini, rr_Model = ''gemini-2.5-flash''\<rparr>, nlq_zero), w1)"
    and db1: "db w1 = db many_logs_world"
  proof -
    let ?r = "\<lparr>gr_UseCase = ''fr13_nlq'', gr_Model = ''gemini-2.5-flash'', gr_Prompt = PromptNLQ sample_lib ''all''\<rparr>"
    from sample_run[of ?r nlq_zero many_logs_world, unfolded GenerateRequest.select_convs] show thesis
      using that by blast
  qed
  have off: "offset_of ?f = 0" and lim: "sf_Limit ?f = 5000"
    by (simp_all add: offset_of_def nlq_filters_def wrap64_def)
  obtain res w2 where s: "SearchLogs sample_env sample_lib ?f w1 = (Inr res, w2)"
    and res: "sres_Logs res = map scan_log (page_rows sample_env sample_lib ?f (db w1))"
    unfolding SearchLogs_Inr off lim using many_found(1) by (simp add: sample_env_simps)
  have len: "length (sres_Logs res) = 1500"
    using many_found(2)[OF db1] by (simp add: res page_rows_def off lim)
  have t: "TrimSpace ''5000'' = ''5000''" by code_simp
  have "ParseSearchFilters sample_env sample_lib (no_params\<lparr>qp_limit := ''5000''\<rparr>) ''org'' = Inl LimitTooLarge"
    by (simp add: ParseSearchFilters_def optional_def check_range_def no_params_def sample_env_simps Let_def t
        parse_limit_def Atoi_def digit_val_def MaxSearchLimit_def)
  then have refused: "SearchLogs_handler sample_env sample_lib (no_params\<lparr>qp_limit := ''5000''\<rparr>) member_ctx many_logs_world =
      (Failure 400 ''invalid search parameter: limit cannot exceed 1000'', many_logs_world)"
    by (simp add: SearchLogs_handler_def with_user_def member_ctx_def answer_def)
  have fb: "ai_fallbackModel sample_ai_handler = ''f''" by (simp add: sample_ai_handler_def)
  have "NLQ sample_env sample_lib sample_ai_handler (\<lambda>j out. (out, True)) (Some ?q) member_ctx many_logs_world =
      (Success 200 \<lparr>nr_Provider = ProviderGemini, nr_Model = ''gemini-2.5-flash'', nr_Query = nlq_zero, nr_Result = res\<rparr>, w2)"
    by (simp add: NLQ_def with_user_def member_ctx_def sample_env_simps with_body_def with_ai_def fb run respond_def s)
  then show ?thesis using len refused by auto
qed

text \<open>
  What the first provider wrote into the result before its answer was found unusable stays there:
  the severity of a refused answer filters the search the second provider asked for.
\<close>

definition two_texts :: "'r ai_lib" where
  "two_texts = \<lparr>url_ok = (\<lambda>u. True), http_do = (\<lambda>rq s. (Inr (200, if prefix ''https://g'' (hr_url rq) then ''[{]'' else ''{}''), s)),
     decode_gemini = (\<lambda>raw. Some [[raw]]), decode_openrouter = (\<lambda>raw. Some [raw])\<rparr>"

definition half_decoder :: "nlqAIResponse decoder" where
  "half_decoder j out = (if j = ''{}'' then (out, True) else (out\<lparr>na_Severity := [''ERROR'']\<rparr>, False))"

theorem RunJSON_mixes_answers:
  "\<exists>w'. RunJSON \<lparr>primary = gemini_client two_texts sample_gemini, fallback = openrouter_client two_texts sample_openrouter\<rparr>
      sample_generate ''f'' half_decoder nlq_zero (sample_world ()) =
     ((Inr \<lparr>rr_Provider = ProviderOpenRouter, rr_Model = ''f''\<rparr>, nlq_zero\<lparr>na_Severity := [''ERROR'']\<rparr>), w') \<and>
    half_decoder ''{}'' nlq_zero = (nlq_zero, True)"
proof -
  have x: "extractFirstJSON ''[{]'' = Some ''[{]''"
    using extract_around[of "''[{]''" "[]" "[]" "''[{]''"] aroundI[of "''[{]''" "[]" "''[{]''" "[]"] by simp
  show ?thesis
    by (simp add: RunJSON_def tryProvider_def client_simps gemini_Generate_def openrouter_Generate_def round_trip_def call_def
        ret_def checked_def gemini_text_def openrouter_text_def two_texts_def x empty_object sample_generate_def
        sample_world_def sample_gemini_def sample_openrouter_def half_decoder_def recoverable_def fail_def Let_def)
qed

end
