(* ===== verification/Ingest.thy ===== *)
theory Ingest
  imports Key_Cache Telemetry Middleware
begin

text \<open>
  internal/ingest/handler.go and cmd/ingestor: the endpoint that accepts a log entry from a
  service. The bearer token is the service's API key; the entry is put on the broker, and the
  consumer stores it later. \<open>ingestor_routes\<close> is the server of cmd/ingestor: the requests it
  answers, behind the limit by address.
\<close>

record 'r IngestHandler =
  ih_keyCache :: "'r APIKeyCache"
  ih_producer :: "'r kafka"
  ih_limiter :: "'r Limiter"
  ih_limits :: Config

definition bearerToken :: "string \<Rightarrow> string + string" where
  "bearerToken header =
     (if header = [] then Inl ''missing authorization header''
      else
        case CutPrefix header ''Bearer '' of (token, ok) \<Rightarrow>
          if \<not> ok \<or> token = [] then Inl ''invalid authorization header''
          else Inr token)"

text \<open>Every error of the cache is answered 401.\<close>

fun mapResolveError :: "err \<Rightarrow> 'a reply" where
  "mapResolveError (AuthE InvalidAPIKeyFormat) = Failure 401 ''invalid api key''"
| "mapResolveError (AuthE InvalidAPIKey) = Failure 401 ''invalid api key''"
| "mapResolveError (AuthE APIKeyRevoked) = Failure 401 ''api key revoked''"
| "mapResolveError _ = Failure 401 ''invalid api key''"

text \<open>Only the rate limit stops the request, another error of the limiter does not.\<close>

definition limit_ingest :: "('r, unit) app \<Rightarrow> ('r, 'a) handler \<Rightarrow> ('r, 'a) handler" where
  "limit_ingest m k w =
     (case m w of
        (Inl RateLimited, w') \<Rightarrow> (Failure 429 ''log ingest rate limit exceeded'', w')
      | (_, w') \<Rightarrow> k w')"

text \<open>The checks on the request: the severity it is stored with, or the answer 400\<close>

definition check_request :: "env \<Rightarrow> IngestRequest \<Rightarrow> string + string" where
  "check_request e req =
     (let severity = ToUpper (uni_upper e) (TrimSpace (ir_Severity req));
          message = ir_Message req in
      if \<not> IsValidSeverity severity then Inl ''invalid severity''
      else if message = [] then Inl ''message is required''
      else if MaxMessageBytes < length message then Inl ''message exceeds 64KB limit''
      else Inr severity)"

definition build_entry ::
    "env \<Rightarrow> ResolvedAPIKey \<Rightarrow> string \<Rightarrow> IngestRequest \<Rightarrow> ('r, LogEntry) app" where
  "build_entry e resolved severity req =
     call (Now e) (\<lambda>t0.
       let timestamp = (case ir_Timestamp req of None \<Rightarrow> t0 | Some t \<Rightarrow> t);
           metadata = (case ir_Metadata req of None \<Rightarrow> [] | Some m \<Rightarrow> m) in
     call (Now e) (\<lambda>now.
     call (NewString e) (\<lambda>id'.
       ret \<lparr>le_ID = id', le_OrgID = ra_OrgID resolved, le_ServiceID = ra_ServiceID resolved,
            le_Timestamp = timestamp, le_Severity = severity, le_Message = ir_Message req,
            le_Metadata = Some metadata, le_IngestedAt = now\<rparr>)))"

definition publish_request ::
    "env \<Rightarrow> entry_codec \<Rightarrow> 'r IngestHandler \<Rightarrow> ResolvedAPIKey \<Rightarrow> string \<Rightarrow> IngestRequest \<Rightarrow> ('r, LogEntry) app" where
  "publish_request e E h resolved severity req =
     call (build_entry e resolved severity req) (\<lambda>entry.
     call (Publish e (ih_producer h) E entry) (\<lambda>_.
       ret entry))"

text \<open>
  What happens to the body of a request whose key is resolved and whose organization is within
  its limits. The answer carries the identifier of the entry.
\<close>

definition ingest_body ::
    "env \<Rightarrow> entry_codec \<Rightarrow> 'r IngestHandler \<Rightarrow> IngestRequest option \<Rightarrow> ResolvedAPIKey \<Rightarrow> ('r, string) handler" where
  "ingest_body e E h body resolved =
     with_body body (\<lambda>req.
       case check_request e req of
         Inl m \<Rightarrow> answer (Failure 400 m)
       | Inr severity \<Rightarrow>
           respond 200 (\<lambda>_. Failure 503 ''failed to queue log'') le_ID
             (publish_request e E h resolved severity req))"

definition IngestLog ::
    "env \<Rightarrow> key_codecs \<Rightarrow> entry_codec \<Rightarrow> 'r IngestHandler \<Rightarrow> IngestRequest option \<Rightarrow> ('r, string) endpoint" where
  "IngestLog e J E h body c =
     (case bearerToken (auth_header c) of
        Inl m \<Rightarrow> answer (Failure 401 m)
      | Inr rawKey \<Rightarrow>
          guard mapResolveError (Resolve e J (ih_keyCache h) rawKey) (\<lambda>resolved.
          limit_ingest (AllowIngest e (ih_limiter h) (ra_OrgID resolved) (ih_limits h))
            (ingest_body e E h body resolved)))"

definition ingest_Health :: "('r, string) endpoint" where
  "ingest_Health c = answer (Success 200 ''ok'')"

datatype ingest_route = GetHealth | PostLogs "IngestRequest option"

definition ingestor_routes ::
    "env \<Rightarrow> key_codecs \<Rightarrow> entry_codec \<Rightarrow> 'r IngestHandler \<Rightarrow> ingest_route \<Rightarrow> ('r, string) endpoint" where
  "ingestor_routes e J E h route =
     RateLimitByIP e (ih_limiter h) ''ingest'' (IngestRequestsPerIPMinute (ih_limits h))
       (case route of GetHealth \<Rightarrow> ingest_Health | PostLogs body \<Rightarrow> IngestLog e J E h body)"

definition ingestor_handler ::
    "env \<Rightarrow> (string \<Rightarrow> string) \<Rightarrow> 'r RedisStore option \<Rightarrow> 'r kafka \<Rightarrow> 'r IngestHandler" where
  "ingestor_handler e getenv redisStore producer =
     \<lparr>ih_keyCache = NewAPIKeyCache getenv redisStore (KeyLookup e),
      ih_producer = producer,
      ih_limiter = NewLimiter redisStore (LoadConfig getenv),
      ih_limits = LoadConfig getenv\<rparr>"

definition ingestor_port :: "(string \<Rightarrow> string) \<Rightarrow> string" where
  "ingestor_port getenv = (let port = getenv ''INGESTOR_PORT'' in if port = [] then ''8081'' else port)"

text \<open>
  \<open>main\<close>: it ends without PostgreSQL, and goes on without Redis. The pool, the client of Redis, the
  outcome of its ping and the writer come from the libraries.
\<close>

definition ingestor_main ::
    "env \<Rightarrow> (string \<Rightarrow> string) \<Rightarrow> (string \<Rightarrow> string + 'p) \<Rightarrow> ('p \<Rightarrow> bool) \<Rightarrow> 'r redis_client \<Rightarrow> bool \<Rightarrow>
     (WriterConfig \<Rightarrow> 'r kafka) \<Rightarrow> string + 'r IngestHandler \<times> string" where
  "ingestor_main e getenv newPool ping cl ping_ok newWriter =
     (case postgres_Connect getenv newPool ping of
        Inl x \<Rightarrow> Inl x
      | Inr pool \<Rightarrow>
          let redisStore = ConnectRedis (getenv ''REDIS_ADDR'') cl ping_ok
          in Inr (ingestor_handler e getenv (Some redisStore) (NewProducer getenv newWriter), ingestor_port getenv))"

end
