(* ===== verification/Sdk.thy ===== *)
theory Sdk
  imports Ingest Ai
begin

text \<open>
  sdk/go/loglens: the client a service logs with. The transport and the JSON of the payload are
  parameters; the request is the one the ingestor reads.
\<close>

record sdk_client =
  sc_ingestURL :: string
  sc_apiKey :: string

record ingestPayload =
  py_Timestamp :: "time option"
  py_Severity :: string
  py_Message :: string
  py_Metadata :: "json_object option"

definition NewClient :: "(string \<Rightarrow> string) \<Rightarrow> string \<Rightarrow> sdk_client" where
  "NewClient getenv apiKey =
     (let ingestURL = getenv ''LOGLENS_INGESTOR_URL'';
          ingestURL = (if ingestURL = [] then getenv ''INGESTOR_URL'' else ingestURL);
          ingestURL = (if ingestURL = [] then ''http://localhost:8081'' else ingestURL) in
      \<lparr>sc_ingestURL = ingestURL, sc_apiKey = apiKey\<rparr>)"

text \<open>\<open>json.Marshal\<close> fails on metadata that has no JSON.\<close>

record 'r sdk_lib =
  sdk_url_ok :: "string \<Rightarrow> bool"
  sdk_encode :: "ingestPayload \<Rightarrow> string option"
  sdk_do :: "http_request \<Rightarrow> 'r \<Rightarrow> (string + nat) \<times> 'r"

definition log_request :: "sdk_client \<Rightarrow> string \<Rightarrow> http_request" where
  "log_request c body =
     \<lparr>hr_url = sc_ingestURL c @ ''/v1/logs'',
      hr_headers = [(''Content-Type'', ''application/json''), (''Authorization'', ''Bearer '' @ sc_apiKey c)],
      hr_body = body\<rparr>"

definition Log ::
    "'r sdk_lib \<Rightarrow> sdk_client \<Rightarrow> string \<Rightarrow> string \<Rightarrow> json_object option \<Rightarrow> ('r, unit) app" where
  "Log L c severity message metadata w =
     (case sdk_encode L \<lparr>py_Timestamp = None, py_Severity = severity, py_Message = message, py_Metadata = metadata\<rparr> of
        None \<Rightarrow> (Inl (OtherE ''json''), w)
      | Some body \<Rightarrow>
          if \<not> sdk_url_ok L (hr_url (log_request c body)) then (Inl (OtherE ''url''), w)
          else
            (case sdk_do L (log_request c body) (redis w) of
               (Inl x, s) \<Rightarrow> (Inl (OtherE x), w\<lparr>redis := s, tick := Suc (tick w)\<rparr>)
             | (Inr status, s) \<Rightarrow>
                 ((if status \<noteq> 200 then Inl (OtherE (''ingest failed with status '' @ Itoa (int status))) else Inr ()),
                  w\<lparr>redis := s, tick := Suc (tick w)\<rparr>)))"

definition Debug :: "'r sdk_lib \<Rightarrow> sdk_client \<Rightarrow> string \<Rightarrow> json_object option \<Rightarrow> ('r, unit) app" where
  "Debug L c message metadata = Log L c ''DEBUG'' message metadata"

definition Info :: "'r sdk_lib \<Rightarrow> sdk_client \<Rightarrow> string \<Rightarrow> json_object option \<Rightarrow> ('r, unit) app" where
  "Info L c message metadata = Log L c ''INFO'' message metadata"

definition Warn :: "'r sdk_lib \<Rightarrow> sdk_client \<Rightarrow> string \<Rightarrow> json_object option \<Rightarrow> ('r, unit) app" where
  "Warn L c message metadata = Log L c ''WARN'' message metadata"

definition Error :: "'r sdk_lib \<Rightarrow> sdk_client \<Rightarrow> string \<Rightarrow> json_object option \<Rightarrow> ('r, unit) app" where
  "Error L c message metadata = Log L c ''ERROR'' message metadata"

definition Fatal :: "'r sdk_lib \<Rightarrow> sdk_client \<Rightarrow> string \<Rightarrow> json_object option \<Rightarrow> ('r, unit) app" where
  "Fatal L c message metadata = Log L c ''FATAL'' message metadata"

text \<open>examples/send_log: the process ends with an error, or logs that it sent one\<close>

definition send_log :: "(string \<Rightarrow> string) \<Rightarrow> 'r sdk_lib \<Rightarrow> ('r, unit) app" where
  "send_log getenv L =
     (let apiKey = getenv ''LOGLENS_API_KEY'' in
      if apiKey = [] then fail (OtherE ''LOGLENS_API_KEY is required'')
      else Error L (NewClient getenv apiKey) ''payment failed''
        (Some [(''amount'', ''499''), (''order_id'', json_string ''123'')]))"

end
