(* ===== verification/Consumer.thy ===== *)
theory Consumer
  imports Telemetry
begin

text \<open>
  cmd/consumer: the loop that moves entries from the broker to PostgreSQL and the live channel,
  and the worker that deletes old entries.
\<close>

section \<open>The loop\<close>

text \<open>\<open>time.Sleep\<close>: time passes, which only the clock of the environment tells.\<close>

definition Sleep :: "duration \<Rightarrow> ('r, unit) app" where
  "Sleep d w = (Inr (), w\<lparr>tick := Suc (tick w)\<rparr>)"

definition backoffDelay :: duration where
  "backoffDelay = 2 * Second"

text \<open>
  One iteration: whether the loop goes on. \<open>cancelled\<close> tells whether the context was cancelled
  when it is looked at.
\<close>

definition consume_entry ::
    "env \<Rightarrow> 'r kafka \<Rightarrow> entry_codec \<Rightarrow> 'r RedisStore option \<Rightarrow> LogEntry \<Rightarrow> nat \<Rightarrow> ('r, bool) app" where
  "consume_entry e K E rs entry msg =
     (if le_ID entry = [] then attempt (Commit K msg) (\<lambda>_. ret True)
      else
        attempt (InsertLogs e [entry]) (\<lambda>r.
          case r of
            Inl _ \<Rightarrow> call (Sleep backoffDelay) (\<lambda>_. ret True)
          | Inr _ \<Rightarrow>
              attempt (Commit K msg) (\<lambda>_.
              attempt (PublishLog e rs E entry) (\<lambda>_.
                ret True))))"

definition consume_once ::
    "env \<Rightarrow> 'r kafka \<Rightarrow> entry_codec \<Rightarrow> 'r RedisStore option \<Rightarrow> (nat \<Rightarrow> bool) \<Rightarrow> ('r, bool) app" where
  "consume_once e K E rs cancelled =
     attempt (Fetch K E) (\<lambda>r w.
       case r of
         Inl _ \<Rightarrow>
           (if cancelled (tick w) then ret False
            else call (Sleep Second) (\<lambda>_. ret True)) w
       | Inr (entry, msg) \<Rightarrow> consume_entry e K E rs entry msg w)"

text \<open>
  The loop, at most \<open>n\<close> iterations of it: \<open>True\<close> when it returned, \<open>False\<close> when it is still
  running after them.
\<close>

fun consumer_loop ::
    "nat \<Rightarrow> env \<Rightarrow> 'r kafka \<Rightarrow> entry_codec \<Rightarrow> 'r RedisStore option \<Rightarrow> (nat \<Rightarrow> bool) \<Rightarrow> ('r, bool) app" where
  "consumer_loop 0 e K E rs cancelled w = (Inr False, w)"
| "consumer_loop (Suc n) e K E rs cancelled w =
     (if cancelled (tick w) then (Inr True, w)
      else
        call (consume_once e K E rs cancelled) (\<lambda>go.
          if go then consumer_loop n e K E rs cancelled else ret True) w)"

section \<open>Retention\<close>

definition retentionHours :: "(string \<Rightarrow> string) \<Rightarrow> int" where
  "retentionHours getenv =
     (let raw = getenv ''LOG_RETENTION_HOURS'' in
      if raw \<noteq> [] then
        (case Atoi raw of None \<Rightarrow> 2 | Some hours \<Rightarrow> if 0 < hours then hours else 2)
      else 2)"

definition retentionInterval :: "(string \<Rightarrow> string) \<Rightarrow> duration" where
  "retentionInterval getenv =
     (let raw = getenv ''LOG_RETENTION_INTERVAL_MINUTES'' in
      if raw \<noteq> [] then
        (case Atoi raw of
           None \<Rightarrow> 15 * Minute
         | Some minutes \<Rightarrow> if 0 < minutes then wrap64 (minutes * Minute) else 15 * Minute)
      else 15 * Minute)"

text \<open>The cutoff \<open>time.Now().UTC().Add(-time.Duration(hours) * time.Hour)\<close>\<close>

definition runOnce :: "env \<Rightarrow> int \<Rightarrow> ('r, unit) app" where
  "runOnce e hours =
     call (Now e) (\<lambda>now.
       let cutoff = now + wrap64 (wrap64 (- hours) * Hour) in
     attempt (DeleteOlderThan e cutoff) (\<lambda>_. ret ()))"

text \<open>
  The worker: \<open>time.NewTicker\<close> panics on an interval that is not positive, which ends the
  process. It runs once, and then once per tick until the context is cancelled, \<open>n\<close> ticks here.
\<close>

fun retention_ticks :: "nat \<Rightarrow> env \<Rightarrow> duration \<Rightarrow> (nat \<Rightarrow> bool) \<Rightarrow> int \<Rightarrow> ('r, bool) app" where
  "retention_ticks 0 e interval cancelled hours w = (Inr False, w)"
| "retention_ticks (Suc n) e interval cancelled hours w =
     (if cancelled (tick w) then (Inr True, w)
      else
        call (Sleep interval) (\<lambda>_.
        call (runOnce e hours) (\<lambda>_.
          retention_ticks n e interval cancelled hours)) w)"

definition runRetention ::
    "nat \<Rightarrow> env \<Rightarrow> (string \<Rightarrow> string) \<Rightarrow> (nat \<Rightarrow> bool) \<Rightarrow> ('r, bool) app" where
  "runRetention n e getenv cancelled =
     (let interval = retentionInterval getenv; hours = retentionHours getenv in
      if interval \<le> 0 then fail (OtherE ''non-positive interval for NewTicker'')
      else call (runOnce e hours) (\<lambda>_. retention_ticks n e interval cancelled hours))"

section \<open>The program\<close>

text \<open>
  \<open>main\<close> until it enters the loop: it ends without PostgreSQL, and goes on without Redis. The
  retention worker starts beside it.
\<close>

definition consumer_main ::
    "nat \<Rightarrow> env \<Rightarrow> (string \<Rightarrow> string) \<Rightarrow> (string \<Rightarrow> string + 'p) \<Rightarrow> ('p \<Rightarrow> bool) \<Rightarrow> 'r redis_client \<Rightarrow> bool \<Rightarrow>
     (ReaderConfig \<Rightarrow> 'r kafka) \<Rightarrow> entry_codec \<Rightarrow> (nat \<Rightarrow> bool) \<Rightarrow> ('r, bool) app" where
  "consumer_main n e getenv newPool ping cl ping_ok newReader E cancelled =
     (case postgres_Connect getenv newPool ping of
        Inl x \<Rightarrow> fail (OtherE x)
      | Inr pool \<Rightarrow>
          let redisStore = ConnectRedis (getenv ''REDIS_ADDR'') cl ping_ok
          in consumer_loop n e (NewConsumer getenv newReader) E (Some redisStore) cancelled)"

end
