(* ===== verification/Broker.thy ===== *)
theory Broker
  imports Ingest Consumer
begin

text \<open>
  The contract of the Kafka broker the ingestor and the consumer share, as the client library
  documents it, for one partition: writes append, a reader gets the messages in order, and
  committing an offset marks everything up to it as done. An operation that fails may have had
  its effect, except a fetch. \<open>healthy_broker\<close> adds that no operation fails while there is
  something to fetch, \<open>broker_and_redis\<close> that Redis is another server. All are interpreted on an
  outside world that holds a key space and a partition.
\<close>

section \<open>The partition\<close>

text \<open>
  The messages, the next one the reader gets, and the offset up to which it was told to commit. The
  reader of \<open>NewConsumer\<close> has a commit interval: it acknowledges a commit when it has queued it and
  tells the broker later.
\<close>

record partition =
  p_msgs :: "kafka_message list"
  p_next :: nat
  p_done :: nat

definition appended :: "kafka_message \<Rightarrow> partition \<Rightarrow> partition" where
  "appended m P = P\<lparr>p_msgs := p_msgs P @ [m]\<rparr>"

definition fetched :: "partition \<Rightarrow> partition" where
  "fetched P = P\<lparr>p_next := Suc (p_next P)\<rparr>"

definition committed :: "nat \<Rightarrow> partition \<Rightarrow> partition" where
  "committed off P = P\<lparr>p_done := max (p_done P) (Suc off)\<rparr>"

lemmas partition_ops = appended_def fetched_def committed_def

text \<open>
  A reader that starts again gets the messages from the offset the broker has by then: that of the
  last commit, or of an earlier one when the commits after it were still queued.
\<close>

definition restarted :: "nat \<Rightarrow> partition \<Rightarrow> partition" where
  "restarted n P = P\<lparr>p_next := min n (p_done P), p_done := min n (p_done P)\<rparr>"

section \<open>The contract\<close>

locale kafka_broker =
  fixes K :: "'r kafka" and part :: "'r \<Rightarrow> partition"
  assumes write_ok: "k_write K m s = (Inr u, s') \<Longrightarrow> part s' = appended m (part s)"
    and write_fail: "k_write K m s = (Inl x, s') \<Longrightarrow> part s' = part s \<or> part s' = appended m (part s)"
    and fetch_ok: "k_fetch K s = (Inr (off, m), s') \<Longrightarrow>
      off = p_next (part s) \<and> off < length (p_msgs (part s)) \<and> m = p_msgs (part s) ! off \<and> part s' = fetched (part s)"
    and fetch_fail: "k_fetch K s = (Inl x, s') \<Longrightarrow> part s' = part s"
    and commit_ok: "k_commit K off s = (Inr u, s') \<Longrightarrow> part s' = committed off (part s)"
    and commit_fail: "k_commit K off s = (Inl x, s') \<Longrightarrow> part s' = part s \<or> part s' = committed off (part s)"

locale healthy_broker = kafka_broker +
  assumes write_up: "k_write K m s \<noteq> (Inl x, s')"
    and fetch_up: "p_next (part s) < length (p_msgs (part s)) \<Longrightarrow> k_fetch K s \<noteq> (Inl x, s')"
    and commit_up: "k_commit K off s \<noteq> (Inl x, s')"

locale broker_and_redis = kafka_broker K part for K :: "'r kafka" and part +
  fixes C :: "'r redis_client"
  assumes get_part: "r_get C t k s = (r, s') \<Longrightarrow> part s' = part s"
    and exists_part: "r_exists C t k s = (r1, s') \<Longrightarrow> part s' = part s"
    and exec_part: "r_exec C t cs s = (r2, s') \<Longrightarrow> part s' = part s"
    and publish_part: "r_publish C t ch p s = (r3, s') \<Longrightarrow> part s' = part s"

text \<open>A handle of Redis that uses the client of that server, if any.\<close>

definition uses_client :: "'r redis_client \<Rightarrow> 'r RedisStore option \<Rightarrow> bool" where
  "uses_client C rs \<longleftrightarrow> (\<forall>r. rs = Some r \<longrightarrow> rs_client r = None \<or> rs_client r = Some C)"

lemma uses_client_store [simp]: "uses_client C (store_of C b)"
  by (simp add: uses_client_def store_of_def)

lemma uses_client_connect [simp]: "uses_client C (Some (ConnectRedis addr C ping_ok))"
  by (simp add: uses_client_def ConnectRedis_def)

section \<open>The operations of the telemetry component\<close>

text \<open>What \<open>Fetch\<close> makes of a message\<close>

definition decoded :: "entry_codec \<Rightarrow> kafka_message \<Rightarrow> LogEntry option" where
  "decoded E m = map_option (\<lambda>x. if le_Metadata x = None then x\<lparr>le_Metadata := Some []\<rparr> else x)
     (ec_Unmarshal E (km_value m))"

context kafka_broker
begin

lemma Publish_Inr:
  assumes "Publish e K E x w = (Inr u, w')"
  obtains s where "ec_Marshal E x = Some s" and "db w' = db w" and "tick w' = Suc (Suc (tick w))"
    and "part (redis w') = appended \<lparr>km_key = le_ServiceID x, km_value = s, km_time = clk e (tick w)\<rparr> (part (redis w))"
  using assms write_ok
  by (fastforce simp: Publish_def call_def Now_def with_kafka_def fail_def split: option.splits prod.splits sum.splits)

lemma Publish_db: "Publish e K E x w = (r, w') \<Longrightarrow> db w' = db w \<and> tick w \<le> tick w'"
  by (auto simp: Publish_def call_def Now_def with_kafka_def fail_def split: option.splits prod.splits sum.splits)

lemma Publish_part: "Publish e K E x w = (r, w') \<Longrightarrow>
    part (redis w') = part (redis w) \<or> (\<exists>m. part (redis w') = appended m (part (redis w)))"
  using write_ok write_fail
  by (fastforce simp: Publish_def call_def Now_def with_kafka_def fail_def split: option.splits prod.splits sum.splits)

lemma Fetch_cases:
  assumes "Fetch K E w = (r, w')"
  obtains (failed) x where "r = Inl x" and "db w' = db w" and "part (redis w') = part (redis w)"
    and "\<exists>x s'. k_fetch K (redis w) = (Inl x, s')"
  | (malformed) x where "r = Inl x" and "db w' = db w" and "part (redis w') = fetched (part (redis w))"
    and "p_next (part (redis w)) < length (p_msgs (part (redis w)))"
    and "decoded E (p_msgs (part (redis w)) ! p_next (part (redis w))) = None"
  | (entry) x where "r = Inr (x, p_next (part (redis w)))" and "db w' = db w"
    and "part (redis w') = fetched (part (redis w))"
    and "p_next (part (redis w)) < length (p_msgs (part (redis w)))"
    and "decoded E (p_msgs (part (redis w)) ! p_next (part (redis w))) = Some x"
proof -
  obtain q s' where f: "k_fetch K (redis w) = (q, s')" by fastforce
  show thesis
  proof (cases q)
    case (Inl x)
    with f assms fetch_fail[of "redis w" x s'] show thesis
      by (intro failed) (auto simp: Fetch_def call_def with_kafka_def)
  next
    case (Inr om)
    then obtain off m where q: "q = Inr (off, m)" by (cases om) auto
    note ok = fetch_ok[OF f[unfolded q]]
    show thesis
    proof (cases "ec_Unmarshal E (km_value m)")
      case None
      with f q ok assms show thesis
        by (intro malformed) (auto simp: Fetch_def call_def with_kafka_def fail_def decoded_def)
    next
      case (Some y)
      with f q ok assms show thesis
        by (intro entry) (auto simp: Fetch_def call_def with_kafka_def ret_def decoded_def)
    qed
  qed
qed

lemma Commit_cases:
  assumes "Commit K off w = (r, w')"
  shows "db w' = db w" and "part (redis w') = part (redis w) \<or> part (redis w') = committed off (part (redis w))"
    and "r = Inr () \<Longrightarrow> part (redis w') = committed off (part (redis w))"
  using assms commit_ok commit_fail
  by (fastforce simp: Commit_def with_kafka_def split: prod.splits sum.splits)+

end

section \<open>An outside world that meets the contract\<close>

record outside =
  o_keys :: keyspace
  o_part :: partition

definition outside_redis :: "outside redis_client" where
  "outside_redis =
     \<lparr>r_get = (\<lambda>t k s. case live (o_keys s) t k of None \<Rightarrow> (Inl RedisNil, s) | Some v \<Rightarrow> (Inr (val_text v), s)),
      r_exists = (\<lambda>t k s. (Inr (if live (o_keys s) t k = None then 0 else 1), s)),
      r_exec = (\<lambda>t cs s. let (ns, K') = apply_cmds t cs (o_keys s) in (Inr ns, s\<lparr>o_keys := K'\<rparr>)),
      r_publish = (\<lambda>t ch p s. (Inr (), s))\<rparr>"

definition outside_kafka :: "outside kafka" where
  "outside_kafka =
     \<lparr>k_write = (\<lambda>m s. (Inr (), s\<lparr>o_part := appended m (o_part s)\<rparr>)),
      k_fetch = (\<lambda>s. let P = o_part s in
         if p_next P < length (p_msgs P)
         then (Inr (p_next P, p_msgs P ! p_next P), s\<lparr>o_part := fetched P\<rparr>)
         else (Inl ''context canceled'', s)),
      k_commit = (\<lambda>off s. (Inr (), s\<lparr>o_part := committed off (o_part s)\<rparr>))\<rparr>"

interpretation out_redis: healthy_redis outside_redis o_keys
  by unfold_locales
     (auto simp: outside_redis_def Let_def split: option.splits redis_val.splits prod.splits)

interpretation out_kafka: healthy_broker outside_kafka o_part
  by unfold_locales (auto simp: outside_kafka_def Let_def split: if_splits)

interpretation out_both: broker_and_redis outside_kafka o_part outside_redis
  by unfold_locales (auto simp: outside_redis_def Let_def split: option.splits prod.splits)

end
