(* ===== verification/Ingest_Contract.thy ===== *)
theory Ingest_Contract
  imports Broker Telemetry_Contract Key_Cache_Contract
begin

text \<open>
  What a request to the ingestor does: it leaves the database alone, an accepted one appends
  exactly its entry to the partition, and a refused one appends nothing unless the broker failed.
\<close>

definition quiet_on :: "('r \<Rightarrow> partition) \<Rightarrow> database \<Rightarrow> partition \<Rightarrow> 'r world \<Rightarrow> bool" where
  "quiet_on part D P w \<longleftrightarrow> db w = D \<and> part (redis w) = P"

lemma on_quiet: "quiet m \<Longrightarrow> keeps (quiet_on part D P) m"
  by (rule keepsI) (auto simp: quiet_on_def dest!: quietD)

lemma check_request_Inr:
  "check_request e req = Inr sev \<longleftrightarrow>
     sev = ToUpper (uni_upper e) (TrimSpace (ir_Severity req)) \<and> IsValidSeverity sev \<and>
     ir_Message req \<noteq> [] \<and> length (ir_Message req) \<le> MaxMessageBytes"
  by (auto simp: check_request_def Let_def)

lemma build_entry_eq:
  "build_entry e res sev req w =
     (Inr \<lparr>le_ID = uuid e (Suc (Suc (tick w))), le_OrgID = ra_OrgID res, le_ServiceID = ra_ServiceID res,
        le_Timestamp = (case ir_Timestamp req of None \<Rightarrow> clk e (tick w) | Some t \<Rightarrow> t), le_Severity = sev,
        le_Message = ir_Message req, le_Metadata = Some (case ir_Metadata req of None \<Rightarrow> [] | Some mt \<Rightarrow> mt),
        le_IngestedAt = clk e (Suc (tick w))\<rparr>, w\<lparr>tick := Suc (Suc (Suc (tick w)))\<rparr>)"
  by (simp add: build_entry_def call_def Now_def NewString_def ret_def Let_def)

text \<open>A header that is accepted, and one that is not\<close>

lemma bearerToken_Inr: "bearerToken header = Inr raw \<longleftrightarrow> header = ''Bearer '' @ raw \<and> raw \<noteq> []"
  using CutPrefix_True[of header "''Bearer ''" raw]
  by (auto simp: bearerToken_def split: if_splits prod.splits)

lemma mapResolveError_401: "\<exists>m. mapResolveError x = Failure 401 m"
  by (cases x rule: mapResolveError.cases) simp_all

context broker_and_redis
begin

lemma keeps_client:
  assumes "uses_client C rs" and "\<And>t s. part (snd (op C t s)) = part s"
  shows "keeps (quiet_on part D P) (with_client e rs op)"
proof (rule keepsI)
  fix w r w' assume q: "quiet_on part D P w" and run: "with_client e rs op w = (r, w')"
  have "db w' = db w \<and> (redis w' = redis w \<or> redis w' = snd (op C (clk e (tick w)) (redis w)))"
    using run assms(1) by (auto simp: with_client_def uses_client_def split: option.splits prod.splits sum.splits)
  then show "quiet_on part D P w'" using q assms(2) by (auto simp: quiet_on_def)
qed

lemma keeps_commands:
  assumes "uses_client C rs"
  shows "keeps (quiet_on part D P) (with_client e rs (\<lambda>cl t. r_get cl t k))" (is ?get)
    and "keeps (quiet_on part D P) (with_client e rs (\<lambda>cl t. r_exists cl t k))" (is ?exists)
    and "keeps (quiet_on part D P) (with_client e rs (\<lambda>cl t. r_exec cl t cs))" (is ?exec)
proof -
  have "part (snd (r_get C t k s)) = part s" for t s by (rule get_part[OF prod.collapse[symmetric]])
  moreover have "part (snd (r_exists C t k s)) = part s" for t s by (rule exists_part[OF prod.collapse[symmetric]])
  moreover have "part (snd (r_exec C t cs s)) = part s" for t s by (rule exec_part[OF prod.collapse[symmetric]])
  ultimately show ?get ?exists ?exec by (intro keeps_client[OF assms]; simp)+
qed

lemma keeps_Resolve:
  assumes "uses_client C (kc_redis kc)" and "\<And>pfx. keeps (quiet_on part D P) (kc_lookup kc pfx)"
  shows "keeps (quiet_on part D P) (Resolve e J kc raw)"
  unfolding Resolve_def resolve_slow_def loadRecord_def Let_def
  by (auto intro!: keeps_attempt keeps_call keeps_if keeps_ret keeps_fail keeps_case_sum keeps_case_option
      keeps_commands assms)

lemma keeps_limits:
  assumes "uses_client C (lim_store l)"
  shows "keeps (quiet_on part D P) (Allow e l key n win)" and "keeps (quiet_on part D P) (AllowIngest e l org cfg)"
proof -
  have now: "keeps (quiet_on part D P) (Now e)" by (rule keepsI) (auto simp: Now_def quiet_on_def)
  have a: "keeps (quiet_on part D P) (Allow e l key n win)" for key n win
    unfolding Allow_def
    by (auto intro!: keeps_attempt keeps_if keeps_ret keeps_fail keeps_commands[OF assms]
        split: sum.split err.split list.split)
  show "keeps (quiet_on part D P) (Allow e l key n win)" by (rule a)
  show "keeps (quiet_on part D P) (AllowIngest e l org cfg)"
    unfolding AllowIngest_def key_defs by (intro keeps_call keeps_ret now a)
qed

text \<open>The handles of a handler that uses these servers\<close>

definition wired :: "env \<Rightarrow> 'r IngestHandler \<Rightarrow> bool" where
  "wired e h \<longleftrightarrow> ih_producer h = K \<and> uses_client C (kc_redis (ih_keyCache h)) \<and>
     kc_lookup (ih_keyCache h) = KeyLookup e \<and> uses_client C (lim_store (ih_limiter h))"

lemma publish_request_cases:
  assumes "publish_request e E h res sev req w = (r, w')" and "ih_producer h = K"
  obtains (queued) x m where "r = Inr x" and "build_entry e res sev req w = (Inr x, w\<lparr>tick := Suc (Suc (Suc (tick w)))\<rparr>)"
    and "ec_Marshal E x = Some (km_value m)" and "km_key m = le_ServiceID x"
    and "part (redis w') = appended m (part (redis w))" and "db w' = db w"
  | (broken) f where "r = Inl f" and "db w' = db w"
    and "part (redis w') = part (redis w) \<or> (\<exists>m. part (redis w') = appended m (part (redis w)))"
proof -
  obtain x where b: "build_entry e res sev req w = (Inr x, w\<lparr>tick := Suc (Suc (Suc (tick w)))\<rparr>)"
    using build_entry_eq by metis
  obtain q w2 where p: "Publish e K E x (w\<lparr>tick := Suc (Suc (Suc (tick w)))\<rparr>) = (q, w2)" by fastforce
  have run: "r = map_sum id (\<lambda>_. x) q" "w' = w2"
    using assms b p by (auto simp: publish_request_def call_def ret_def split: sum.splits)
  show thesis
  proof (cases q)
    case (Inl f)
    then show thesis using broken run Publish_db[OF p] Publish_part[OF p] by simp
  next
    case (Inr u)
    from p[unfolded Inr] show thesis
      by (elim Publish_Inr) (rule queued, use b run Inr in auto)
  qed
qed

lemma ingest_body_cases:
  assumes "ingest_body e E h body res w = (a, w')" and "ih_producer h = K"
  obtains (refused) t where "a = Failure 400 t" and "w' = w"
  | (broken) t where "a = Failure 503 t" and "db w' = db w"
    and "part (redis w') = part (redis w) \<or> (\<exists>m. part (redis w') = appended m (part (redis w)))"
  | (queued) req sev x m where "body = Some req" and "check_request e req = Inr sev" and "a = Success 200 (le_ID x)"
    and "build_entry e res sev req w = (Inr x, w\<lparr>tick := Suc (Suc (Suc (tick w)))\<rparr>)"
    and "ec_Marshal E x = Some (km_value m)" and "km_key m = le_ServiceID x"
    and "part (redis w') = appended m (part (redis w))" and "db w' = db w"
proof (cases body)
  case None
  then show thesis using refused assms(1) by (auto simp: ingest_body_def with_body_def answer_def)
next
  case body: (Some req)
  show thesis
  proof (cases "check_request e req")
    case (Inl m)
    then show thesis using refused assms(1) body by (auto simp: ingest_body_def with_body_def answer_def)
  next
    case sev: (Inr sev)
    obtain r w2 where p: "publish_request e E h res sev req w = (r, w2)" by fastforce
    have a: "(a, w') = (case r of Inl _ \<Rightarrow> Failure 503 ''failed to queue log'' | Inr x \<Rightarrow> Success 200 (le_ID x), w2)"
      using assms(1) body sev p by (auto simp: ingest_body_def with_body_def respond_def split: sum.splits)
    from p assms(2) show thesis
    proof (cases rule: publish_request_cases)
      case pq: (queued x m)
      show thesis by (rule queued[OF body sev]) (use a pq in auto)
    next
      case pb: (broken f)
      show thesis by (rule broken) (use a pb in auto)
    qed
  qed
qed

lemma IngestLog_cases:
  assumes "wired e h" and "IngestLog e J E h body c w = (a, w')"
  obtains (refused) s t where "a = Failure s t" and "s \<in> {400, 401, 429}"
    and "part (redis w') = part (redis w)" and "db w' = db w"
  | (broken) t where "a = Failure 503 t" and "db w' = db w"
    and "part (redis w') = part (redis w) \<or> (\<exists>m. part (redis w') = appended m (part (redis w)))"
  | (queued) raw res w0 req sev x m and w1 :: "'r world" where "auth_header c = ''Bearer '' @ raw"
    and "Resolve e J (ih_keyCache h) raw w = (Inr res, w0)" and "body = Some req" and "check_request e req = Inr sev"
    and "build_entry e res sev req w1 = (Inr x, w1\<lparr>tick := Suc (Suc (Suc (tick w1)))\<rparr>)"
    and "a = Success 200 (le_ID x)" and "ec_Marshal E x = Some (km_value m)" and "km_key m = ra_ServiceID res"
    and "part (redis w') = appended m (part (redis w))" and "db w' = db w"
proof -
  let ?I = "quiet_on part (db w) (part (redis w))"
  have wires: "ih_producer h = K" "uses_client C (kc_redis (ih_keyCache h))" "kc_lookup (ih_keyCache h) = KeyLookup e"
      "uses_client C (lim_store (ih_limiter h))"
    using assms(1) by (simp_all add: wired_def)
  show thesis
  proof (cases "bearerToken (auth_header c)")
    case (Inl x)
    then show thesis using refused assms(2) by (auto simp: IngestLog_def answer_def)
  next
    case raw: (Inr raw)
    obtain r0 w0 where r0: "Resolve e J (ih_keyCache h) raw w = (r0, w0)" by fastforce
    have q0: "?I w0"
      by (rule keepsD[OF keeps_Resolve[OF wires(2)] _ r0])
         (simp_all add: wires(3) on_quiet quiet_KeyLookup quiet_on_def)
    show thesis
    proof (cases r0)
      case (Inl x)
      obtain m where "mapResolveError x = (Failure 401 m :: string reply)" using mapResolveError_401 by metis
      then have "a = Failure 401 m" "w' = w0" using assms(2) raw r0 Inl by (simp_all add: IngestLog_def guard_def)
      then show thesis using refused q0 by (simp add: quiet_on_def)
    next
      case res: (Inr res)
      obtain r1 w1 where lim: "AllowIngest e (ih_limiter h) (ra_OrgID res) (ih_limits h) w0 = (r1, w1)" by fastforce
      have q1: "?I w1" by (rule keepsD[OF keeps_limits(2)[OF wires(4)] q0 lim])
      have run: "(a, w') = (if r1 = Inl RateLimited then (Failure 429 ''log ingest rate limit exceeded'', w1)
          else ingest_body e E h body res w1)"
        using assms(2) raw r0 res lim by (auto simp: IngestLog_def guard_def limit_ingest_def split: sum.splits err.splits)
      show thesis
      proof (cases "r1 = Inl RateLimited")
        case True
        then show thesis using refused[of 429] run q1 by (simp add: quiet_on_def)
      next
        case False
        then have "ingest_body e E h body res w1 = (a, w')" using run by simp
        from this wires(1) show thesis
        proof (cases rule: ingest_body_cases)
          case (refused t)
          then show thesis using that(1)[of 400] q1 by (simp add: quiet_on_def)
        next
          case (broken t)
          then show thesis using that(2) q1 by (simp add: quiet_on_def)
        next
          case (queued req sev x m)
          have "le_ServiceID x = ra_ServiceID res" using queued(4) by (auto simp: build_entry_eq)
          then show thesis
            using that(3)[of raw res w0 req sev w1 x m] queued raw r0 res q1 by (simp add: quiet_on_def bearerToken_Inr)
        qed
      qed
    qed
  qed
qed

end

end
