(* ===== verification/Consumer_Contract.thy ===== *)
theory Consumer_Contract
  imports Broker Telemetry_Contract "HOL-Library.Sublist"
begin

text \<open>
  What one iteration of the consumer does to the partition and to the table, and the abstract
  consumer it implements: \<open>stored\<close> takes one message to the table or leaves the table alone.
\<close>

section \<open>The abstract consumer\<close>

text \<open>The row an entry asks for, if it names UUIDs, and that of a message that has an identifier\<close>

definition entry_row :: "env \<Rightarrow> LogEntry \<Rightarrow> LogRow option" where
  "entry_row e x =
     (case (pg_uuid e (le_ID x), pg_uuid e (le_OrgID x), pg_uuid e (le_ServiceID x)) of
        (Some i, Some oid, Some sid) \<Rightarrow> Some
          \<lparr>l_id = i, l_org_id = oid, l_service_id = sid, l_timestamp = pg_time (le_Timestamp x),
           l_severity = le_Severity x, l_message = le_Message x,
           l_metadata = (case le_Metadata x of None \<Rightarrow> [] | Some mt \<Rightarrow> mt),
           l_ingested_at = pg_time (le_IngestedAt x)\<rparr>
      | _ \<Rightarrow> None)"

definition row_of :: "env \<Rightarrow> entry_codec \<Rightarrow> kafka_message \<Rightarrow> LogRow option" where
  "row_of e E m =
     (case decoded E m of None \<Rightarrow> None | Some x \<Rightarrow> if le_ID x = [] then None else entry_row e x)"

text \<open>What the table asks of a row\<close>

definition accepts :: "LogRow \<Rightarrow> database \<Rightarrow> bool" where
  "accepts r d \<longleftrightarrow>
     l_severity r \<in> {''DEBUG'', ''INFO'', ''WARN'', ''ERROR'', ''FATAL''} \<and>
     l_id r \<notin> l_id ` set (logs d) \<and>
     l_org_id r \<in> o_id ` set (organizations d) \<and> l_service_id r \<in> s_id ` set (services d)"

definition stored :: "env \<Rightarrow> entry_codec \<Rightarrow> kafka_message \<Rightarrow> database \<Rightarrow> database" where
  "stored e E m d =
     (case row_of e E m of
        None \<Rightarrow> d
      | Some r \<Rightarrow> if accepts r d then d\<lparr>logs := logs d @ [r]\<rparr> else d)"

lemma severities_fit: "s \<in> {''DEBUG'', ''INFO'', ''WARN'', ''ERROR'', ''FATAL''} \<Longrightarrow> varchar 10 s"
  by (auto simp: varchar_def rune_count_ascii ascii_def)

lemma insert_log_eq:
  "\<exists>f. insert_log r d = (if accepts r d then (Inr r, d\<lparr>logs := logs d @ [r]\<rparr>) else (Inl f, d))"
  using severities_fit[of "l_severity r"] by (auto simp: insert_log_def constrained_def accepts_def)

lemma insert_entry_eq:
  "\<exists>f. insert_entry e x t u d =
     (case entry_row e x of
        None \<Rightarrow> (Inl f, d)
      | Some r \<Rightarrow> if accepts r d then (Inr (), d\<lparr>logs := logs d @ [r]\<rparr>) else (Inl f, d))"
proof (cases "entry_row e x")
  case None
  then show ?thesis
    by (auto simp: entry_row_def insert_entry_def with_uuid_def split: option.splits)
next
  case (Some r)
  then obtain i oid sid where u: "pg_uuid e (le_ID x) = Some i" "pg_uuid e (le_OrgID x) = Some oid"
      "pg_uuid e (le_ServiceID x) = Some sid"
    by (auto simp: entry_row_def split: option.splits)
  then have "insert_entry e x t u d = returning (\<lambda>_. ()) (insert_log r d)"
    using Some by (simp add: insert_entry_def with_uuid_def entry_row_def)
  moreover obtain f where "insert_log r d = (if accepts r d then (Inr r, d\<lparr>logs := logs d @ [r]\<rparr>) else (Inl f, d))"
    using insert_log_eq[of r d] by blast
  ultimately show ?thesis using Some by (simp add: returning_def)
qed

lemma insert_entry_stored:
  assumes "decoded E m = Some x" and "le_ID x \<noteq> []"
  obtains "insert_entry e x t u d = (Inr (), stored e E m d)"
  | f where "insert_entry e x t u d = (Inl f, d)" and "stored e E m d = d"
proof -
  have row: "row_of e E m = entry_row e x" using assms by (simp add: row_of_def)
  obtain f where ins: "insert_entry e x t u d =
     (case entry_row e x of
        None \<Rightarrow> (Inl f, d)
      | Some r \<Rightarrow> if accepts r d then (Inr (), d\<lparr>logs := logs d @ [r]\<rparr>) else (Inl f, d))"
    using insert_entry_eq by blast
  show thesis
  proof (cases "\<exists>r. entry_row e x = Some r \<and> accepts r d")
    case True
    then show thesis using that(1) ins row by (auto simp: stored_def)
  next
    case False
    then have "insert_entry e x t u d = (Inl f, d)" "stored e E m d = d"
      using ins row by (auto simp: stored_def split: option.split)
    then show thesis by (rule that(2))
  qed
qed

lemma InsertLogs_stored:
  assumes "decoded E m = Some x" and "le_ID x \<noteq> []" and "InsertLogs e [x] w = (r, w')"
  shows "redis w' = redis w" and "tick w' = Suc (tick w)" and "db w' = db w \<or> db w' = stored e E m (db w)"
    and "r = Inr () \<Longrightarrow> db w' = stored e E m (db w)"
    and "pg_fault e (tick w) = None \<Longrightarrow> db w' = stored e E m (db w)"
proof -
  have p: "InsertLogs e [x] = pg e (insert_batch e [x])" by (simp add: InsertLogs_def)
  have "insert_batch e [x] t u d = (Inr (), stored e E m d) \<or>
      (\<exists>f. insert_batch e [x] t u d = (Inl f, d) \<and> stored e E m d = d)" for t u d
    by (cases rule: insert_entry_stored[OF assms(1,2), of e t u d]) auto
  then have i: "insert_batch e [x] (clk e (tick w)) (uuid e (tick w)) (db w) = (Inr (), stored e E m (db w)) \<or>
      (\<exists>f. insert_batch e [x] (clk e (tick w)) (uuid e (tick w)) (db w) = (Inl f, db w) \<and> stored e E m (db w) = db w)"
    by blast
  show "redis w' = redis w" "tick w' = Suc (tick w)" "db w' = db w \<or> db w' = stored e E m (db w)"
    "r = Inr () \<Longrightarrow> db w' = stored e E m (db w)" "pg_fault e (tick w) = None \<Longrightarrow> db w' = stored e E m (db w)"
    using i assms(3) unfolding p pg_def Let_def
    by (auto simp del: insert_batch.simps split: option.splits)
qed

subsection \<open>Storing again changes nothing\<close>

lemma stored_mono: "set (logs d) \<subseteq> set (logs (stored e E m d))"
  by (auto simp: stored_def split: option.split)

lemma stored_frame [simp]:
  "organizations (stored e E m d) = organizations d" "services (stored e E m d) = services d"
  by (auto simp: stored_def split: option.split)

lemma fold_stored_frame [simp]:
  "organizations (fold (stored e E) ms d) = organizations d" "services (fold (stored e E) ms d) = services d"
  by (induction ms arbitrary: d) simp_all

definition settled :: "env \<Rightarrow> entry_codec \<Rightarrow> kafka_message \<Rightarrow> database \<Rightarrow> bool" where
  "settled e E m d \<longleftrightarrow> (\<forall>r. row_of e E m = Some r \<longrightarrow> \<not> accepts r d)"

lemma settled_stored: "settled e E m (stored e E m d)"
  by (auto simp: settled_def stored_def accepts_def split: if_splits)

lemma settled_keeps: "settled e E m d \<Longrightarrow> settled e E m (stored e E m' d)"
  unfolding settled_def accepts_def using stored_mono[of d e E m'] by (auto simp: image_iff)

lemma settled_id: "settled e E m d \<Longrightarrow> stored e E m d = d"
  by (auto simp: settled_def stored_def split: option.split)

lemma settled_fold_keeps: "settled e E m d \<Longrightarrow> settled e E m (fold (stored e E) ms d)"
  by (induction ms arbitrary: d) (simp_all add: settled_keeps)

lemma settled_fold: "m \<in> set ms \<Longrightarrow> settled e E m (fold (stored e E) ms d)"
  by (induction ms arbitrary: d) (auto simp: settled_stored settled_fold_keeps)

lemma fold_settled: "(\<And>m. m \<in> set ms \<Longrightarrow> settled e E m d) \<Longrightarrow> fold (stored e E) ms d = d"
  by (induction ms arbitrary: d) (simp_all add: settled_id)

lemma fold_stored_again:
  assumes "set ms' \<subseteq> set ms"
  shows "fold (stored e E) ms' (fold (stored e E) ms d) = fold (stored e E) ms d"
  using assms settled_fold by (intro fold_settled) blast

section \<open>One iteration\<close>

text \<open>How far an iteration moves the partition\<close>

definition moves :: "partition \<Rightarrow> partition \<Rightarrow> bool" where
  "moves P Q \<longleftrightarrow> p_next P < length (p_msgs P) \<and> (Q = fetched P \<or> Q = committed (p_next P) (fetched P))"

text \<open>The messages one run of the loop went through\<close>

definition window :: "nat \<Rightarrow> partition \<Rightarrow> kafka_message list" where
  "window k P = take k (drop (p_next P) (p_msgs P))"

lemma window_Suc: "p_next P < length (p_msgs P) \<Longrightarrow> moves P Q \<Longrightarrow>
    window (Suc k) P = p_msgs P ! p_next P # window k Q"
  by (auto simp: window_def moves_def partition_ops Cons_nth_drop_Suc[symmetric])

context broker_and_redis
begin

lemma PublishLog_frame:
  assumes "uses_client C rs" and "PublishLog e rs E x w = (r, w')"
  shows "db w' = db w \<and> part (redis w') = part (redis w)"
  using assms publish_part
  by (fastforce simp: PublishLog_def uses_client_def with_client_def ret_def fail_def
      split: if_splits option.splits prod.splits sum.splits)

lemma consume_entry_effect:
  assumes "uses_client C rs" and "decoded E m = Some x" and "consume_entry e K E rs x off w = (r, w')"
  shows "r = Inr True" and "part (redis w') = part (redis w) \<or> part (redis w') = committed off (part (redis w))"
    and "db w' = db w \<or> db w' = stored e E m (db w)"
    and "pg_fault e (tick w) = None \<Longrightarrow> db w' = stored e E m (db w)"
proof -
  have goal: "r = Inr True \<and> (part (redis w') = part (redis w) \<or> part (redis w') = committed off (part (redis w))) \<and>
    (db w' = db w \<or> db w' = stored e E m (db w)) \<and> (pg_fault e (tick w) = None \<longrightarrow> db w' = stored e E m (db w))"
  proof (cases "le_ID x = []")
    case True
    obtain q w1 where c: "Commit K off w = (q, w1)" by fastforce
    have "stored e E m (db w) = db w" using True assms(2) by (simp add: stored_def row_of_def)
    then show ?thesis
      using assms(3) True Commit_cases(1,2)[OF c] by (simp add: consume_entry_def attempt_def c ret_def)
  next
    case False
    obtain q w1 where i: "InsertLogs e [x] w = (q, w1)" by fastforce
    note st = InsertLogs_stored[OF assms(2) False i]
    show ?thesis
    proof (cases q)
      case (Inl f)
      then have "r = Inr True" "w' = w1\<lparr>tick := Suc (tick w1)\<rparr>"
        using assms(3) False i by (simp_all add: consume_entry_def attempt_def call_def Sleep_def ret_def)
      then show ?thesis using st by auto
    next
      case (Inr u)
      obtain q2 w2 where c: "Commit K off w1 = (q2, w2)" by fastforce
      obtain q3 w3 where p: "PublishLog e rs E x w2 = (q3, w3)" by fastforce
      have "r = Inr True" "w' = w3"
        using assms(3) False i Inr c p by (simp_all add: consume_entry_def attempt_def ret_def)
      then show ?thesis
        using st Inr Commit_cases(1,2)[OF c] PublishLog_frame[OF assms(1) p] by auto
    qed
  qed
  show "r = Inr True" using goal by blast
  show "part (redis w') = part (redis w) \<or> part (redis w') = committed off (part (redis w))" using goal by blast
  show "db w' = db w \<or> db w' = stored e E m (db w)" using goal by blast
  show "pg_fault e (tick w) = None \<Longrightarrow> db w' = stored e E m (db w)" using goal by blast
qed

lemma consume_once_effect:
  assumes "uses_client C rs" and "consume_once e K E rs cancelled w = (r, w')"
  obtains (idle) go where "r = Inr go" and "db w' = db w" and "part (redis w') = part (redis w)"
    and "\<exists>x s'. k_fetch K (redis w) = (Inl x, s')"
  | (moved) go where "r = Inr go" and "moves (part (redis w)) (part (redis w'))"
    and "db w' = db w \<or> db w' = stored e E (p_msgs (part (redis w)) ! p_next (part (redis w))) (db w)"
    and "(\<And>n. pg_fault e n = None) \<Longrightarrow>
      db w' = stored e E (p_msgs (part (redis w)) ! p_next (part (redis w))) (db w)"
    and "(\<And>n. \<not> cancelled n) \<Longrightarrow> go"
proof -
  obtain q w1 where f: "Fetch K E w = (q, w1)" by fastforce
  have run: "consume_once e K E rs cancelled w =
      (case q of Inl _ \<Rightarrow> (if cancelled (tick w1) then (Inr False, w1) else (Inr True, w1\<lparr>tick := Suc (tick w1)\<rparr>))
       | Inr (entry, msg) \<Rightarrow> consume_entry e K E rs entry msg w1)"
    by (simp add: consume_once_def attempt_def f ret_def call_def Sleep_def split: sum.split)
  show thesis
    using f
  proof (cases rule: Fetch_cases)
    case (failed x)
    then show thesis using idle run assms(2) by (auto split: if_splits)
  next
    case (malformed x)
    have "stored e E (p_msgs (part (redis w)) ! p_next (part (redis w))) d = d" for d
      using malformed(5) by (simp add: stored_def row_of_def)
    then show thesis
      using moved run assms(2) malformed by (auto simp: moves_def split: if_splits)
  next
    case (entry x)
    have c: "consume_entry e K E rs x (p_next (part (redis w))) w1 = (r, w')"
      using run assms(2) entry(1) by simp
    show thesis
      using consume_entry_effect[OF assms(1) entry(5) c] entry by (intro moved) (auto simp: moves_def)
  qed
qed

lemma loop_effect:
  assumes "uses_client C rs"
  shows "consumer_loop n e K E rs cancelled w = (r, w') \<Longrightarrow>
    \<exists>k ms. subseq ms (window k (part (redis w))) \<and> db w' = fold (stored e E) ms (db w) \<and>
      p_msgs (part (redis w')) = p_msgs (part (redis w)) \<and>
      p_next (part (redis w')) = p_next (part (redis w)) + k \<and>
      p_done (part (redis w')) \<le> max (p_done (part (redis w))) (p_next (part (redis w')))"
proof (induction n arbitrary: w)
  case 0
  then show ?case by (auto intro!: exI[of _ 0] exI[of _ "[]"] simp: window_def)
next
  case (Suc n)
  show ?case
  proof (cases "cancelled (tick w)")
    case True
    with Suc.prems show ?thesis by (auto intro!: exI[of _ 0] exI[of _ "[]"] simp: window_def)
  next
    case False
    obtain q w1 where c: "consume_once e K E rs cancelled w = (q, w1)" by fastforce
    show ?thesis
      using assms c
    proof (cases rule: consume_once_effect)
      case (idle go)
      then show ?thesis
        using Suc.IH[of w1] Suc.prems False c
        by (cases go) (auto simp: call_def ret_def intro!: exI[of _ 0] exI[of _ "[]"])
    next
      case (moved go)
      let ?P = "part (redis w)" and ?Q = "part (redis w1)"
      have lt: "p_next ?P < length (p_msgs ?P)" using moved(2) by (simp add: moves_def)
      have Q: "p_msgs ?Q = p_msgs ?P" "p_next ?Q = Suc (p_next ?P)"
          "p_done ?Q \<le> max (p_done ?P) (p_next ?Q)"
        using moved(2) by (auto simp: moves_def partition_ops)
      obtain k ms where IH: "subseq ms (window k ?Q)" "db w' = fold (stored e E) ms (db w1)"
        "p_msgs (part (redis w')) = p_msgs ?Q" "p_next (part (redis w')) = p_next ?Q + k"
        "p_done (part (redis w')) \<le> max (p_done ?Q) (p_next (part (redis w')))"
      proof (cases go)
        case True
        then have "consumer_loop n e K E rs cancelled w1 = (r, w')"
          using Suc.prems False c moved(1) by (simp add: call_def)
        from Suc.IH[OF this] show thesis using that by blast
      next
        case go: False
        then have "w' = w1" using Suc.prems False c moved(1) by (simp add: call_def ret_def)
        then show thesis using that[of "[]" 0] by (simp add: window_def)
      qed
      have done': "p_done (part (redis w')) \<le> max (p_done ?P) (p_next (part (redis w')))"
        using IH(4,5) Q by linarith
      from moved(3) show ?thesis
      proof
        assume "db w1 = db w"
        then show ?thesis
          using IH Q done' window_Suc[OF lt moved(2), of k]
          by (intro exI[of _ "Suc k"] exI[of _ ms]) (auto intro: list_emb_Cons)
      next
        assume "db w1 = stored e E (p_msgs ?P ! p_next ?P) (db w)"
        then show ?thesis
          using IH Q done' window_Suc[OF lt moved(2), of k]
          by (intro exI[of _ "Suc k"] exI[of _ "p_msgs ?P ! p_next ?P # ms"]) auto
      qed
    qed
  qed
qed

lemma loop_stores:
  assumes "uses_client C rs" and "healthy_broker K part" and "\<And>i. pg_fault e i = None" and "\<And>i. \<not> cancelled i"
  shows "n \<le> length (p_msgs (part (redis w))) - p_next (part (redis w)) \<Longrightarrow>
    \<exists>w'. consumer_loop n e K E rs cancelled w = (Inr False, w') \<and>
      db w' = fold (stored e E) (window n (part (redis w))) (db w) \<and>
      p_msgs (part (redis w')) = p_msgs (part (redis w)) \<and>
      p_next (part (redis w')) = p_next (part (redis w)) + n"
proof (induction n arbitrary: w)
  case 0
  then show ?case by (simp add: window_def)
next
  case (Suc n)
  let ?P = "part (redis w)"
  obtain q w1 where c: "consume_once e K E rs cancelled w = (q, w1)" by fastforce
  have lt: "p_next ?P < length (p_msgs ?P)" using Suc.prems by linarith
  show ?case
    using assms(1) c
  proof (cases rule: consume_once_effect)
    case (idle go)
    then show ?thesis using healthy_broker.fetch_up[OF assms(2) lt] by blast
  next
    case (moved go)
    let ?Q = "part (redis w1)"
    have Q: "p_msgs ?Q = p_msgs ?P" "p_next ?Q = Suc (p_next ?P)"
      using moved(2) by (auto simp: moves_def partition_ops)
    have "n \<le> length (p_msgs ?Q) - p_next ?Q" using Suc.prems Q by simp
    from Suc.IH[OF this] obtain w' where "consumer_loop n e K E rs cancelled w1 = (Inr False, w')"
      and "db w' = fold (stored e E) (window n ?Q) (db w1)"
      and "p_msgs (part (redis w')) = p_msgs ?Q" "p_next (part (redis w')) = p_next ?Q + n"
      by blast
    moreover have "consumer_loop (Suc n) e K E rs cancelled w = consumer_loop n e K E rs cancelled w1"
      using c moved(1) moved(5)[OF assms(4)] assms(4)[of "tick w"] by (simp add: call_def)
    ultimately show ?thesis
      using moved(4)[OF assms(3)] Q window_Suc[OF lt moved(2), of n] by simp
  qed
qed

end

section \<open>The loops end\<close>

lemma with_client_tick: "with_client e rs op w = (r, w') \<Longrightarrow> tick w \<le> tick w'"
  by (auto simp: with_client_def split: option.splits prod.splits sum.splits)

lemma PublishLog_tick: "PublishLog e rs E x w = (r, w') \<Longrightarrow> tick w \<le> tick w'"
  by (auto simp: PublishLog_def ret_def fail_def dest: with_client_tick split: if_splits option.splits)

lemma InsertLogs_tick: "InsertLogs e xs w = (r, w') \<Longrightarrow> tick w \<le> tick w'"
  by (auto simp: InsertLogs_def ret_def pg_def Let_def split: if_splits option.splits prod.splits sum.splits)

lemma with_kafka_tick: "with_kafka op w = (r, w') \<Longrightarrow> tick w' = Suc (tick w)"
  by (auto simp: with_kafka_def split: prod.splits sum.splits)

lemma Fetch_tick: "Fetch K E w = (r, w') \<Longrightarrow> tick w < tick w'"
  by (auto simp: Fetch_def call_def ret_def fail_def dest!: with_kafka_tick split: prod.splits sum.splits option.splits)

lemma consume_entry_answers:
  assumes "consume_entry e K E rs x msg w = (r, w')"
  shows "r = Inr True \<and> tick w \<le> tick w'"
proof (cases "le_ID x = []")
  case True
  then show ?thesis
    using assms by (auto simp: consume_entry_def attempt_def ret_def Commit_def split: prod.splits dest!: with_kafka_tick)
next
  case False
  obtain i w1 where i: "InsertLogs e [x] w = (i, w1)" by fastforce
  obtain m w2 where m: "Commit K msg w1 = (m, w2)" by fastforce
  obtain p w3 where p: "PublishLog e rs E x w2 = (p, w3)" by fastforce
  show ?thesis
    using False assms i m p InsertLogs_tick[OF i] with_kafka_tick[OF m[unfolded Commit_def]] PublishLog_tick[OF p]
    by (cases i) (auto simp: consume_entry_def attempt_def call_def ret_def Sleep_def)
qed

text \<open>An iteration always answers, and time passes.\<close>

lemma consume_once_answers:
  assumes "consume_once e K E rs cancelled w = (r, w')"
  shows "(\<exists>go. r = Inr go) \<and> tick w < tick w'"
proof -
  obtain q w1 where f: "Fetch K E w = (q, w1)" by fastforce
  show ?thesis
  proof (cases q)
    case (Inl x)
    then show ?thesis
      using assms f Fetch_tick[OF f] by (auto simp: consume_once_def attempt_def call_def ret_def Sleep_def split: if_splits)
  next
    case (Inr y)
    then show ?thesis
      using assms f Fetch_tick[OF f]
      by (cases y) (auto simp: consume_once_def attempt_def dest!: consume_entry_answers)
  qed
qed

lemma consumer_loop_stops:
  assumes "\<And>m. t \<le> m \<Longrightarrow> cancelled m" and "t - tick w < n"
  shows "\<exists>w'. consumer_loop n e K E rs cancelled w = (Inr True, w')"
  using assms(2)
proof (induction n arbitrary: w)
  case (Suc n)
  obtain r w1 where c: "consume_once e K E rs cancelled w = (r, w1)" by fastforce
  obtain go where go: "r = Inr go" and later: "tick w < tick w1" using consume_once_answers[OF c] by blast
  show ?case
  proof (cases "cancelled (tick w)")
    case False
    then have "tick w < t" using assms(1) not_less by blast
    then have "t - tick w1 < n" using Suc.prems later by simp
    then show ?thesis using False c go Suc.IH by (cases go) (auto simp: call_def ret_def)
  qed simp
qed simp

lemma runOnce_answers: "\<exists>w'. runOnce e hours w = (Inr (), w') \<and> tick w \<le> tick w'"
  by (simp add: runOnce_def call_def Now_def Let_def attempt_def ret_def DeleteOlderThan_def pg_def
      split: option.splits prod.splits sum.splits)

lemma retention_stops:
  assumes "\<And>m. t \<le> m \<Longrightarrow> cancelled m" and "t - tick w < n"
  shows "\<exists>w'. retention_ticks n e interval cancelled hours w = (Inr True, w')"
  using assms(2)
proof (induction n arbitrary: w)
  case (Suc n)
  obtain w1 where r: "runOnce e hours (w\<lparr>tick := Suc (tick w)\<rparr>) = (Inr (), w1)" and later: "tick w < tick w1"
    using runOnce_answers[of e hours "w\<lparr>tick := Suc (tick w)\<rparr>"] by auto
  show ?case
  proof (cases "cancelled (tick w)")
    case False
    then have "tick w < t" using assms(1) not_less by blast
    then have "t - tick w1 < n" using Suc.prems later by simp
    then show ?thesis using False r Suc.IH by (simp add: call_def Sleep_def)
  qed simp
qed simp

end
