(* ===== verification/Pipeline_Props.thy ===== *)
theory Pipeline_Props
  imports Ingest_Contract Consumer_Contract Key_Cache_Props Telemetry_Props
begin

text \<open>
  The path of an entry: accepted by the ingestor, kept by the broker, stored by the consumer,
  read through the API, and deleted when it is old.
\<close>

section \<open>The machine\<close>

text \<open>
  Requests to the ingestor, iterations of the consumer, its restarts, which begin at any offset
  that was committed, and the deletion of old entries, in any order; every effect may fail.
\<close>

inductive pipeline_step ::
    "env \<Rightarrow> 'r kafka \<Rightarrow> ('r \<Rightarrow> partition) \<Rightarrow> 'r redis_client \<Rightarrow> entry_codec \<Rightarrow> 'r world \<Rightarrow> 'r world \<Rightarrow> bool"
  for e K part C E where
  request: "broker_and_redis.wired K C e h \<Longrightarrow> IngestLog e J E h body c w = (a, w') \<Longrightarrow>
     pipeline_step e K part C E w w'"
| consume: "uses_client C rs \<Longrightarrow> consume_once e K E rs cancelled w = (r, w') \<Longrightarrow> pipeline_step e K part C E w w'"
| restart: "part (redis w') = restarted n (part (redis w)) \<Longrightarrow> db w' = db w \<Longrightarrow> pipeline_step e K part C E w w'"
| retain: "runOnce e hours w = (r', w') \<Longrightarrow> pipeline_step e K part C E w w'"

inductive_cases pipeline_stepE: "pipeline_step e K part C E w w'"

text \<open>Where the rows come from: they were there, or a message of the partition asks for them.\<close>

definition sourced :: "env \<Rightarrow> entry_codec \<Rightarrow> LogRow set \<Rightarrow> partition \<Rightarrow> database \<Rightarrow> bool" where
  "sourced e E old P d \<longleftrightarrow>
     distinct (map l_id (logs d)) \<and>
     (\<forall>r \<in> set (logs d). r \<in> old \<or> (\<exists>m \<in> set (p_msgs P). row_of e E m = Some r)) \<and>
     p_done P \<le> p_next P \<and> p_next P \<le> length (p_msgs P)"

lemma sourced_stored:
  assumes "sourced e E old P d" and "m \<in> set (p_msgs P)"
  shows "sourced e E old P (stored e E m d)"
  using assms by (auto simp: sourced_def stored_def accepts_def split: option.splits)

lemma sourced_appended: "sourced e E old P d \<Longrightarrow> sourced e E old (appended m P) d"
  by (auto simp: sourced_def appended_def)

lemma sourced_moves: "sourced e E old P d \<Longrightarrow> moves P Q \<Longrightarrow> sourced e E old Q d"
  by (auto simp: sourced_def moves_def partition_ops)

lemma moves_msgs: "moves P Q \<Longrightarrow> p_msgs Q = p_msgs P"
  by (auto simp: moves_def partition_ops)

lemma runOnce_eq:
  "runOnce e hours w =
    (Inr (), w\<lparr>tick := Suc (Suc (tick w)),
      db := (if pg_fault e (Suc (tick w)) = None
         then (db w)\<lparr>logs := filter (\<lambda>r. pg_time (clk e (tick w) + wrap64 (wrap64 (- hours) * Hour)) \<le> l_timestamp r) (logs (db w))\<rparr>
         else db w)\<rparr>)"
  by (auto simp: runOnce_def call_def Now_def attempt_def DeleteOlderThan_def pg_def ret_def Let_def not_less split: option.split)

lemma sourced_filter: "sourced e E old P d \<Longrightarrow> sourced e E old P (d\<lparr>logs := filter p (logs d)\<rparr>)"
  by (auto simp: sourced_def distinct_map_filter)

context broker_and_redis
begin

lemma step_sourced:
  assumes "pipeline_step e K part C E w w'" and "sourced e E old (part (redis w)) (db w)"
  shows "sourced e E old (part (redis w')) (db w')" and "prefix (p_msgs (part (redis w))) (p_msgs (part (redis w')))"
    and "organizations (db w') = organizations (db w) \<and> services (db w') = services (db w)"
proof -
  have "sourced e E old (part (redis w')) (db w') \<and> prefix (p_msgs (part (redis w))) (p_msgs (part (redis w'))) \<and>
    organizations (db w') = organizations (db w) \<and> services (db w') = services (db w)"
    using assms(1)
  proof (cases rule: pipeline_step.cases)
    case (request h J body c a)
    have "db w' = db w \<and> (part (redis w') = part (redis w) \<or> (\<exists>m. part (redis w') = appended m (part (redis w))))"
      using request by (cases rule: IngestLog_cases) auto
    then show ?thesis using assms(2) by (auto simp: sourced_appended) (auto simp: appended_def)
  next
    case (consume rs cancelled r)
    from consume show ?thesis
    proof (cases rule: consume_once_effect)
      case (idle go)
      then show ?thesis using assms(2) by simp
    next
      case (moved go)
      let ?m = "p_msgs (part (redis w)) ! p_next (part (redis w))"
      have "?m \<in> set (p_msgs (part (redis w)))" using moved(2) by (simp add: moves_def)
      then show ?thesis
        using moved(2,3) assms(2) sourced_stored[of e E old "part (redis w)" "db w" ?m]
        by (auto simp: moves_msgs intro: sourced_moves)
    qed
  next
    case restart
    then show ?thesis using assms(2) by (auto simp: sourced_def restarted_def)
  next
    case (retain hours r)
    then have "redis w' = redis w \<and> (db w' = db w \<or> (\<exists>p. db w' = (db w)\<lparr>logs := filter p (logs (db w))\<rparr>))"
      by (auto simp: runOnce_eq split: if_splits)
    then show ?thesis using assms(2) by (auto simp: sourced_filter)
  qed
  then show "sourced e E old (part (redis w')) (db w')" "prefix (p_msgs (part (redis w))) (p_msgs (part (redis w')))"
    "organizations (db w') = organizations (db w) \<and> services (db w') = services (db w)" by blast+
qed

lemma steps_sourced:
  assumes "(pipeline_step e K part C E)\<^sup>*\<^sup>* w w'" and "sourced e E old (part (redis w)) (db w)"
  shows "sourced e E old (part (redis w')) (db w') \<and> prefix (p_msgs (part (redis w))) (p_msgs (part (redis w'))) \<and>
    organizations (db w') = organizations (db w) \<and> services (db w') = services (db w)"
  using assms
proof (induction rule: rtranclp_induct)
  case (step v v')
  then show ?case using step_sourced[OF step(2)] by (metis prefix_order.trans)
qed simp

end

section \<open>Reading an entry back\<close>




lemma logs_grow: "set (logs d) \<subseteq> set (logs (fold (stored e E) ms d))"
proof (induction ms arbitrary: d)
  case (Cons m ms)
  then show ?case using stored_mono[of d e E m] by (simp add: order_trans)
qed simp

section \<open>Sample data\<close>

text \<open>A codec for the witnesses: a finite table of texts and entries.\<close>

definition table_codec :: "(string \<times> LogEntry) list \<Rightarrow> entry_codec" where
  "table_codec tbl =
     \<lparr>ec_Marshal = (\<lambda>x. map_option fst (find (\<lambda>(s, y). y = MarshalJSON x) tbl)), ec_Unmarshal = map_of tbl\<rparr>"


section \<open>Properties\<close>

text \<open>
  C4: the consumer implements its specification: when nothing fails, n iterations take the next
  n messages of the partition to the table, one after the other and in order, as the abstract
  consumer does; a message that is malformed or that the table refuses is passed over.
\<close>

theorem consumer_refines:
  assumes "healthy_broker K part" and "broker_and_redis K part C" and "uses_client C rs"
    and "\<And>i. pg_fault e i = None" and "\<And>i. \<not> cancelled i"
    and "n \<le> length (p_msgs (part (redis w))) - p_next (part (redis w))"
  shows "\<exists>w'. consumer_loop n e K E rs cancelled w = (Inr False, w') \<and>
    db w' = fold (stored e E) (take n (drop (p_next (part (redis w))) (p_msgs (part (redis w))))) (db w) \<and>
    p_msgs (part (redis w')) = p_msgs (part (redis w)) \<and>
    p_next (part (redis w')) = p_next (part (redis w)) + n"
  using broker_and_redis.loop_stores[OF assms(2,3,1,4,5,6)] by (simp add: window_def)

definition sample_msg :: "string \<Rightarrow> kafka_message" where
  "sample_msg s = \<lparr>km_key = ''svc'', km_value = s, km_time = 0\<rparr>"

definition sample_entries :: "(string \<times> LogEntry) list" where
  "sample_entries = [(''m1'', sample_entry), (''m2'', sample_entry\<lparr>le_ID := ''e''\<rparr>)]"

text \<open>A partition with two messages nobody has fetched\<close>

definition two_messages :: "outside world" where
  "two_messages = \<lparr>db = db sample_log_world,
     redis = \<lparr>o_keys = Map.empty, o_part = \<lparr>p_msgs = [sample_msg ''m1'', sample_msg ''m2''], p_next = 0, p_done = 0\<rparr>\<rparr>,
     tick = 0\<rparr>"

theorem consumer_refines_witness:
  "\<exists>w'. consumer_loop 2 sample_env outside_kafka (table_codec sample_entries) (store_of outside_redis True) (\<lambda>_. False)
      two_messages = (Inr False, w') \<and>
    p_next (o_part (redis w')) = 2"
  using consumer_refines[OF out_kafka.healthy_broker_axioms out_both.broker_and_redis_axioms uses_client_store,
      of sample_env "\<lambda>_. False" 2 two_messages "table_codec sample_entries" True]
  by (auto simp: sample_env_simps two_messages_def)

text \<open>
  C5: whatever fails, and however often the consumer starts again: the table never holds an
  entry twice, and every entry it holds was there at the start or is the row some message of the
  partition asks for; messages are never lost from the partition, and the committed offset never
  passes the reader.
\<close>

theorem pipeline_keeps_entries:
  assumes "broker_and_redis K part C" and "(pipeline_step e K part C E)\<^sup>*\<^sup>* w w'"
    and "distinct (map l_id (logs (db w)))" and "p_done (part (redis w)) \<le> p_next (part (redis w))"
    and "p_next (part (redis w)) \<le> length (p_msgs (part (redis w)))"
  shows "distinct (map l_id (logs (db w'))) \<and>
    (\<forall>r \<in> set (logs (db w')). r \<in> set (logs (db w)) \<or>
       (\<exists>m \<in> set (p_msgs (part (redis w'))). row_of e E m = Some r)) \<and>
    prefix (p_msgs (part (redis w))) (p_msgs (part (redis w'))) \<and>
    p_done (part (redis w')) \<le> p_next (part (redis w')) \<and>
    p_next (part (redis w')) \<le> length (p_msgs (part (redis w')))"
proof -
  have "sourced e E (set (logs (db w))) (part (redis w)) (db w)" using assms(3-5) by (simp add: sourced_def)
  from broker_and_redis.steps_sourced[OF assms(1,2) this] show ?thesis by (simp add: sourced_def)
qed

theorem pipeline_keeps_entries_witness:
  "\<exists>w'. consume_once sample_env outside_kafka (table_codec sample_entries) (store_of outside_redis True) (\<lambda>_. False)
      two_messages = (Inr True, w') \<and> distinct (map l_id (logs (db w')))"
proof -
  obtain r w' where c: "consume_once sample_env outside_kafka (table_codec sample_entries) (store_of outside_redis True)
      (\<lambda>_. False) two_messages = (r, w')" by fastforce
  have "pipeline_step sample_env outside_kafka o_part outside_redis (table_codec sample_entries) two_messages w'"
    by (rule pipeline_step.consume[OF uses_client_store c])
  from pipeline_keeps_entries[OF out_both.broker_and_redis_axioms r_into_rtranclp[where r = "pipeline_step _ _ _ _ _", OF this]]
  have d: "distinct (map l_id (logs (db w')))"
    by (simp add: two_messages_def sample_log_world_def sample_log_def)
  from uses_client_store c have "r = Inr True"
    by (cases rule: out_both.consume_once_effect)
       (auto simp: two_messages_def outside_kafka_def Let_def)
  then show ?thesis using c d by blast
qed

text \<open>
  C6: an answer of the ingestor means what it says. Accepted: the key was resolved, and the
  partition holds one more message, the entry of the request under the returned identifier, for
  the organization and service of the key, with a valid severity and a message of 1 to 65536
  bytes. Refused with anything but 503: the partition is as it was. The database never changes.
\<close>

theorem IngestLog_answers:
  assumes "broker_and_redis K part C" and "broker_and_redis.wired K C e h"
    and "IngestLog e J E h body c w = (a, w')"
  shows "db w' = db w \<and>
    (case a of
       Failure s t \<Rightarrow> s = 503 \<or> s \<in> {400, 401, 429} \<and> part (redis w') = part (redis w)
     | Success n i \<Rightarrow> n = 200 \<and>
         (\<exists>raw res w0 req x m. auth_header c = ''Bearer '' @ raw \<and>
            Resolve e J (ih_keyCache h) raw w = (Inr res, w0) \<and> body = Some req \<and>
            part (redis w') = appended m (part (redis w)) \<and> ec_Marshal E x = Some (km_value m) \<and>
            le_ID x = i \<and> le_OrgID x = ra_OrgID res \<and> le_ServiceID x = ra_ServiceID res \<and>
            le_Severity x \<in> {''DEBUG'', ''INFO'', ''WARN'', ''ERROR'', ''FATAL''} \<and>
            le_Message x = ir_Message req \<and> 1 \<le> length (le_Message x) \<and> length (le_Message x) \<le> 65536 \<and>
            (\<forall>t. ir_Timestamp req = Some t \<longrightarrow> le_Timestamp x = t)))"
proof (cases rule: broker_and_redis.IngestLog_cases[OF assms, case_names refused broken queued])
  case (queued raw res w0 req sev x m w1)
  have "1 \<le> length (ir_Message req) \<and> length (ir_Message req) \<le> 65536 \<and>
      sev \<in> {''DEBUG'', ''INFO'', ''WARN'', ''ERROR'', ''FATAL''}"
    using queued(4) by (auto simp: check_request_Inr MaxMessageBytes_def IsValidSeverity_def ValidSeverities_def Suc_le_eq)
  moreover have "le_OrgID x = ra_OrgID res" "le_ServiceID x = ra_ServiceID res" "le_Severity x = sev"
      "le_Message x = ir_Message req" "\<forall>t. ir_Timestamp req = Some t \<longrightarrow> le_Timestamp x = t"
    using queued(5) by (auto simp: build_entry_eq)
  ultimately show ?thesis
    unfolding queued(6) reply.case
    by (intro conjI exI[of _ raw] exI[of _ res] exI[of _ w0] exI[of _ req] exI[of _ x] exI[of _ m]; use queued in simp)
qed auto

text \<open>A world with a key, a handler, a request, and the entry it becomes\<close>

definition ingest_world :: "outside world" where
  "ingest_world = \<lparr>db = sample_key_db,
     redis = \<lparr>o_keys = Map.empty, o_part = \<lparr>p_msgs = [], p_next = 0, p_done = 0\<rparr>\<rparr>, tick = 0\<rparr>"

definition ingest_handler :: "outside IngestHandler" where
  "ingest_handler =
     \<lparr>ih_keyCache = \<lparr>kc_redis = store_of outside_redis True, kc_lookup = KeyLookup sample_env,
        prefixTTL = 300 * Second, validationTTL = 120 * Second\<rparr>,
      ih_producer = outside_kafka, ih_limiter = \<lparr>lim_store = None, lim_enabled = False\<rparr>,
      ih_limits = LoadConfig (\<lambda>k. [])\<rparr>"

definition ingest_request :: IngestRequest where
  "ingest_request = \<lparr>ir_Timestamp = Some 1500, ir_Severity = ''ERROR'', ir_Message = ''disk full'', ir_Metadata = None\<rparr>"

definition ingest_ctx :: ctx where
  "ingest_ctx = \<lparr>auth_header = ''Bearer ll_bbbbbbbb_1'', ctx_user = None, ctx_role = None, ctx_org_role = None, p_id = [],
     p_serviceId = [], p_keyId = [], p_logId = [], real_ip = []\<rparr>"

definition ingest_entry :: LogEntry where
  "ingest_entry = \<lparr>le_ID = ''u0000000000'', le_OrgID = ''org'', le_ServiceID = ''svc'', le_Timestamp = 1500,
     le_Severity = ''ERROR'', le_Message = ''disk full'', le_Metadata = None, le_IngestedAt = 9000000000\<rparr>"

abbreviation ingest_codec :: entry_codec where
  "ingest_codec \<equiv> table_codec [(''m'', ingest_entry)]"

lemma ingest_resolves:
  "\<exists>w'. Resolve sample_env sample_codecs (ih_keyCache ingest_handler) ''ll_bbbbbbbb_1'' ingest_world =
     (Inr \<lparr>ra_ID = ''k1'', ra_ServiceID = ''svc'', ra_OrgID = ''org''\<rparr>, w') \<and> tick w' = 6 \<and>
     db w' = db ingest_world \<and> o_part (redis w') = o_part (redis ingest_world)"
proof -
  have x: "ExtractAPIKeyPrefix ''ll_bbbbbbbb_1'' = Inr ''ll_bbbbbbbb''"
    by (simp add: ExtractAPIKeyPrefix_def HasPrefix_def TrimPrefix_def api_key_consts Let_def numeral_eq_Suc)
  show ?thesis
    by (simp add: Resolve_def x resolve_slow_def loadRecord_def KeyLookup_def GetActiveAPIKeyByPrefix_def
        active_key_def scan_key_def prefixKey_def revokedKey_def validationKey_def ValidateAPIKey_def
        ingest_handler_def ingest_world_def sample_key_db_def sample_org_db_def outside_redis_def run_defs duration_defs
        coalesce_def run_rules cong: run_congs)
qed

lemma ingest_wired: "out_both.wired sample_env ingest_handler"
  by (simp add: out_both.wired_def ingest_handler_def) (simp add: uses_client_def)

lemma ingest_runs:
  assumes enc: "ec_Marshal E (ingest_entry\<lparr>le_Metadata := Some [],
      le_Timestamp := (case ts of None \<Rightarrow> 8000000000 | Some t \<Rightarrow> t)\<rparr>) = Some ''m''"
  shows "\<exists>w'. IngestLog sample_env sample_codecs E ingest_handler (Some (ingest_request\<lparr>ir_Timestamp := ts\<rparr>)) ingest_ctx ingest_world =
     (Success 200 ''u0000000000'', w') \<and>
     o_part (redis w') = appended \<lparr>km_key = ''svc'', km_value = ''m'', km_time = 11000000000\<rparr> (o_part (redis ingest_world)) \<and>
     db w' = db ingest_world"
proof -
  have bearer: "bearerToken (auth_header ingest_ctx) = Inr ''ll_bbbbbbbb_1''"
    by (simp add: bearerToken_Inr ingest_ctx_def)
  obtain w0 where res: "Resolve sample_env sample_codecs (ih_keyCache ingest_handler) ''ll_bbbbbbbb_1'' ingest_world =
     (Inr \<lparr>ra_ID = ''k1'', ra_ServiceID = ''svc'', ra_OrgID = ''org''\<rparr>, w0)" and w0: "tick w0 = 6"
     "db w0 = db ingest_world" "o_part (redis w0) = o_part (redis ingest_world)"
    using ingest_resolves by blast
  have lim: "AllowIngest sample_env (ih_limiter ingest_handler) ''org'' (ih_limits ingest_handler) w0 =
      (Inr (), w0\<lparr>tick := 8\<rparr>)"
    by (simp add: AllowIngest_def key_defs call_def Now_def Allow_def ret_def ingest_handler_def w0)
  have sev: "check_request sample_env (ingest_request\<lparr>ir_Timestamp := ts\<rparr>) = Inr ''ERROR''"
  proof -
    have "TrimSpace ''ERROR'' = ''ERROR''" "ToUpper (uni_upper sample_env) ''ERROR'' = ''ERROR''"
      by code_simp (simp add: ToUpper_def ascii_def ascii_upper_def)
    then show ?thesis
      by (simp add: check_request_def ingest_request_def IsValidSeverity_def ValidSeverities_def MaxMessageBytes_def)
  qed
  let ?res = "\<lparr>ra_ID = ''k1'', ra_ServiceID = ''svc'', ra_OrgID = ''org''\<rparr>"
  let ?x = "ingest_entry\<lparr>le_Metadata := Some [], le_Timestamp := (case ts of None \<Rightarrow> 8000000000 | Some t \<Rightarrow> t)\<rparr>"
  have zeros: "uuid sample_env 10 = ''u0000000000''" by (simp add: sample_env_simps eval_nat_numeral)
  have build: "build_entry sample_env ?res ''ERROR'' (ingest_request\<lparr>ir_Timestamp := ts\<rparr>) (w0\<lparr>tick := 8\<rparr>) = (Inr ?x, w0\<lparr>tick := 11\<rparr>)"
    by (simp add: build_entry_eq ingest_request_def ingest_entry_def zeros sample_env_simps(1) cong: option.case_cong)
  let ?m = "\<lparr>km_key = ''svc'', km_value = ''m'', km_time = 11000000000\<rparr>"
  let ?w = "w0\<lparr>tick := 13, redis := (redis w0)\<lparr>o_part := appended ?m (o_part (redis w0))\<rparr>\<rparr>"
  have pub: "Publish sample_env (ih_producer ingest_handler) E ?x (w0\<lparr>tick := 11\<rparr>) = (Inr (), ?w)"
    unfolding Publish_def enc option.case
    by (simp add: call_def Now_def with_kafka_def ingest_handler_def outside_kafka_def ingest_entry_def sample_env_simps)
  have "ingest_body sample_env E ingest_handler (Some (ingest_request\<lparr>ir_Timestamp := ts\<rparr>)) ?res (w0\<lparr>tick := 8\<rparr>) =
      (Success 200 ''u0000000000'', ?w)"
    by (simp add: ingest_body_def with_body_def sev respond_def publish_request_def call_def build pub ret_def)
       (simp add: ingest_entry_def)
  then show ?thesis
    using w0 by (simp add: IngestLog_def bearer guard_def res limit_ingest_def lim)
qed

lemma ingest_accepted:
  "\<exists>w'. IngestLog sample_env sample_codecs ingest_codec ingest_handler (Some ingest_request) ingest_ctx ingest_world =
     (Success 200 ''u0000000000'', w') \<and>
     o_part (redis w') = appended \<lparr>km_key = ''svc'', km_value = ''m'', km_time = 11000000000\<rparr> (o_part (redis ingest_world)) \<and>
     db w' = db ingest_world"
  using ingest_runs[of ingest_codec "Some 1500"]
  by (simp add: table_codec_def MarshalJSON_def ingest_entry_def ingest_request_def)

theorem IngestLog_answers_witness:
  "\<exists>w' m. IngestLog sample_env sample_codecs ingest_codec ingest_handler (Some ingest_request) ingest_ctx ingest_world =
     (Success 200 ''u0000000000'', w') \<and> p_msgs (o_part (redis w')) = [m] \<and>
     ec_Marshal ingest_codec ingest_entry = Some (km_value m)"
proof -
  obtain w' where i: "IngestLog sample_env sample_codecs ingest_codec ingest_handler (Some ingest_request) ingest_ctx
      ingest_world = (Success 200 ''u0000000000'', w')"
    using ingest_accepted by blast
  obtain x m where "o_part (redis w') = appended m (o_part (redis ingest_world))"
    and "ec_Marshal ingest_codec x = Some (km_value m)"
    using IngestLog_answers[OF out_both.broker_and_redis_axioms ingest_wired i] by auto
  then have "p_msgs (o_part (redis w')) = [m]" "ec_Marshal ingest_codec ingest_entry = Some (km_value m)"
    by (simp_all add: ingest_world_def appended_def table_codec_def MarshalJSON_def ingest_entry_def split: if_splits)
  then show ?thesis using i by blast
qed



definition flaky_env :: env where
  "flaky_env = sample_env\<lparr>pg_fault := (\<lambda>n. if n = 1 then Some ''57P01'' else None)\<rparr>"

text \<open>The consumer on the two messages, and its restart once the broker has its commits\<close>

definition consumer_on :: "nat \<Rightarrow> (outside, bool) app" where
  "consumer_on n = consumer_loop n flaky_env outside_kafka (table_codec sample_entries) (store_of outside_redis True) (\<lambda>_. False)"

definition restart_consumer :: "outside world \<Rightarrow> outside world" where
  "restart_consumer w = w\<lparr>redis := (redis w)\<lparr>o_part := restarted (p_done (o_part (redis w))) (o_part (redis w))\<rparr>\<rparr>"

lemma flaky_simps:
  "pg_fault flaky_env n = (if n = 1 then Some ''57P01'' else None)" "pg_uuid flaky_env s = Some s"
  by (simp_all add: flaky_env_def sample_env_def)

definition sample_parts :: "nat \<Rightarrow> nat \<Rightarrow> outside" where
  "sample_parts nxt dn = \<lparr>o_keys = Map.empty,
     o_part = \<lparr>p_msgs = [sample_msg ''m1'', sample_msg ''m2''], p_next = nxt, p_done = dn\<rparr>\<rparr>"

lemma sample_row:
  "row_of flaky_env (table_codec sample_entries) (sample_msg ''m1'') = Some (sample_log ''d'' 4000
     \<lparr>l_severity := ''WARN'', l_message := ''hello'', l_ingested_at := 5000\<rparr>)"
  "row_of flaky_env (table_codec sample_entries) (sample_msg ''m2'') = Some (sample_log ''e'' 4000
     \<lparr>l_severity := ''WARN'', l_message := ''hello'', l_ingested_at := 5000\<rparr>)"
  by (simp_all add: row_of_def decoded_def table_codec_def sample_entries_def sample_msg_def sample_entry_def entry_row_def
      flaky_simps pg_time_def sample_log_def)

lemma lost_first:
  "consume_once flaky_env outside_kafka (table_codec sample_entries) (store_of outside_redis True) (\<lambda>_. False) two_messages =
     (Inr True, two_messages\<lparr>redis := sample_parts 1 0, tick := 3\<rparr>)"
  by (simp add: consume_once_def attempt_def Fetch_def with_kafka_def outside_kafka_def two_messages_def table_codec_def
      sample_entries_def sample_msg_def sample_entry_def call_def ret_def consume_entry_def InsertLogs_def pg_def flaky_simps
      Sleep_def Let_def fetched_def sample_parts_def)

lemma kept_second:
  "\<exists>d. consume_once flaky_env outside_kafka (table_codec sample_entries) (store_of outside_redis True) (\<lambda>_. False)
      (two_messages\<lparr>redis := sample_parts 1 0, tick := 3\<rparr>) =
     (Inr True, two_messages\<lparr>redis := sample_parts 2 2, tick := 7, db := d\<rparr>) \<and>
     d = stored flaky_env (table_codec sample_entries) (sample_msg ''m2'') (db two_messages)"
proof -
  let ?x = "sample_entry\<lparr>le_ID := ''e''\<rparr>\<lparr>le_Metadata := Some []\<rparr>"
  let ?d = "stored flaky_env (table_codec sample_entries) (sample_msg ''m2'') (db two_messages)"
  have dec: "decoded (table_codec sample_entries) (sample_msg ''m2'') = Some ?x"
    by (simp add: decoded_def table_codec_def sample_entries_def sample_msg_def sample_entry_def)
  have acc: "accepts (the (row_of flaky_env (table_codec sample_entries) (sample_msg ''m2''))) (db two_messages)"
    by (simp add: sample_row accepts_def two_messages_def sample_log_world_def sample_log_def)
  have "logs ?d \<noteq> logs (db two_messages)" using acc sample_row by (simp add: stored_def)
  then have "?d \<noteq> db two_messages" by auto
  then have ins: "insert_entry flaky_env ?x t u (db two_messages) = (Inr (), ?d)" for t u
    using insert_entry_stored[OF dec, of flaky_env t u "db two_messages"] by (auto simp: sample_entry_def)
  have "InsertLogs flaky_env [?x] (two_messages\<lparr>redis := sample_parts 2 0, tick := 4\<rparr>) =
      (Inr (), two_messages\<lparr>redis := sample_parts 2 0, tick := 5, db := ?d\<rparr>)"
    by (simp add: InsertLogs_def pg_def flaky_simps ins Let_def)
  moreover have "Fetch outside_kafka (table_codec sample_entries) (two_messages\<lparr>redis := sample_parts 1 0, tick := 3\<rparr>) =
      (Inr (?x, 1), two_messages\<lparr>redis := sample_parts 2 0, tick := 4\<rparr>)"
    by (simp add: Fetch_def with_kafka_def outside_kafka_def sample_parts_def table_codec_def sample_entries_def
        sample_msg_def sample_entry_def call_def ret_def Let_def fetched_def)
  moreover have "Commit outside_kafka 1 (two_messages\<lparr>redis := sample_parts 2 0, tick := 5, db := d\<rparr>) =
      (Inr (), two_messages\<lparr>redis := sample_parts 2 2, tick := 6, db := d\<rparr>)" for d
    by (simp add: Commit_def with_kafka_def outside_kafka_def sample_parts_def committed_def)
  moreover obtain r where "PublishLog flaky_env (store_of outside_redis True) (table_codec sample_entries) ?x
      (two_messages\<lparr>redis := sample_parts 2 2, tick := 6, db := ?d\<rparr>) =
      (r, two_messages\<lparr>redis := sample_parts 2 2, tick := 7, db := ?d\<rparr>)"
    by (simp add: PublishLog_def usable_store_of with_client_store_of outside_redis_def table_codec_def MarshalJSON_def
        sample_entries_def sample_entry_def)
  ultimately show ?thesis
    by (auto simp: consume_once_def attempt_def consume_entry_def sample_entry_def ret_def)
qed

text \<open>
  C40: an entry can be lost: when the insertion of one message fails for a moment and the next
  one is stored, the commit of the second covers the first, so once the broker has it, however often the
  consumer starts again and however long it runs, the first entry, which the table would have accepted, is never
  stored.
\<close>

theorem failed_insert_lost:
  "\<exists>w1. consumer_on 2 two_messages = (Inr False, w1) \<and> ''e'' \<in> l_id ` set (logs (db w1)) \<and>
    accepts (the (row_of flaky_env (table_codec sample_entries) (sample_msg ''m1''))) (db w1) \<and>
    l_id (the (row_of flaky_env (table_codec sample_entries) (sample_msg ''m1''))) = ''d'' \<and>
    (\<forall>n. ''d'' \<notin> l_id ` set (logs (db (snd (consumer_on n (restart_consumer w1))))))"
proof -
  let ?d = "stored flaky_env (table_codec sample_entries) (sample_msg ''m2'') (db two_messages)"
  let ?w = "two_messages\<lparr>redis := sample_parts 2 2, tick := 7, db := ?d\<rparr>"
  have run: "consumer_on 2 two_messages = (Inr False, ?w)"
    using lost_first kept_second by (simp add: consumer_on_def call_def numeral_2_eq_2)
  have rows: "l_id ` set (logs ?d) = {''a'', ''b'', ''c'', ''e''}"
    by (auto simp: stored_def sample_row accepts_def two_messages_def sample_log_world_def sample_log_def)
  have "db (snd (consumer_on n (restart_consumer ?w))) = ?d" for n
  proof -
    obtain r w' where c: "consumer_on n (restart_consumer ?w) = (r, w')" by fastforce
    from out_both.loop_effect[OF uses_client_store c[unfolded consumer_on_def]] have "db w' = ?d"
      by (auto simp: window_def restart_consumer_def restarted_def sample_parts_def dest!: list_emb_Nil2)
    then show ?thesis using c by simp
  qed
  then show ?thesis
    using run rows by (simp add: sample_row accepts_def) (simp add: two_messages_def sample_log_world_def sample_log_def)
qed

text \<open>
  C39: retention deletes exactly the entries older than the configured number of hours, for up
  to 2562047 hours (292 years); one hour more overflows the duration, the cutoff lies 292 years in the
  future, and every entry older than that is deleted, the ones just stored included.
\<close>

theorem runOnce_retention:
  assumes "retentionHours getenv = hours" and "pg_fault e (Suc (tick w)) = None" and "runOnce e hours w = (r, w')"
  shows "0 < hours \<and>
    (hours \<le> 2562047 \<longrightarrow>
       logs (db w') = filter (\<lambda>x. pg_time (clk e (tick w) - hours * Hour) \<le> l_timestamp x) (logs (db w))) \<and>
    (hours = 2562048 \<longrightarrow>
       logs (db w') = filter (\<lambda>x. pg_time (clk e (tick w) + 9223371273709551616) \<le> l_timestamp x) (logs (db w)))"
proof -
  have range: "0 < hours" "hours < 2 ^ 63"
    using assms(1) Atoi_range by (auto simp: retentionHours_def Let_def split: if_splits option.splits)
  have logs': "logs (db w') = filter (\<lambda>x. pg_time (clk e (tick w) + wrap64 (- hours * Hour)) \<le> l_timestamp x) (logs (db w))"
  proof -
    have "wrap64 (- hours) = - hours" using range by (intro wrap64_id) simp_all
    then show ?thesis using assms(2,3) unfolding runOnce_eq by auto
  qed
  have "wrap64 (- hours * Hour) = - (hours * Hour)" if "hours \<le> 2562047"
    using that range by (subst wrap64_id) (auto simp: duration_defs)
  moreover have "wrap64 (- 2562048 * Hour) = 9223371273709551616" by (simp add: wrap64_def duration_defs)
  ultimately show ?thesis using logs' range by auto
qed

theorem runOnce_retention_witness:
  "\<exists>w'. runOnce sample_env 2562048 (sample_log_world\<lparr>tick := 0\<rparr>) = (Inr (), w') \<and> logs (db w') = []"
proof -
  have h: "retentionHours (\<lambda>_. ''2562048'') = 2562048" by (simp add: retentionHours_def Atoi_def digit_val_def)
  obtain w' where r: "runOnce sample_env 2562048 (sample_log_world\<lparr>tick := 0\<rparr>) = (Inr (), w')"
    unfolding runOnce_eq by blast
  have "logs (db w') = filter (\<lambda>x. pg_time (clk sample_env 0 + 9223371273709551616) \<le> l_timestamp x)
      (logs (db sample_log_world))"
    using runOnce_retention[OF h _ r] by (simp add: sample_env_simps)
  then show ?thesis
    using r by (simp add: sample_env_simps sample_log_world_def sample_log_def pg_time_def)
qed



end
