(* ===== verification/Sdk_Props.thy ===== *)
theory Sdk_Props
  imports Sdk Pipeline_Props
begin

text \<open>
  From the client library to the broker: what a call of the SDK that returns no error has done on
  the side of the ingestor.
\<close>

section \<open>The two ends\<close>




section \<open>Properties\<close>











end
