(* ===== verification/Stream.thy ===== *)
theory Stream
  imports Service Telemetry
begin

text \<open>
  internal/stream: the endpoint that forwards the live channel of a service to a WebSocket. The
  WebSocket library and the subscription are parameters.
\<close>

datatype ws_frame = TextFrame string | CloseFrame nat string

text \<open>
  \<open>Upgrade\<close>, which answers the request itself when it fails, \<open>WriteMessage\<close>, which tells
  whether it succeeded, and \<open>ReceiveMessage\<close> of the subscription to a channel
\<close>

record 'r ws_lib =
  ws_upgrade :: "'r \<Rightarrow> (nat \<times> string + unit) \<times> 'r"
  ws_write :: "ws_frame \<Rightarrow> 'r \<Rightarrow> bool \<times> 'r"
  sub_receive :: "string \<Rightarrow> 'r \<Rightarrow> (string + string) \<times> 'r"

definition with_outside :: "('r \<Rightarrow> 'a \<times> 'r) \<Rightarrow> ('r, 'a) app" where
  "with_outside op w = (case op (redis w) of (v, s) \<Rightarrow> (Inr v, w\<lparr>redis := s, tick := Suc (tick w)\<rparr>))"

text \<open>
  The loop, at most \<open>n\<close> iterations: \<open>True\<close> when it returned, \<open>False\<close> when it is still running.
  \<open>cancelled\<close> tells whether the request was cancelled when it is looked at.
\<close>

fun stream_loop :: "nat \<Rightarrow> 'r ws_lib \<Rightarrow> (nat \<Rightarrow> bool) \<Rightarrow> string \<Rightarrow> ('r, bool) app" where
  "stream_loop 0 L cancelled channel w = (Inr False, w)"
| "stream_loop (Suc n) L cancelled channel w =
     call (with_outside (sub_receive L channel)) (\<lambda>msg w1.
       case msg of
         Inl _ \<Rightarrow>
           if cancelled (tick w1) then (Inr True, w1)
           else call (with_outside (ws_write L (CloseFrame 1011 ''stream error''))) (\<lambda>_. ret True) w1
       | Inr payload \<Rightarrow>
           call (with_outside (ws_write L (TextFrame payload))) (\<lambda>ok.
             if ok then stream_loop n L cancelled channel else ret True) w1) w"

text \<open>Every error of the service is answered 403. The answer to an upgraded request is 101.\<close>

definition StreamServiceLogs ::
    "nat \<Rightarrow> env \<Rightarrow> 'r ws_lib \<Rightarrow> 'r RedisStore option \<Rightarrow> 'r ServiceService \<Rightarrow> (nat \<Rightarrow> bool) \<Rightarrow> ('r, bool) endpoint" where
  "StreamServiceLogs n e L rs s cancelled c =
     with_user c (\<lambda>userID.
       guard (\<lambda>_. Failure 403 ''not an organization member'') (GetService e s (p_id c) (p_serviceId c) userID) (\<lambda>_.
         if \<not> usable rs then answer (Failure 503 ''live stream unavailable'')
         else (\<lambda>w.
           case ws_upgrade L (redis w) of
             (Inl (status, text), r) \<Rightarrow> (Failure status text, w\<lparr>redis := r, tick := Suc (tick w)\<rparr>)
           | (Inr _, r) \<Rightarrow>
               respond 101 (\<lambda>_. internal_error) (\<lambda>x. x)
                 (stream_loop n L cancelled (ServiceChannel (p_serviceId c)))
                 (w\<lparr>redis := r, tick := Suc (tick w)\<rparr>))))"

end
