(* ===== verification/Stream_Props.thy ===== *)
theory Stream_Props
  imports Stream Service_Props
begin

text \<open>
  What the live stream promises: only a member of the organization gets one, of a service of that
  organization, and what is written to the socket is what the channel delivered, in its order.
\<close>

section \<open>What is relayed\<close>





section \<open>The contract of the socket and the subscription\<close>





section \<open>A socket that meets the contract\<close>









section \<open>Properties\<close>



end
