(* ===== verification/Api_Server.thy ===== *)
theory Api_Server
  imports User Middleware Org Key_Cache Telemetry Ai Stream
begin

text \<open>
  cmd/api: the server, that is its routes, each with its middleware in the order the groups apply
  it, over the components the program wires together. A route carries the decoded body of the
  request, \<open>None\<close> when it does not decode.
\<close>

section \<open>The server\<close>

text \<open>\<open>'f\<close> is the type of the floating-point numbers of the AI answers.\<close>

record ('r, 'f) api_server =
  sv_env :: env
  sv_tokens :: "'r TokenManager"
  sv_limiter :: "'r Limiter"
  sv_limits :: Config
  sv_users :: "'r UserService"
  sv_orgs :: "'r OrgService"
  sv_services :: "'r ServiceService"
  sv_redis :: "'r RedisStore option"
  sv_search :: search_lib
  sv_ws :: "'r ws_lib"
  sv_ai :: "'r AiHandler option"
  sv_encoder :: logs_encoder
  sv_nlq :: "nlqAIResponse decoder"
  sv_summary :: "'f summarizeResponse decoder"
  sv_investigation :: "'f investigateResponse decoder"
  sv_zero :: 'f

text \<open>The services share the role query of the organizations.\<close>

definition sv_access :: "('r, 'f) api_server \<Rightarrow> 'r OrgAccess" where
  "sv_access S = GetOrgMemberRole (sv_env S)"

datatype 'f api_body =
    TokensBody AuthTokens | TextBody string
  | OrgBody CreateOrgResponse | OrgsBody "CreateOrgResponse list" | OrgDetailBody OrgDetailResponse
  | InviteBody SendInviteResponse | JoinBody JoinResponse | CodeBody InviteCodeResponse
  | ServiceBody ServiceResponse | ServicesBody "ServiceResponse list"
  | NewKeyBody CreateAPIKeyResponse | KeyBody APIKeyResponse | KeysBody "APIKeyResponse list"
  | LogBody LogEntry | SearchBody SearchResult
  | NLQBody nlqResponse | SummaryBody "'f summarizeResponse" | InvestigationBody "'f investigateResponse"
  | StreamBody bool

definition via :: "('a \<Rightarrow> 'b) \<Rightarrow> ('r, 'a) endpoint \<Rightarrow> ('r, 'b) endpoint" where
  "via f h c w = (case h c w of (r, w') \<Rightarrow> (map_reply f r, w'))"

section \<open>Groups\<close>

definition authGroup :: "('r, 'f) api_server \<Rightarrow> ('r, 'a) endpoint \<Rightarrow> ('r, 'a) endpoint" where
  "authGroup S h = RateLimitByIP (sv_env S) (sv_limiter S) ''auth'' (AuthPerIPMinute (sv_limits S)) h"

definition orgsGroup :: "('r, 'f) api_server \<Rightarrow> ('r, 'a) endpoint \<Rightarrow> ('r, 'a) endpoint" where
  "orgsGroup S h =
     RequireAuth (sv_tokens S)
       (RateLimitByUser (sv_env S) (sv_limiter S) ''api-user'' (APIPerUserMinute (sv_limits S))
         (RateLimitByIP (sv_env S) (sv_limiter S) ''api-ip'' (APIPerIPMinute (sv_limits S)) h))"

definition aiGroup :: "('r, 'f) api_server \<Rightarrow> ('r, 'a) endpoint \<Rightarrow> ('r, 'a) endpoint" where
  "aiGroup S h =
     orgsGroup S (RequireOrgMember (sv_access S)
       (RateLimitByOrgPerDay (sv_env S) (sv_limiter S) ''ai'' (AIRequestsPerOrgDay (sv_limits S)) h))"

definition servicesGroup :: "('r, 'f) api_server \<Rightarrow> ('r, 'a) endpoint \<Rightarrow> ('r, 'a) endpoint" where
  "servicesGroup S h = orgsGroup S (RequireOrgMember (sv_access S) h)"

definition servicesWriteGroup :: "('r, 'f) api_server \<Rightarrow> ('r, 'a) endpoint \<Rightarrow> ('r, 'a) endpoint" where
  "servicesWriteGroup S h = servicesGroup S (RequireOrgDeveloper (sv_access S) h)"

section \<open>Routes\<close>

datatype api_route =
    R_Health
  | R_Register "registerRequest option" | R_Login "registerRequest option"
  | R_Refresh "string option" | R_Logout "string option"
  | R_CreateOrganization "string option" | R_ListMyOrgs
  | R_JoinViaToken "string option" | R_JoinViaCode "string option"
  | R_GetOrganization | R_SendEmailInvite "sendInviteRequest option" | R_GenerateInviteCode
  | R_SearchLogs query_params | R_GetLogByOrg
  | R_NLQ "nlqRequest option" | R_Summarize "summarizeRequest option" | R_Investigate "investigateRequest option"
  | R_ListServices | R_GetService | R_GetLog | R_StreamServiceLogs nat "nat \<Rightarrow> bool"
  | R_CreateService "createServiceRequest option" | R_UpdateService "createServiceRequest option"
  | R_DeleteService | R_GenerateAPIKey "string option" | R_ListAPIKeys | R_RevokeAPIKey | R_RotateAPIKey

text \<open>Without both providers the routes of the group do not exist.\<close>

definition with_ai_routes :: "('r, 'f) api_server \<Rightarrow> ('r AiHandler \<Rightarrow> ('r, 'a) endpoint) \<Rightarrow> ('r, 'a) endpoint" where
  "with_ai_routes S h =
     (case sv_ai S of None \<Rightarrow> orgsGroup S (\<lambda>c. answer (Failure 404 ''Not Found'')) | Some ai \<Rightarrow> aiGroup S (h ai))"

fun serve :: "('r, 'f) api_server \<Rightarrow> api_route \<Rightarrow> ('r, 'f api_body) endpoint" where
  "serve S R_Health = via TextBody telemetry_Health"
| "serve S (R_Register b) = authGroup S (via TokensBody (\<lambda>c. Register_handler (sv_env S) (sv_users S) b))"
| "serve S (R_Login b) = authGroup S (via TokensBody (\<lambda>c. Login_handler (sv_env S) (sv_users S) b))"
| "serve S (R_Refresh b) = authGroup S (via TokensBody (\<lambda>c. Refresh_handler (sv_env S) (sv_users S) b))"
| "serve S (R_Logout b) =
     authGroup S (RequireAuth (sv_tokens S) (via TextBody (\<lambda>c. Logout_handler (sv_env S) (sv_users S) b)))"
| "serve S (R_CreateOrganization b) =
     orgsGroup S (via OrgBody (CreateOrganization_handler (sv_env S) (sv_orgs S) b))"
| "serve S R_ListMyOrgs = orgsGroup S (via OrgsBody (ListMyOrgs_handler (sv_env S) (sv_orgs S)))"
| "serve S (R_JoinViaToken b) = orgsGroup S (via JoinBody (JoinViaToken_handler (sv_env S) (sv_orgs S) b))"
| "serve S (R_JoinViaCode b) = orgsGroup S (via JoinBody (JoinViaCode_handler (sv_env S) (sv_orgs S) b))"
| "serve S R_GetOrganization = orgsGroup S (via OrgDetailBody (GetOrganization_handler (sv_env S) (sv_orgs S)))"
| "serve S (R_SendEmailInvite b) =
     orgsGroup S (RequireOrgAdmin (sv_env S) (via InviteBody (SendEmailInvite_handler (sv_env S) (sv_orgs S) b)))"
| "serve S R_GenerateInviteCode =
     orgsGroup S (RequireOrgAdmin (sv_env S) (via CodeBody (GenerateInviteCode_handler (sv_env S) (sv_orgs S))))"
| "serve S (R_SearchLogs qp) =
     orgsGroup S (RequireOrgMember (sv_access S) (via SearchBody (SearchLogs_handler (sv_env S) (sv_search S) qp)))"
| "serve S R_GetLogByOrg =
     orgsGroup S (RequireOrgMember (sv_access S) (via LogBody (GetLogByOrg_handler (sv_env S))))"
| "serve S (R_NLQ b) =
     with_ai_routes S (\<lambda>ai. via NLQBody (NLQ (sv_env S) (sv_search S) ai (sv_nlq S) b))"
| "serve S (R_Summarize b) =
     with_ai_routes S (\<lambda>ai. via SummaryBody (Summarize (sv_search S) (sv_encoder S) ai (sv_summary S) (sv_zero S) b))"
| "serve S (R_Investigate b) =
     with_ai_routes S (\<lambda>ai. RequireOrgDeveloper (sv_access S)
       (via InvestigationBody (Investigate (sv_search S) (sv_encoder S) ai (sv_investigation S) (sv_zero S) b)))"
| "serve S R_ListServices = servicesGroup S (via ServicesBody (ListServices_handler (sv_env S) (sv_services S)))"
| "serve S R_GetService = servicesGroup S (via ServiceBody (GetService_handler (sv_env S) (sv_services S)))"
| "serve S R_GetLog = servicesGroup S (via LogBody (GetLog_handler (sv_env S)))"
| "serve S (R_StreamServiceLogs n cancelled) =
     servicesGroup S (via StreamBody
       (StreamServiceLogs n (sv_env S) (sv_ws S) (sv_redis S) (sv_services S) cancelled))"
| "serve S (R_CreateService b) =
     servicesWriteGroup S (via ServiceBody (CreateService_handler (sv_env S) (sv_services S) b))"
| "serve S (R_UpdateService b) =
     servicesWriteGroup S (via ServiceBody (UpdateService_handler (sv_env S) (sv_services S) b))"
| "serve S R_DeleteService = servicesWriteGroup S (via TextBody (DeleteService_handler (sv_env S) (sv_services S)))"
| "serve S (R_GenerateAPIKey b) =
     servicesWriteGroup S (via NewKeyBody (GenerateAPIKey_handler (sv_env S) (sv_services S) b))"
| "serve S R_ListAPIKeys = servicesWriteGroup S (via KeysBody (ListAPIKeys_handler (sv_env S) (sv_services S)))"
| "serve S R_RevokeAPIKey = servicesWriteGroup S (via KeyBody (RevokeAPIKey_handler (sv_env S) (sv_services S)))"
| "serve S R_RotateAPIKey = servicesWriteGroup S (via NewKeyBody (RotateAPIKey_handler (sv_env S) (sv_services S)))"

definition api_port :: "(string \<Rightarrow> string) \<Rightarrow> string" where
  "api_port getenv = (let port = getenv ''PORT'' in if port = [] then ''8080'' else port)"

section \<open>Wiring\<close>

text \<open>
  What \<open>main\<close> puts together from the environment variables, the Redis handle and the libraries;
  it stops when a required variable is missing or malformed. The AI routes need both providers.
\<close>

record ('r, 'f) api_libs =
  al_jwt :: jwt_lib
  al_invites :: "InviteTokenPayload codec"
  al_ai :: "'r ai_lib"
  al_search :: search_lib
  al_ws :: "'r ws_lib"
  al_encoder :: logs_encoder
  al_nlq :: "nlqAIResponse decoder"
  al_summary :: "'f summarizeResponse decoder"
  al_investigation :: "'f investigateResponse decoder"
  al_zero :: 'f

definition ai_handler :: "(string \<Rightarrow> string) \<Rightarrow> 'r ai_lib \<Rightarrow> 'r AiHandler option" where
  "ai_handler getenv L =
     (case (NewGeminiClient getenv, NewOpenRouterClient getenv) of
        (Some g, Some o') \<Rightarrow> Some
          \<lparr>ai_orchestrator = \<lparr>primary = gemini_client L g, fallback = openrouter_client L o'\<rparr>,
           ai_fallbackModel = OpenRouterFallbackModel getenv\<rparr>
      | _ \<Rightarrow> None)"

definition api_main ::
    "env \<Rightarrow> (string \<Rightarrow> string) \<Rightarrow> ('r, 'f) api_libs \<Rightarrow> 'r RedisStore \<Rightarrow> err + ('r, 'f) api_server" where
  "api_main e getenv A redisStore =
     (case NewJWTService (getenv ''JWT_SECRET'') (getenv ''JWT_EXPIRY_HOURS'') of
        Inl x \<Rightarrow> Inl x
      | Inr j \<Rightarrow>
          (let tokens = jwt_manager e (al_jwt A) j; rs = Some redisStore; cfg = LoadConfig getenv in
           case NewService tokens (Some (RedisRefreshCache e rs)) (getenv ''REFRESH_TOKEN_EXPIRY_DAYS'') of
             Inl x \<Rightarrow> Inl x
           | Inr userSvc \<Rightarrow> Inr
               \<lparr>sv_env = e, sv_tokens = tokens, sv_limiter = NewLimiter rs cfg, sv_limits = cfg,
                sv_users = userSvc,
                sv_orgs = \<lparr>os_tokens = tokens, os_cache = Some (RedisInviteCache e (al_invites A) rs)\<rparr>,
                sv_services = \<lparr>ss_audit = Some (PostgresWriter e), ss_orgAccess = GetOrgMemberRole e,
                  ss_keyInvalidator = Some (Invalidate e (NewAPIKeyCache getenv rs (KeyLookup e)))\<rparr>,
                sv_redis = rs, sv_search = al_search A, sv_ws = al_ws A, sv_ai = ai_handler getenv (al_ai A),
                sv_encoder = al_encoder A, sv_nlq = al_nlq A, sv_summary = al_summary A,
                sv_investigation = al_investigation A, sv_zero = al_zero A\<rparr>))"

text \<open>\<open>main\<close> from its start: it ends without PostgreSQL, and goes on without Redis.\<close>

definition api_start ::
    "env \<Rightarrow> (string \<Rightarrow> string) \<Rightarrow> ('r, 'f) api_libs \<Rightarrow> (string \<Rightarrow> string + 'p) \<Rightarrow> ('p \<Rightarrow> bool) \<Rightarrow> 'r redis_client \<Rightarrow> bool \<Rightarrow>
     err + ('r, 'f) api_server" where
  "api_start e getenv A newPool ping cl ping_ok =
     (case postgres_Connect getenv newPool ping of
        Inl x \<Rightarrow> Inl (OtherE x)
      | Inr pool \<Rightarrow> api_main e getenv A (ConnectRedis (getenv ''REDIS_ADDR'') cl ping_ok))"

end
