(* ===== verification/No_Redis.thy ===== *)
theory No_Redis
  imports Api_Server Ingest Consumer
begin

text \<open>
  A process that did not find Redis when it started: it has no client, or one whose ping failed.
  Every use of the handle is guarded, so the two behave alike: as if there were no Redis.
\<close>

section \<open>The components\<close>

definition cached :: "'r UserService \<Rightarrow> bool" where
  "cached s \<longleftrightarrow> (case us_cache s of None \<Rightarrow> False | Some c \<Rightarrow> rc_IsAvailable c)"

lemma uncached:
  assumes "\<not> cached s"
  shows "storeRefreshTokenInCache s h u = ret ()"
    and "revokeRefreshToken e s h = call (ret ()) (\<lambda>_. DeleteRefreshToken e h)"
    and "lookupRefreshToken e s h = lookupStored e s h"
  using assms
  by (auto simp: cached_def storeRefreshTokenInCache_def revokeRefreshToken_def lookupRefreshToken_def split: option.splits)

lemma uncached_users:
  fixes s s' :: "'r UserService"
  assumes "\<not> cached s" and "\<not> cached s'" and "us_tokens s' = us_tokens s" and "refreshTokenTTL s' = refreshTokenTTL s"
  shows "Register e s' = Register e s" and "Login e s' = Login e s" and "Refresh e s' = Refresh e s" and "Logout e s' = Logout e s"
proof -
  note idle = uncached[OF assms(1)] uncached[OF assms(2)] assms(3,4)
  have revoke: "revokeRefreshToken e s' = revokeRefreshToken e s" by (intro ext; unfold idle; rule refl)
  have stored: "lookupStored e s' = lookupStored e s" by (intro ext; unfold lookupStored_def revoke; rule refl)
  have look: "lookupRefreshToken e s' = lookupRefreshToken e s" by (intro ext; unfold idle stored; rule refl)
  have persist: "persistRefreshToken e s' = persistRefreshToken e s"
    by (intro ext; unfold persistRefreshToken_def idle; rule refl)
  have issue: "issueTokenPair e s' = issueTokenPair e s"
    by (intro ext; unfold issueTokenPair_def persist assms(3); rule refl)
  show "Register e s' = Register e s" "Login e s' = Login e s" "Refresh e s' = Refresh e s" "Logout e s' = Logout e s"
    by (intro ext; unfold Register_def Login_def Refresh_def Logout_def persist issue look revoke assms(3); rule refl)+
qed

definition invites_cached :: "'r OrgService \<Rightarrow> bool" where
  "invites_cached s \<longleftrightarrow> (case os_cache s of None \<Rightarrow> False | Some c \<Rightarrow> ic_IsAvailable c)"

lemma uncached_invites:
  assumes "\<not> invites_cached s"
  shows "storeInviteTokenInCache s tok p = ret ()" and "lookupInviteTokenInCache s tok = fail (OtherE ''cache unavailable'')"
    and "deleteInviteTokenFromCache s tok = ret ()"
  using assms
  by (auto simp: invites_cached_def storeInviteTokenInCache_def lookupInviteTokenInCache_def deleteInviteTokenFromCache_def
      split: option.splits)

lemma uncached_orgs:
  fixes s s' :: "'r OrgService"
  assumes "\<not> invites_cached s" and "\<not> invites_cached s'" and "os_tokens s' = os_tokens s"
  shows "CreateOrganization e s' = CreateOrganization e s" and "GetOrganization e s' = GetOrganization e s"
    and "ListMyOrgs e s' = ListMyOrgs e s" and "SendEmailInvite e s' = SendEmailInvite e s"
    and "JoinViaToken e s' = JoinViaToken e s" and "GenerateInviteCode e s' = GenerateInviteCode e s"
    and "JoinViaCode e s' = JoinViaCode e s"
proof -
  note idle = uncached_invites[OF assms(1)] uncached_invites[OF assms(2)] assms(3)
  show "CreateOrganization e s' = CreateOrganization e s" "GetOrganization e s' = GetOrganization e s"
    "ListMyOrgs e s' = ListMyOrgs e s" "SendEmailInvite e s' = SendEmailInvite e s" "JoinViaToken e s' = JoinViaToken e s"
    "GenerateInviteCode e s' = GenerateInviteCode e s" "JoinViaCode e s' = JoinViaCode e s"
    by (intro ext; unfold CreateOrganization_def GetOrganization_def ListMyOrgs_def SendEmailInvite_def JoinViaToken_def
        join_admit_def lookupInvite_def join_commit_def GenerateInviteCode_def JoinViaCode_def idle; rule refl)+
qed

lemma unlimited:
  assumes "\<not> lim_enabled l"
  shows "Allow e l k n win = ret ()"
  using assms by (simp add: Allow_def)

lemma unlimited_routes:
  assumes "\<not> lim_enabled l" and "\<not> lim_enabled l'"
  shows "RateLimitByIP e l' = (RateLimitByIP e l :: string \<Rightarrow> int \<Rightarrow> ('r, 'x) endpoint \<Rightarrow> ('r, 'x) endpoint)"
    and "RateLimitByUser e l' = (RateLimitByUser e l :: string \<Rightarrow> int \<Rightarrow> ('r, 'x) endpoint \<Rightarrow> ('r, 'x) endpoint)"
    and "RateLimitByOrgPerDay e l' = (RateLimitByOrgPerDay e l :: string \<Rightarrow> int \<Rightarrow> ('r, 'x) endpoint \<Rightarrow> ('r, 'x) endpoint)"
    and "AllowIngest e l' = AllowIngest e l"
  by (intro ext; unfold RateLimitByIP_def RateLimitByUser_def RateLimitByOrgPerDay_def AllowIngest_def
      unlimited[OF assms(1)] unlimited[OF assms(2)]; rule refl)+

text \<open>The cache of keys\<close>

lemma uncached_keys:
  assumes "\<not> usable (kc_redis kc)" and "\<not> usable (kc_redis kc')" and "kc_lookup kc' = kc_lookup kc"
  shows "Resolve e J kc' = Resolve e J kc" and "Invalidate e kc' = Invalidate e kc"
proof -
  have off: "usable (kc_redis kc) = False" "usable (kc_redis kc') = False" using assms by simp_all
  show "Resolve e J kc' = Resolve e J kc" "Invalidate e kc' = Invalidate e kc"
    by (intro ext; unfold Resolve_def resolve_slow_def loadRecord_def Invalidate_def Let_def off if_False not_False_eq_True
        if_True assms(3); rule refl)+
qed

section \<open>The programs\<close>

lemma uncached_stream:
  assumes "\<not> usable rs" and "\<not> usable rs'"
  shows "StreamServiceLogs n e L rs' s cancelled = StreamServiceLogs n e L rs s cancelled"
  using assms by (intro ext) (simp add: StreamServiceLogs_def)

definition alike :: "('r, 'f) api_server \<Rightarrow> ('r, 'f) api_server \<Rightarrow> bool" where
  "alike S S' \<longleftrightarrow>
     \<not> lim_enabled (sv_limiter S) \<and> \<not> lim_enabled (sv_limiter S') \<and> \<not> cached (sv_users S) \<and> \<not> cached (sv_users S') \<and>
     \<not> invites_cached (sv_orgs S) \<and> \<not> invites_cached (sv_orgs S') \<and> \<not> usable (sv_redis S) \<and> \<not> usable (sv_redis S') \<and>
     us_tokens (sv_users S') = us_tokens (sv_users S) \<and> refreshTokenTTL (sv_users S') = refreshTokenTTL (sv_users S) \<and>
     os_tokens (sv_orgs S') = os_tokens (sv_orgs S) \<and>
     S' = S\<lparr>sv_limiter := sv_limiter S', sv_users := sv_users S', sv_orgs := sv_orgs S', sv_redis := sv_redis S'\<rparr>"

lemma alike_groups:
  assumes "alike S S'"
  shows "authGroup S' = (authGroup S :: ('r, 'x) endpoint \<Rightarrow> _)" and "orgsGroup S' = (orgsGroup S :: ('r, 'x) endpoint \<Rightarrow> _)"
    and "aiGroup S' = (aiGroup S :: ('r, 'x) endpoint \<Rightarrow> _)"
proof -
  obtain l u og rs where S': "S' = S\<lparr>sv_limiter := l, sv_users := u, sv_orgs := og, sv_redis := rs\<rparr>"
    and l: "\<not> lim_enabled (sv_limiter S)" "\<not> lim_enabled l" using assms by (auto simp: alike_def)
  show "authGroup S' = (authGroup S :: ('r, 'x) endpoint \<Rightarrow> _)" "orgsGroup S' = (orgsGroup S :: ('r, 'x) endpoint \<Rightarrow> _)"
    "aiGroup S' = (aiGroup S :: ('r, 'x) endpoint \<Rightarrow> _)"
    by (intro ext; unfold S' authGroup_def orgsGroup_def aiGroup_def sv_access_def; simp add: unlimited_routes[OF l])+
qed

lemma alike_serve:
  assumes "alike S S'"
  shows "serve S' route = serve S route"
proof -
  obtain l u og rs where S': "S' = S\<lparr>sv_limiter := l, sv_users := u, sv_orgs := og, sv_redis := rs\<rparr>"
    and off: "\<not> usable (sv_redis S)" "\<not> usable rs" "\<not> invites_cached (sv_orgs S)" "\<not> invites_cached og"
      "\<not> cached (sv_users S)" "\<not> cached u"
    and same: "us_tokens u = us_tokens (sv_users S)" "refreshTokenTTL u = refreshTokenTTL (sv_users S)"
      "os_tokens og = os_tokens (sv_orgs S)" using assms by (auto simp: alike_def)
  have parts: "sv_env S' = sv_env S" "sv_tokens S' = sv_tokens S" "sv_access S' = sv_access S" "sv_services S' = sv_services S"
    "sv_search S' = sv_search S" "sv_ws S' = sv_ws S" "sv_ai S' = sv_ai S" "sv_encoder S' = sv_encoder S" "sv_nlq S' = sv_nlq S"
    "sv_summary S' = sv_summary S" "sv_investigation S' = sv_investigation S" "sv_zero S' = sv_zero S"
    "sv_users S' = u" "sv_orgs S' = og" "sv_redis S' = rs" by (simp_all add: S' sv_access_def)
  show ?thesis
    by (cases route; hypsubst; intro ext; unfold serve.simps with_ai_routes_def servicesGroup_def servicesWriteGroup_def
        alike_groups[OF assms] parts uncached_stream[OF off(1,2)]
        Register_handler_def Login_handler_def Refresh_handler_def Logout_handler_def
        uncached_users[OF off(5,6) same(1,2)]
        CreateOrganization_handler_def GetOrganization_handler_def ListMyOrgs_handler_def SendEmailInvite_handler_def
        JoinViaToken_handler_def GenerateInviteCode_handler_def JoinViaCode_handler_def
        uncached_orgs[OF off(3,4) same(3)]; rule refl)
qed

lemma NewService_cache:
  assumes "NewService T c raw = Inr s"
  obtains ttl where "\<And>c'. NewService T c' raw = Inr \<lparr>us_tokens = T, us_cache = c', refreshTokenTTL = ttl\<rparr>"
    and "s = \<lparr>us_tokens = T, us_cache = c, refreshTokenTTL = ttl\<rparr>"
  using assms that by (cases "Atoi raw") (auto simp: NewService_def Let_def split: if_splits)

lemma api_without:
  fixes r :: "'r RedisStore"
  assumes "\<not> IsAvailable r" and "\<not> IsAvailable r'" and "api_main e getenv A r = Inr S"
  shows "\<exists>S'. api_main e getenv A r' = Inr S' \<and> serve S' = serve S"
proof -
  let ?cache = "\<lambda>r. NewAPIKeyCache getenv (Some r) (KeyLookup e)"
  obtain j where j: "NewJWTService (getenv ''JWT_SECRET'') (getenv ''JWT_EXPIRY_HOURS'') = Inr j"
    using assms(3) by (cases "NewJWTService (getenv ''JWT_SECRET'') (getenv ''JWT_EXPIRY_HOURS'')") (simp_all add: api_main_def)
  obtain u where u: "NewService (jwt_manager e (al_jwt A) j) (Some (RedisRefreshCache e (Some r)))
      (getenv ''REFRESH_TOKEN_EXPIRY_DAYS'') = Inr u"
    using assms(3) j by (auto simp: api_main_def Let_def split: sum.splits)
  obtain ttl where ttl: "\<And>c' :: 'r RefreshTokenCache option. NewService (jwt_manager e (al_jwt A) j) c' (getenv ''REFRESH_TOKEN_EXPIRY_DAYS'') =
      Inr \<lparr>us_tokens = jwt_manager e (al_jwt A) j, us_cache = c', refreshTokenTTL = ttl\<rparr>"
    by (rule NewService_cache[OF u]) (rule that)
  have kc: "Invalidate e (?cache r') = Invalidate e (?cache r)"
    by (rule uncached_keys) (simp_all add: NewAPIKeyCache_def assms)
  define mk where "mk r =
     \<lparr>sv_env = e, sv_tokens = jwt_manager e (al_jwt A) j, sv_limiter = NewLimiter (Some r) (LoadConfig getenv),
      sv_limits = LoadConfig getenv,
      sv_users = \<lparr>us_tokens = jwt_manager e (al_jwt A) j, us_cache = Some (RedisRefreshCache e (Some r)), refreshTokenTTL = ttl\<rparr>,
      sv_orgs = \<lparr>os_tokens = jwt_manager e (al_jwt A) j, os_cache = Some (RedisInviteCache e (al_invites A) (Some r))\<rparr>,
      sv_services = \<lparr>ss_audit = Some (PostgresWriter e), ss_orgAccess = GetOrgMemberRole e, ss_keyInvalidator = Some (Invalidate e (?cache r))\<rparr>,
      sv_redis = Some r, sv_search = al_search A, sv_ws = al_ws A, sv_ai = ai_handler getenv (al_ai A),
      sv_encoder = al_encoder A, sv_nlq = al_nlq A, sv_summary = al_summary A,
      sv_investigation = al_investigation A, sv_zero = al_zero A\<rparr>" for r :: "'r RedisStore"
  have main: "api_main e getenv A r = Inr (mk r)" for r
    unfolding api_main_def j sum.case ttl Let_def mk_def by (rule refl)
  have "alike (mk r) (mk r')"
    using assms(1,2) unfolding alike_def mk_def kc
    by (simp add: cached_def invites_cached_def RedisRefreshCache_def RedisInviteCache_def NewLimiter_def)
  from alike_serve[OF this] main assms(3) show ?thesis by auto
qed

lemma ingestor_without:
  assumes "\<not> IsAvailable r" and "\<not> IsAvailable r'"
  shows "ingestor_routes e J E (ingestor_handler e getenv (Some r') K) = ingestor_routes e J E (ingestor_handler e getenv (Some r) K)"
proof -
  have kc: "Resolve e J (NewAPIKeyCache getenv (Some r') (KeyLookup e)) = Resolve e J (NewAPIKeyCache getenv (Some r) (KeyLookup e))"
    by (rule uncached_keys) (simp_all add: NewAPIKeyCache_def assms)
  have off: "\<not> lim_enabled (NewLimiter (Some r) (LoadConfig getenv))" "\<not> lim_enabled (NewLimiter (Some r') (LoadConfig getenv))"
    using assms by (simp_all add: NewLimiter_def)
  show ?thesis
    by (intro ext; unfold ingestor_routes_def ingestor_handler_def IngestHandler.select_convs IngestLog_def ingest_body_def
        publish_request_def kc unlimited_routes[OF off]; rule refl)
qed

lemma consumer_without:
  assumes "\<not> IsAvailable r" and "\<not> IsAvailable r'"
  shows "consume_once e K E (Some r') = consume_once e K E (Some r)"
proof -
  have pub: "PublishLog e (Some r') E = PublishLog e (Some r) E"
    using assms by (intro ext) (simp add: PublishLog_def)
  show ?thesis by (intro ext; unfold consume_once_def consume_entry_def pub; rule refl)
qed

text \<open>So every process is like one that has a client, whatever its ping said.\<close>

lemma connected: "ConnectRedis addr C ok = \<lparr>rs_client = Some C, rs_available = True\<rparr> \<or> \<not> IsAvailable (ConnectRedis addr C ok)"
  by (simp add: ConnectRedis_def IsAvailable_def)

lemma unpinged: "\<not> IsAvailable \<lparr>rs_client = Some C, rs_available = False\<rparr>"
  by (simp add: IsAvailable_def)

lemma api_connected:
  assumes "api_main e getenv A (ConnectRedis addr C ok) = Inr S"
  shows "\<exists>b S'. api_main e getenv A \<lparr>rs_client = Some C, rs_available = b\<rparr> = Inr S' \<and> serve S' = serve S"
  using connected[of addr C ok]
proof
  assume "ConnectRedis addr C ok = \<lparr>rs_client = Some C, rs_available = True\<rparr>"
  then show ?thesis using assms by auto
next
  assume "\<not> IsAvailable (ConnectRedis addr C ok)"
  from api_without[OF this unpinged assms] show ?thesis by blast
qed

lemma ingestor_connected:
  "\<exists>b. ingestor_routes e J E (ingestor_handler e getenv (Some (ConnectRedis addr C ok)) K) =
     ingestor_routes e J E (ingestor_handler e getenv (store_of C b) K)"
  using connected[of addr C ok] ingestor_without[OF unpinged] unfolding store_of_def by metis

lemma consumer_connected:
  "\<exists>b. consume_once e K E (Some (ConnectRedis addr C ok)) = consume_once e K E (store_of C b)"
  using connected[of addr C ok] consumer_without[OF unpinged] unfolding store_of_def by metis

end
