(* ===== verification/Api_Contract.thy ===== *)
theory Api_Contract
  imports Api_Server Org_Contract Key_Registry
begin

text \<open>
  What the groups of cmd/api guarantee: whom they let through to an endpoint, and which parts of
  the state the endpoints behind them leave alone.
\<close>

section \<open>Who gets through\<close>

definition refused :: "'r world \<Rightarrow> 'a reply \<Rightarrow> 'r world \<Rightarrow> bool" where
  "refused w r w' \<longleftrightarrow> \<not> is_success r \<and> db w' = db w"

text \<open>The request bears an access token of the user, checked while the database was as in \<open>w\<close>.\<close>

definition signed_in :: "('r, 'f) api_server \<Rightarrow> ctx \<Rightarrow> 'r world \<Rightarrow> string \<Rightarrow> bool" where
  "signed_in S c w u \<longleftrightarrow>
     (\<exists>tok claims v v'. auth_header c = ''Bearer '' @ tok \<and> db v = db w \<and>
        VerifyAccessToken (sv_tokens S) tok v = (Inr claims, v') \<and> UserID claims = u)"

datatype access = Anyone | SignedIn | MemberWith "string \<Rightarrow> bool"

fun permitted :: "('r, 'f) api_server \<Rightarrow> ctx \<Rightarrow> 'r world \<Rightarrow> access \<Rightarrow> bool" where
  "permitted S c w Anyone = True"
| "permitted S c w SignedIn = (\<exists>u. signed_in S c w u)"
| "permitted S c w (MemberWith P) = (\<exists>u. signed_in S c w u \<and> has_role P (sv_env S) (db w) (p_id c) u)"

text \<open>Who may use a route, as its group says\<close>

fun route_access :: "api_route \<Rightarrow> access" where
  "route_access R_Health = Anyone"
| "route_access (R_Register b) = Anyone"
| "route_access (R_Login b) = Anyone"
| "route_access (R_Refresh b) = Anyone"
| "route_access (R_Logout b) = SignedIn"
| "route_access (R_CreateOrganization b) = SignedIn"
| "route_access R_ListMyOrgs = SignedIn"
| "route_access (R_JoinViaToken b) = SignedIn"
| "route_access (R_JoinViaCode b) = SignedIn"
| "route_access R_GetOrganization = MemberWith (\<lambda>_. True)"
| "route_access (R_SendEmailInvite b) = MemberWith IsAdminRole"
| "route_access R_GenerateInviteCode = MemberWith IsAdminRole"
| "route_access (R_Investigate b) = MemberWith IsDeveloperRole"
| "route_access (R_CreateService b) = MemberWith IsDeveloperRole"
| "route_access (R_UpdateService b) = MemberWith IsDeveloperRole"
| "route_access R_DeleteService = MemberWith IsDeveloperRole"
| "route_access (R_GenerateAPIKey b) = MemberWith IsDeveloperRole"
| "route_access R_ListAPIKeys = MemberWith IsDeveloperRole"
| "route_access R_RevokeAPIKey = MemberWith IsDeveloperRole"
| "route_access R_RotateAPIKey = MemberWith IsDeveloperRole"
| "route_access _ = MemberWith (\<lambda>_. True)"

lemma refused_answer: "answer (Failure n m) w = (r, w') \<Longrightarrow> refused w r w'"
  by (auto simp: answer_def refused_def)

text \<open>A guard that changes no table refuses, or runs what comes after it.\<close>

lemma guard_refuses:
  assumes "keeps_db (\<lambda>d. d = db w) m" and "guard f m k w = (r, w')" and "\<And>x. \<not> is_success (f x)"
  obtains (refused) "refused w r w'"
  | (through) x v where "m w = (Inr x, v)" and "db v = db w" and "k x v = (r, w')"
proof -
  obtain s v where m: "m w = (s, v)" by fastforce
  then have "db v = db w" using keepsD[OF assms(1) _ m] by simp
  then show thesis using assms(2,3) m that by (cases s) (auto simp: guard_def refused_def)
qed

lemma limit_refuses:
  assumes "RateLimitByIP e l pfx n h c w = (r, w')"
  obtains (refused) "refused w r w'" | (through) v where "db v = db w" and "h c v = (r, w')"
  using assms unfolding RateLimitByIP_def
  by (rule guard_refuses[rotated]) (auto intro!: keeps_intros simp: mapRateLimitError_fails)

lemma limit_user_refuses:
  assumes "RateLimitByUser e l pfx n h c w = (r, w')"
  obtains (refused) "refused w r w'" | (through) v where "db v = db w" and "h c v = (r, w')"
proof (cases "ctx_user c = None \<or> ctx_user c = Some []")
  case True
  then show thesis using assms through[of w] by (auto simp: RateLimitByUser_def)
next
  case False
  then obtain u where "guard mapRateLimitError (call (UserMinuteKey e pfx u) (\<lambda>k. Allow e l k n Minute)) (\<lambda>_. h c) w = (r, w')"
    using assms by (auto simp: RateLimitByUser_def)
  then show thesis
    by (rule guard_refuses[rotated]) (use that in \<open>auto intro!: keeps_intros simp: mapRateLimitError_fails\<close>)
qed

lemma limit_org_refuses:
  assumes "RateLimitByOrgPerDay e l pfx n h c w = (r, w')"
  obtains (refused) "refused w r w'" | (through) v where "db v = db w" and "h c v = (r, w')"
proof (cases "p_id c \<noteq> [] \<and> uuid_ok e (p_id c)")
  case True
  then have "guard mapRateLimitError (call (OrgDayKey e pfx (p_id c)) (\<lambda>k. Allow e l k n (24 * Hour))) (\<lambda>_. h c) w = (r, w')"
    using assms by (auto simp: RateLimitByOrgPerDay_def)
  then show thesis
    by (rule guard_refuses[rotated]) (use that in \<open>auto intro!: keeps_intros simp: mapRateLimitError_fails\<close>)
next
  case False
  then show thesis using assms that
    by (auto simp: RateLimitByOrgPerDay_def split: if_splits dest: refused_answer)
qed

lemma auth_refuses:
  assumes "token_manager (sv_tokens S)" and "RequireAuth (sv_tokens S) h c w = (r, w')"
  obtains (refused) "refused w r w'"
  | (through) u ro v where "signed_in S c w u" and "db v = db w"
      and "h (c\<lparr>ctx_user := Some u, ctx_role := Some ro\<rparr>) v = (r, w')"
  using assms(1)
proof (cases rule: RequireAuth_cases[of _ h c w])
  case (denied m v)
  then show ?thesis using assms(2) refused by (simp add: refused_def)
next
  case (passed tok claims v)
  then have "signed_in S c w (UserID claims)" unfolding signed_in_def by blast
  then show ?thesis using passed assms(2) through[of "UserID claims" v] by simp
qed

lemma with_user_refuses:
  assumes "with_user c k w = (r, w')"
  obtains (refused) "refused w r w'" | (through) u where "ctx_user c = Some u" and "k u w = (r, w')"
  using assms that by (auto simp: with_user_def split: option.splits if_splits dest: refused_answer)

text \<open>The three checks of a role have this shape.\<close>

lemma role_refuses:
  assumes "with_user c (\<lambda>u. if p_id c = [] then answer (Failure 400 m)
      else guard f (GetOrgMemberRole e (p_id c) u) (\<lambda>role.
        if \<not> P role then answer (Failure 403 m') else h (c\<lparr>ctx_org_role := Some role\<rparr>))) w = (r, w')"
    and "\<And>x. \<not> is_success (f x)"
  obtains (refused) "refused w r w'"
  | (through) u role v where "ctx_user c = Some u" and "has_role P e (db w) (p_id c) u"
      and "db v = db w" and "h (c\<lparr>ctx_org_role := Some role\<rparr>) v = (r, w')"
  using assms(1)
proof (cases rule: with_user_refuses)
  case (through u)
  show thesis
  proof (cases "p_id c = []")
    case True
    then show thesis using through refused by (auto dest: refused_answer)
  next
    case False
    let ?k = "\<lambda>role. if \<not> P role then answer (Failure 403 m') else h (c\<lparr>ctx_org_role := Some role\<rparr>)"
    from False through have "guard f (GetOrgMemberRole e (p_id c) u) ?k w = (r, w')" by simp
    then show thesis
    proof (rule guard_refuses[rotated])
      fix role v
      assume g: "GetOrgMemberRole e (p_id c) u w = (Inr role, v)" and v: "db v = db w" and k: "?k role v = (r, w')"
      show thesis
      proof (cases "P role")
        case True
        then show thesis
          using g v k through(1) that(2)[of u v role] by (simp add: GetOrgMemberRole_role has_role_def)
      next
        case False
        then show thesis using k v refused by (auto dest!: refused_answer simp: refused_def)
      qed
    qed (use assms(2) refused in \<open>auto intro!: keeps_intros\<close>)
  qed
qed (rule refused)

lemma member_refuses:
  fixes r :: "'x reply"
  assumes "RequireOrgMember (sv_access S) h c w = (r, w')"
  obtains (refused) "refused w r w'"
  | (through) u role v where "ctx_user c = Some u" and "has_role (\<lambda>_. True) (sv_env S) (db w) (p_id c) u"
      and "db v = db w" and "h (c\<lparr>ctx_org_role := Some role\<rparr>) v = (r, w')"
proof -
  have "\<not> is_success (mapMiddlewareError x :: 'x reply)" for x
    by (induction x rule: mapMiddlewareError.induct) (simp_all add: internal_error_def)
  note f = this
  have g: "with_user c (\<lambda>u. if p_id c = [] then answer (Failure 400 ''organization id is required'')
      else guard mapMiddlewareError (GetOrgMemberRole (sv_env S) (p_id c) u) (\<lambda>role.
        if \<not> True then answer (Failure 403 []) else h (c\<lparr>ctx_org_role := Some role\<rparr>))) w = (r, w')"
    using assms by (simp add: RequireOrgMember_def sv_access_def cong: if_cong)
  from g f show thesis by (rule role_refuses) (rule that; assumption)+
qed

lemma developer_refuses:
  fixes r :: "'x reply"
  assumes "RequireOrgDeveloper (sv_access S) h c w = (r, w')"
  obtains (refused) "refused w r w'"
  | (through) u role v where "ctx_user c = Some u" and "has_role IsDeveloperRole (sv_env S) (db w) (p_id c) u"
      and "db v = db w" and "h (c\<lparr>ctx_org_role := Some role\<rparr>) v = (r, w')"
proof -
  have "\<not> is_success (mapMiddlewareError x :: 'x reply)" for x
    by (induction x rule: mapMiddlewareError.induct) (simp_all add: internal_error_def)
  from assms[unfolded RequireOrgDeveloper_def sv_access_def] this show thesis
    by (rule role_refuses) (rule that; assumption)+
qed

lemma admin_refuses:
  fixes r :: "'x reply"
  assumes "RequireOrgAdmin (sv_env S) h c w = (r, w')"
  obtains (refused) "refused w r w'"
  | (through) u role v where "ctx_user c = Some u" and "has_role IsAdminRole (sv_env S) (db w) (p_id c) u"
      and "db v = db w" and "h (c\<lparr>ctx_org_role := Some role\<rparr>) v = (r, w')"
proof -
  have "\<not> is_success (mapOrgMiddlewareError x :: 'x reply)" for x
    by (induction x rule: mapOrgMiddlewareError.induct) (simp_all add: internal_error_def)
  from assms[unfolded RequireOrgAdmin_def] this show thesis
    by (rule role_refuses) (rule that; assumption)+
qed

text \<open>The groups\<close>

lemma orgs_refuses:
  assumes "token_manager (sv_tokens S)" and "orgsGroup S h c w = (r, w')"
  obtains (refused) "refused w r w'"
  | (through) u c' v where "signed_in S c w u" and "ctx_user c' = Some u" and "p_id c' = p_id c"
      and "db v = db w" and "h c' v = (r, w')"
  using assms(1) assms(2)[unfolded orgsGroup_def]
proof (cases rule: auth_refuses)
  case (through u ro v)
  note u = through(1) and v = through(2)
  let ?c = "c\<lparr>ctx_user := Some u, ctx_role := Some ro\<rparr>"
  from through(3) show thesis
  proof (cases rule: limit_user_refuses)
    case refused
    then show thesis using v that(1) by (simp add: refused_def)
  next
    case (through v2)
    note v2 = through(1)
    from through(2) show thesis
    proof (cases rule: limit_refuses)
      case refused
      then show thesis using v v2 that(1) by (simp add: refused_def)
    next
      case (through v3)
      then show thesis using u v v2 that(2)[of u ?c v3] by simp
    qed
  qed
qed (rule refused)

lemma services_refuses:
  assumes "token_manager (sv_tokens S)" and "servicesGroup S h c w = (r, w')"
  obtains (refused) "refused w r w'"
  | (through) u c' v where "signed_in S c w u" and "has_role (\<lambda>_. True) (sv_env S) (db w) (p_id c) u"
      and "ctx_user c' = Some u" and "p_id c' = p_id c" and "db v = db w" and "h c' v = (r, w')"
  using assms(1) assms(2)[unfolded servicesGroup_def]
proof (cases rule: orgs_refuses)
  case (through u c' v)
  note t = through
  from through(5) show thesis
  proof (cases rule: member_refuses)
    case (through u' role v')
    then show thesis using t that(2)[of u "c'\<lparr>ctx_org_role := Some role\<rparr>" v'] by simp
  qed (use t that(1) in \<open>simp add: refused_def\<close>)
qed (rule refused)

section \<open>Every route\<close>

definition lets :: "('r, 'f) api_server \<Rightarrow> ctx \<Rightarrow> access \<Rightarrow> ('r, 'a) endpoint \<Rightarrow> bool" where
  "lets S c a h \<longleftrightarrow> (\<forall>w r w'. h c w = (r, w') \<longrightarrow> refused w r w' \<or> permitted S c w a)"

lemma lets_Anyone: "lets S c Anyone h"
  by (simp add: lets_def)

lemma permitted_cong: "db v = db w \<Longrightarrow> permitted S c v a = permitted S c w a"
  by (cases a) (auto simp: signed_in_def)

lemma lets_limit: "lets S c a h \<Longrightarrow> lets S c a (RateLimitByIP e l pfx n h)"
  unfolding lets_def
  by (auto elim!: limit_refuses) (metis permitted_cong refused_def)

lemma lets_auth:
  assumes "token_manager (sv_tokens S)"
  shows "lets S c SignedIn (RequireAuth (sv_tokens S) h)"
  by (auto simp: lets_def elim!: auth_refuses[OF assms])

lemma lets_orgs:
  assumes "token_manager (sv_tokens S)"
  shows "lets S c SignedIn (orgsGroup S h)"
  by (auto simp: lets_def elim!: orgs_refuses[OF assms])

lemma lets_admin:
  assumes "token_manager (sv_tokens S)"
  shows "lets S c (MemberWith IsAdminRole) (orgsGroup S (RequireOrgAdmin (sv_env S) h))"
  unfolding lets_def
  by (auto elim!: orgs_refuses[OF assms] admin_refuses simp: refused_def)

lemma lets_member:
  assumes "token_manager (sv_tokens S)"
  shows "lets S c (MemberWith (\<lambda>_. True)) (orgsGroup S (RequireOrgMember (sv_access S) h))"
  unfolding lets_def
  by (auto elim!: orgs_refuses[OF assms] member_refuses simp: refused_def)

lemma lets_developer:
  assumes "token_manager (sv_tokens S)"
  shows "lets S c (MemberWith IsDeveloperRole)
     (orgsGroup S (RequireOrgMember (sv_access S) (RequireOrgDeveloper (sv_access S) h)))"
  unfolding lets_def
  by (auto elim!: orgs_refuses[OF assms] member_refuses developer_refuses simp: refused_def)

lemma lets_ai:
  assumes "token_manager (sv_tokens S)"
  shows "lets S c (MemberWith (\<lambda>_. True)) (with_ai_routes S h)"
proof (cases "sv_ai S")
  case None
  then show ?thesis
    unfolding lets_def with_ai_routes_def
    by (auto elim!: orgs_refuses[OF assms] dest!: refused_answer simp: refused_def)
next
  case (Some ai)
  then show ?thesis using lets_member[OF assms] by (simp add: with_ai_routes_def aiGroup_def)
qed

lemma lets_ai_developer:
  assumes "token_manager (sv_tokens S)"
  shows "lets S c (MemberWith IsDeveloperRole) (with_ai_routes S (\<lambda>ai. RequireOrgDeveloper (sv_access S) (h ai)))"
proof (cases "sv_ai S")
  case None
  then show ?thesis
    unfolding lets_def with_ai_routes_def
    by (auto elim!: orgs_refuses[OF assms] dest!: refused_answer simp: refused_def)
next
  case (Some ai)
  then show ?thesis
    unfolding lets_def with_ai_routes_def aiGroup_def
    by (auto elim!: orgs_refuses[OF assms] member_refuses limit_org_refuses developer_refuses simp: refused_def)
qed

text \<open>The one route whose handler checks the membership itself\<close>

lemma quiet_org_queries:
  "quiet (GetOrganization e s org u)" "quiet (ListMyOrgs e s u)"
  unfolding GetOrganization_def ListMyOrgs_def org_repo_defs
  by (intro quiet_call quiet_ret quiet_on_no_rows stmt_pure_quiet keeps_intros)+

lemma map_reply_fails: "is_success (map_reply f x) = is_success x"
  by (cases x) simp_all

lemma org_mapServiceError_fails: "\<not> is_success (org_mapServiceError x)"
  by (induction x rule: org_mapServiceError.induct) (simp_all add: internal_error_def)

lemma lets_GetOrganization:
  assumes "token_manager (sv_tokens S)"
  shows "lets S c (MemberWith (\<lambda>_. True)) (orgsGroup S (via f (GetOrganization_handler (sv_env S) s)))"
  unfolding lets_def
proof (intro allI impI)
  fix w r w' assume "orgsGroup S (via f (GetOrganization_handler (sv_env S) s)) c w = (r, w')"
  with assms show "refused w r w' \<or> permitted S c w (MemberWith (\<lambda>_. True))"
  proof (cases rule: orgs_refuses)
    case (through u c' v)
    obtain x v' where g: "GetOrganization (sv_env S) s (p_id c) u v = (x, v')" by fastforce
    have db: "db v' = db w" using quietD[OF quiet_org_queries(1) g] through(4) by simp
    show ?thesis
    proof (cases "u = [] \<or> (\<exists>e. x = Inl e)")
      case True
      then have "\<not> is_success r" and "db w' = db w"
        using through(2,3,4,5) g db
        by (auto simp: via_def GetOrganization_handler_def with_user_def respond_def answer_def
            org_mapServiceError_fails map_reply_fails split: if_splits)
      then show ?thesis by (simp add: refused_def)
    next
      case False
      then obtain y where "x = Inr y" by (cases x) auto
      then obtain role v1 where "GetOrgMemberRole (sv_env S) (p_id c) u v = (Inr role, v1)"
        using g by (auto simp: GetOrganization_def prog_simps)
      then show ?thesis using through(1,4) by (auto simp: GetOrgMemberRole_role has_role_def)
    qed
  qed simp
qed

lemma lets_serve:
  assumes "token_manager (sv_tokens S)"
  shows "lets S c (route_access route) (serve S route)"
  by (cases route)
     (simp_all add: servicesGroup_def servicesWriteGroup_def authGroup_def lets_Anyone lets_limit lets_auth[OF assms]
       lets_orgs[OF assms] lets_member[OF assms] lets_developer[OF assms] lets_admin[OF assms] lets_ai[OF assms]
       lets_ai_developer[OF assms] lets_GetOrganization[OF assms])

end
