(* ===== verification/Resident.thy ===== *)
theory Resident
  imports No_Redis Api_Contract Ingest_Contract Consumer_Contract Org_Props
begin

text \<open>
  Invariants of a whole deployment. \<open>system_step\<close> is one step of the three programs over their
  shared database, Redis and Kafka. The locale \<open>resident\<close> is a property of the world that only a
  few operations may touch, those of its \<open>assumes\<close>; everything else the programs do keeps it,
  because the rest neither writes its tables nor names its keys in Redis. So an invariant of one
  component is an invariant of the deployment once its own operations keep it.
\<close>

section \<open>A deployment\<close>

definition api_exec :: "('r, 'f) api_server \<Rightarrow> api_route \<times> ctx \<Rightarrow> 'r world \<Rightarrow> 'r world" where
  "api_exec S rq w = (case rq of (route, c) \<Rightarrow> snd (serve S route c w))"

text \<open>The WebSocket library and the HTTP client do not touch the keys in Redis.\<close>

definition libs_apart :: "('r \<Rightarrow> keyspace) \<Rightarrow> ('r, 'f) api_libs \<Rightarrow> bool" where
  "libs_apart kspace A \<longleftrightarrow>
     (\<forall>s. kspace (snd (ws_upgrade (al_ws A) s)) = kspace s) \<and>
     (\<forall>f s. kspace (snd (ws_write (al_ws A) f s)) = kspace s) \<and>
     (\<forall>ch s. kspace (snd (sub_receive (al_ws A) ch s)) = kspace s) \<and>
     (\<forall>rq s. kspace (snd (http_do (al_ai A) rq s)) = kspace s)"

text \<open>Redis and Kafka are two servers: an operation of the broker leaves the keys alone.\<close>

locale platform = redis_server C kspace + broker_and_redis K part C
  for C :: "'r redis_client" and kspace and K :: "'r kafka" and part +
  assumes write_keys: "k_write K m s = (r, s') \<Longrightarrow> kspace s' = kspace s"
    and fetch_keys: "k_fetch K s = (r', s') \<Longrightarrow> kspace s' = kspace s"
    and commit_keys: "k_commit K off s = (r, s') \<Longrightarrow> kspace s' = kspace s"

interpretation out_platform: platform outside_redis o_keys outside_kafka o_part
  by unfold_locales (auto simp: outside_kafka_def Let_def split: if_splits)

text \<open>
  A request to an API server, to an ingestor, an iteration of a consumer, the restart of a reader,
  the deletion of old entries, or the passing of time. Every process has its own environment
  variables, and \<open>ok\<close> tells whether it could ping Redis when it started.
\<close>

inductive system_step ::
    "'r redis_client \<Rightarrow> ('r \<Rightarrow> keyspace) \<Rightarrow> 'r kafka \<Rightarrow> ('r \<Rightarrow> partition) \<Rightarrow> env \<Rightarrow> ('r, 'f) api_libs \<Rightarrow>
     key_codecs \<Rightarrow> entry_codec \<Rightarrow> 'r world \<Rightarrow> 'r world \<Rightarrow> bool"
  for C kspace K part e A J E where
  api_request: "api_main e getenv A (ConnectRedis addr C ok) = Inr S \<Longrightarrow>
     serve S route c w = (a, w') \<Longrightarrow> system_step C kspace K part e A J E w w'"
| ingest_request: "ingestor_routes e J E (ingestor_handler e getenv (Some (ConnectRedis addr C ok)) K) iroute c w = (a', w') \<Longrightarrow>
     system_step C kspace K part e A J E w w'"
| consumption: "consume_once e K E (Some (ConnectRedis addr C ok)) cancelled w = (r, w') \<Longrightarrow> system_step C kspace K part e A J E w w'"
| reader_restart: "part (redis w') = restarted n (part (redis w)) \<Longrightarrow> kspace (redis w') = kspace (redis w) \<Longrightarrow>
     db w' = db w \<Longrightarrow> tick w \<le> tick w' \<Longrightarrow> system_step C kspace K part e A J E w w'"
| retention: "runOnce e hours w = (r', w') \<Longrightarrow> system_step C kspace K part e A J E w w'"
| idling: "tick w \<le> n \<Longrightarrow> system_step C kspace K part e A J E w (w\<lparr>tick := n\<rparr>)"

inductive_cases system_stepE: "system_step C kspace K part e A J E w w'"

section \<open>What only some operations touch\<close>

locale resident = redis_server C kspace
  for C :: "'r redis_client" and kspace :: "'r \<Rightarrow> keyspace" +
  fixes W :: "'r world \<Rightarrow> bool" and mine :: "string \<Rightarrow> bool" and e :: env and A :: "('r, 'f) api_libs"
  assumes W_same: "W w \<Longrightarrow> db w' = db w \<Longrightarrow> (\<And>k. mine k \<Longrightarrow> kspace (redis w') k = kspace (redis w) k) \<Longrightarrow>
      tick w \<le> tick w' \<Longrightarrow> W w'"
    and mine_other: "\<not> mine (''rl:'' @ x)" "\<not> mine (refreshTokenKeyPref @ x)" "\<not> mine (prefixKey x)"
      "\<not> mine (''apikey:validated:'' @ x)"
    and W_users: "keeps W (CreateUser e em h)" "keeps W (StoreRefreshToken e u h t)" "keeps W (DeleteRefreshToken e h)"
    and W_services: "kc_redis kc = store_of C b \<Longrightarrow> keeps W (svc_run e (main_key_service e kc) p)"
    and W_organizations: "keeps W (CreateOrganization e (main_org_service e (al_jwt A) j (al_invites A) C b) u nm)"
      "keeps W (SendEmailInvite e (main_org_service e (al_jwt A) j (al_invites A) C b) org u em role)"
      "keeps W (JoinViaToken e (main_org_service e (al_jwt A) j (al_invites A) C b) u raw)"
      "keeps W (GenerateInviteCode e (main_org_service e (al_jwt A) j (al_invites A) C b) org u)"
      "keeps W (JoinViaCode e (main_org_service e (al_jwt A) j (al_invites A) C b) u code)"
    and W_logs: "keeps W (InsertLogs e xs)" "keeps W (DeleteOlderThan e cutoff)"
    and apart: "libs_apart kspace A"
begin

lemmas mine_keys = mine_other mine_other[simplified]

lemma kept_quiet: "quiet m \<Longrightarrow> keeps W m"
  by (rule keepsI) (metis W_same quietD)

text \<open>What reaches Redis\<close>

lemma kept_client:
  assumes "\<And>t s r s' k. op C t s = (r, s') \<Longrightarrow> mine k \<Longrightarrow> kspace s' k = kspace s k"
  shows "keeps W (with_client e (store_of C b) op)"
proof (rule keepsI)
  fix w r w' assume "W w" and run: "with_client e (store_of C b) op w = (r, w')"
  obtain v s' where op: "op C (clk e (tick w)) (redis w) = (v, s')" by fastforce
  then have "w' = w\<lparr>redis := s', tick := Suc (tick w)\<rparr>"
    using run by (auto simp: with_client_store_of split: sum.splits)
  then show "W w'" using W_same[OF \<open>W w\<close>] assms[OF op] by simp
qed

lemma kept_exec:
  assumes "\<And>c. c \<in> set cmds \<Longrightarrow> \<not> mine (cmd_key c)"
  shows "keeps W (with_client e (store_of C b) (\<lambda>c t. r_exec c t cmds))"
proof (rule kept_client)
  fix t s r s' k assume "r_exec C t cmds s = (r, s')" and "mine k"
  then show "kspace s' k = kspace s k" using assms by (intro exec_other) auto
qed

lemma kept_reads:
  "keeps W (with_client e (store_of C b) (\<lambda>c t. r_get c t k))"
  "keeps W (with_client e (store_of C b) (\<lambda>c t. r_exists c t k))"
  "keeps W (with_client e (store_of C b) (\<lambda>c t. r_publish c t ch p))"
  by (rule kept_client, simp add: get_pure exists_pure publish_pure)+

lemmas kept_step = keeps_call keeps_attempt keeps_ret keeps_fail keeps_if keeps_case_prod keeps_on_unique
lemmas kept_cases = kept_step keeps_case_option keeps_case_sum

section \<open>Users\<close>

lemma kept_user_reads: "keeps W (GetUserByEmail e em)" "keeps W (GetRefreshToken e h)"
  unfolding GetUserByEmail_def GetRefreshToken_def
  by (intro kept_quiet quiet_on_no_rows stmt_pure_quiet keeps_intros)+

lemma kept_refresh_cache:
  "keeps W (rc_Set (RedisRefreshCache e (store_of C b)) h u ttl)"
  "keeps W (rc_Get (RedisRefreshCache e (store_of C b)) h)"
  "keeps W (rc_Delete (RedisRefreshCache e (store_of C b)) h)"
  by (auto simp: RedisRefreshCache_def mine_keys intro!: keeps_call kept_exec kept_reads keeps_ret)

lemma kept_tokens:
  "keeps W (GenerateAccessToken (us_tokens (main_user_service e L j C b ttl)) u ro)"
  "keeps W (GenerateRefreshToken (us_tokens (main_user_service e L j C b ttl)))"
  by (simp_all add: main_user_service_def kept_quiet jwt.quiet_access jwt.quiet_refresh)

lemmas kept_user_step = kept_step kept_quiet[OF quiet_Now] kept_quiet[OF quiet_GenerateFromPassword]
  kept_user_reads W_users kept_refresh_cache kept_tokens

lemma main_user_service_cache: "us_cache (main_user_service e L j C b ttl) = Some (RedisRefreshCache e (store_of C b))"
  by (simp add: main_user_service_def)

lemma kept_user_sessions:
  "keeps W (persistRefreshToken e (main_user_service e L j C b ttl) u h)"
  "keeps W (revokeRefreshToken e (main_user_service e L j C b ttl) h)"
  "keeps W (lookupRefreshToken e (main_user_service e L j C b ttl) h)"
  "keeps W (issueTokenPair e (main_user_service e L j C b ttl) u)"
  unfolding persistRefreshToken_def revokeRefreshToken_def lookupRefreshToken_def issueTokenPair_def
    lookupStored_def storeRefreshTokenInCache_def Let_def
  by (auto simp: main_user_service_cache intro!: kept_user_step split: sum.split)

lemma kept_users:
  "keeps W (Register e (main_user_service e L j C b ttl) em pw)"
  "keeps W (Login e (main_user_service e L j C b ttl) em pw)"
  "keeps W (Refresh e (main_user_service e L j C b ttl) raw)"
  "keeps W (Logout e (main_user_service e L j C b ttl) raw)"
  unfolding Register_def Login_def Refresh_def Logout_def Let_def
  by (auto intro!: kept_user_step kept_user_sessions split: option.split sum.split)

section \<open>Services, organizations and logs\<close>

lemma keeps_drop: "keeps I (call m (\<lambda>_. ret ())) \<Longrightarrow> keeps I m"
proof -
  have "snd (call m (\<lambda>_. ret ()) w) = snd (m w)" for w
    by (simp add: call_def ret_def split: prod.splits sum.splits)
  then show "keeps I (call m (\<lambda>_. ret ())) \<Longrightarrow> keeps I m" by (simp add: keeps_def)
qed

lemma kept_services:
  assumes "kc_redis kc = store_of C b"
  shows "keeps W (CreateService e (main_key_service e kc) org u nm desc ip)"
    and "keeps W (ListServices e (main_key_service e kc) org u)"
    and "keeps W (GetService e (main_key_service e kc) org sid u)"
    and "keeps W (UpdateService e (main_key_service e kc) org sid u nm desc ip)"
    and "keeps W (DeleteService e (main_key_service e kc) org sid u ip)"
    and "keeps W (svc_GenerateAPIKey e (main_key_service e kc) org sid u label ip)"
    and "keeps W (ListAPIKeys e (main_key_service e kc) org sid u)"
    and "keeps W (RevokeAPIKey e (main_key_service e kc) org sid kid u ip)"
    and "keeps W (RotateAPIKey e (main_key_service e kc) org sid kid u ip)"
  using W_services[OF assms, of "SvcCreate org u nm desc ip"] W_services[OF assms, of "SvcList org u"]
    W_services[OF assms, of "SvcGet org sid u"] W_services[OF assms, of "SvcUpdate org sid u nm desc ip"]
    W_services[OF assms, of "SvcDelete org sid u ip"] W_services[OF assms, of "KeyCreate org sid u label ip"]
    W_services[OF assms, of "KeyList org sid u"] W_services[OF assms, of "KeyRevoke org sid kid u ip"]
    W_services[OF assms, of "KeyRotate org sid kid u ip"]
  by (auto intro: keeps_drop)

lemma kept_logs: "keeps W (GetLogByID e org sid i)" "keeps W (GetLogByOrgID e org i)" "keeps W (SearchLogs e L f)"
  unfolding GetLogByID_def GetLogByOrgID_def
  by (intro kept_quiet quiet_on_no_rows stmt_pure_quiet quiet_SearchLogs keeps_intros stmt_pure_scan)+

section \<open>Limits\<close>

lemma kept_Allow:
  assumes "\<not> mine k"
  shows "keeps W (Allow e (NewLimiter (store_of C b) cfg) k n win)"
proof -
  have "keeps W (with_client e (store_of C b) (\<lambda>c t. r_exec c t [CmdIncr k, CmdExpire k win]))"
    by (rule kept_exec) (use assms in auto)
  then show ?thesis
    unfolding Allow_def NewLimiter_def
    by (auto intro!: keeps_attempt keeps_ret keeps_fail split: sum.split err.split list.split)
qed

lemma kept_limit:
  assumes "\<And>k. \<not> mine k \<Longrightarrow> keeps W (f k)"
  shows "keeps W (call (call (Now e) (\<lambda>t. ret (''rl:'' @ g t))) f)"
  by (rule keeps_call_yields[of _ _ "\<lambda>k. \<not> mine k"])
     (auto intro!: keeps_call keeps_ret kept_quiet[OF quiet_Now] assms yieldsI simp: prog_simps mine_keys)

lemma kept_limits:
  "keeps W (call (IPMinuteKey e pfx ip) (\<lambda>k. Allow e (NewLimiter (store_of C b) cfg) k n win))"
  "keeps W (call (UserMinuteKey e pfx u) (\<lambda>k. Allow e (NewLimiter (store_of C b) cfg) k n win))"
  "keeps W (call (OrgDayKey e pfx org) (\<lambda>k. Allow e (NewLimiter (store_of C b) cfg) k n win))"
  unfolding key_defs by (intro kept_limit kept_Allow; assumption)+

lemma kept_AllowIngest: "keeps W (AllowIngest e (NewLimiter (store_of C b) cfg) org cfg')"
proof -
  have rl: "''rl:ingest:org:'' @ x = ''rl:'' @ (''ingest:org:'' @ x)" for x by simp
  show ?thesis
    unfolding AllowIngest_def key_defs rl by (intro kept_limit keeps_call kept_Allow; assumption)
qed

section \<open>Streams and AI\<close>

text \<open>An operation on the outside world that leaves the key space alone\<close>

definition spares :: "('r \<Rightarrow> 'b \<times> 'r) \<Rightarrow> bool" where
  "spares op \<longleftrightarrow> (\<forall>s. kspace (snd (op s)) = kspace s)"

lemma apart_spares:
  "spares (ws_upgrade (al_ws A))" "spares (ws_write (al_ws A) f)" "spares (sub_receive (al_ws A) ch)"
  "spares (http_do (al_ai A) rq)"
  using apart by (simp_all add: spares_def libs_apart_def)

lemma spares_W: "spares op \<Longrightarrow> op (redis w) = (x, s') \<Longrightarrow> W w \<Longrightarrow> W (w\<lparr>redis := s', tick := Suc (tick w)\<rparr>)"
  by (erule W_same[of w]) (auto simp: spares_def dest!: spec[of _ "redis w"])

lemma kept_outside: "spares op \<Longrightarrow> keeps W (with_outside op)"
  by (rule keepsI) (auto simp: with_outside_def split: prod.splits dest: spares_W)

lemma keeps_branch: "keeps I m \<Longrightarrow> keeps I (\<lambda>w. if c w then (Inr x, w) else m w)"
  by (simp add: keeps_def)

lemma kept_stream_loop: "keeps W (stream_loop n (al_ws A) cancelled channel)"
proof (induction n)
  case 0
  then show ?case by (simp add: keeps_def)
next
  case (Suc n)
  let ?L = "al_ws A"
  have out: "keeps W (call (with_outside (ws_write ?L f)) k)"
    if "\<And>x. keeps W (k x)" for f and k :: "bool \<Rightarrow> ('r, bool) app"
    by (intro keeps_call kept_outside apart_spares that)
  define k where "k msg = (case msg of
         Inl _ \<Rightarrow> (\<lambda>w1. if cancelled (tick w1) then (Inr True, w1)
           else call (with_outside (ws_write ?L (CloseFrame 1011 ''stream error''))) (\<lambda>_. ret True) w1)
       | Inr payload \<Rightarrow> call (with_outside (ws_write ?L (TextFrame payload))) (\<lambda>ok.
             if ok then stream_loop n ?L cancelled channel else ret True))" for msg :: "string + string"
  have "keeps W (k msg)" for msg
    using Suc by (cases msg) (auto simp: k_def intro!: out keeps_branch keeps_ret keeps_if)
  then have "keeps W (call (with_outside (sub_receive ?L channel)) k)"
    by (intro keeps_call kept_outside apart_spares)
  moreover have "stream_loop (Suc n) ?L cancelled channel = call (with_outside (sub_receive ?L channel)) k"
    by (rule ext) (auto simp: k_def call_def split: prod.splits sum.splits)
  ultimately show ?case by simp
qed

text \<open>The providers of the AI endpoints\<close>

definition sparing :: "'r ai_client \<Rightarrow> bool" where
  "sparing client \<longleftrightarrow> (\<forall>req. keeps W (cl_Generate client req))"

lemma sparing_ai:
  assumes "ai_handler getenv (al_ai A) = Some h"
  shows "sparing (primary (ai_orchestrator h))" and "sparing (fallback (ai_orchestrator h))"
proof -
  have trip: "keeps W (round_trip (al_ai A) rq)" for rq
    by (rule keepsI) (auto simp: round_trip_def split: prod.splits sum.splits dest: spares_W[OF apart_spares(4)])
  have "sparing (gemini_client (al_ai A) g)" "sparing (openrouter_client (al_ai A) o')" for g o'
    unfolding sparing_def gemini_client_def openrouter_client_def gemini_Generate_def openrouter_Generate_def Let_def
    by (auto intro!: keeps_call keeps_ret keeps_fail trip split: sum.split)
  then show "sparing (primary (ai_orchestrator h))" "sparing (fallback (ai_orchestrator h))"
    using assms by (auto simp: ai_handler_def split: option.splits)
qed

lemma kept_tryProvider:
  assumes "sparing client" and "W w" and "tryProvider client req D out w = (r, w')"
  shows "W w'"
proof -
  obtain v w1 where g: "cl_Generate client req w = (v, w1)" by fastforce
  have "keeps W (cl_Generate client req)" using assms(1) by (simp add: sparing_def)
  from keepsD[OF this assms(2) g] have "W w1" .
  moreover have "w' = w1"
    using assms(3) g by (auto simp: tryProvider_def split: sum.splits option.splits prod.splits if_splits)
  ultimately show ?thesis by simp
qed

lemma kept_RunJSON:
  assumes "sparing (primary orch)" and "sparing (fallback orch)" and "W w"
    and "RunJSON orch req m D out w = (r, w')"
  shows "W w'"
proof -
  obtain x out1 w1 where t: "tryProvider (primary orch) req D out w = ((x, out1), w1)"
    by (metis prod.exhaust)
  have w1: "W w1" using kept_tryProvider[OF assms(1,3) t] .
  show ?thesis
    using assms(4) t w1
    by (cases x; cases r) (auto simp: RunJSON_def split: if_splits elim: kept_tryProvider[OF assms(2) w1])
qed

lemma kept_with_ai:
  assumes "sparing (primary (ai_orchestrator h))" and "sparing (fallback (ai_orchestrator h))"
    and "\<And>run out. holds W (k run out)"
  shows "holds W (with_ai h useCase prompt D zero k)"
proof -
  have "W (snd (with_ai h useCase prompt D zero k w))" if "W w" for w
  proof -
    obtain x out w1 where r: "RunJSON (ai_orchestrator h)
        \<lparr>gr_UseCase = useCase, gr_Model = ''gemini-2.5-flash'', gr_Prompt = prompt\<rparr>
        (ai_fallbackModel h) D zero w = ((x, out), w1)" by (metis prod.exhaust)
    have "W w1" using kept_RunJSON[OF assms(1,2) that r] .
    then show ?thesis using r assms(3) by (cases x) (auto simp: with_ai_def holds_def)
  qed
  then show ?thesis by (simp add: holds_def)
qed

section \<open>The middleware\<close>

lemma holds_via: "holds W (h c) \<Longrightarrow> holds W (via f h c)"
  by (simp add: holds_def via_def case_prod_beta)

lemma holds_limits:
  "holds W (h c) \<Longrightarrow> holds W (RateLimitByIP e (NewLimiter (store_of C b) cfg) pfx n h c)"
  "holds W (h c) \<Longrightarrow> holds W (RateLimitByUser e (NewLimiter (store_of C b) cfg) pfx n h c)"
  "holds W (h c) \<Longrightarrow> holds W (RateLimitByOrgPerDay e (NewLimiter (store_of C b) cfg) pfx n h c)"
  by (auto simp: RateLimitByIP_def RateLimitByUser_def RateLimitByOrgPerDay_def
      intro!: holds_intros kept_limits split: option.split)

lemma holds_auth:
  assumes "\<And>c'. holds W (h c')"
  shows "holds W (RequireAuth (jwt_manager e L j) h c)"
  unfolding RequireAuth_def
  by (auto intro!: holds_intros assms kept_quiet[OF jwt.quiet_verify] split: prod.split)

lemma holds_roles:
  assumes "\<And>c'. holds W (h c')"
  shows "holds W (RequireOrgMember (GetOrgMemberRole e) h c)"
    and "holds W (RequireOrgDeveloper (GetOrgMemberRole e) h c)" and "holds W (RequireOrgAdmin e h c)"
  unfolding RequireOrgMember_def RequireOrgDeveloper_def RequireOrgAdmin_def
  by (intro holds_intros kept_quiet quiet_GetOrgMemberRole assms)+

section \<open>The handlers\<close>

lemma holds_users:
  "holds W (Register_handler e (main_user_service e L j C b ttl) body1)"
  "holds W (Login_handler e (main_user_service e L j C b ttl) body1)"
  "holds W (Refresh_handler e (main_user_service e L j C b ttl) body2)"
  "holds W (Logout_handler e (main_user_service e L j C b ttl) body2)"
  unfolding Register_handler_def Login_handler_def Refresh_handler_def Logout_handler_def
  by (intro holds_intros kept_users)+

lemma holds_services:
  assumes "kc_redis kc = store_of C b"
  shows "holds W (CreateService_handler e (main_key_service e kc) body1 c)"
    and "holds W (ListServices_handler e (main_key_service e kc) c)"
    and "holds W (GetService_handler e (main_key_service e kc) c)"
    and "holds W (UpdateService_handler e (main_key_service e kc) body1 c)"
    and "holds W (DeleteService_handler e (main_key_service e kc) c)"
    and "holds W (GenerateAPIKey_handler e (main_key_service e kc) body2 c)"
    and "holds W (ListAPIKeys_handler e (main_key_service e kc) c)"
    and "holds W (RevokeAPIKey_handler e (main_key_service e kc) c)"
    and "holds W (RotateAPIKey_handler e (main_key_service e kc) c)"
  unfolding CreateService_handler_def ListServices_handler_def GetService_handler_def UpdateService_handler_def
    DeleteService_handler_def GenerateAPIKey_handler_def ListAPIKeys_handler_def RevokeAPIKey_handler_def
    RotateAPIKey_handler_def
  by (auto intro!: holds_intros kept_services[OF assms])

abbreviation orgs :: "JWTService \<Rightarrow> bool \<Rightarrow> 'r OrgService" where
  "orgs j b \<equiv> main_org_service e (al_jwt A) j (al_invites A) C b"

lemma holds_orgs:
  shows "holds W (CreateOrganization_handler e (orgs j b) body1 c)" and "holds W (ListMyOrgs_handler e (orgs j b) c)"
    and "holds W (GetOrganization_handler e (orgs j b) c)" and "holds W (SendEmailInvite_handler e (orgs j b) body2 c)"
    and "holds W (JoinViaToken_handler e (orgs j b) body1 c)" and "holds W (GenerateInviteCode_handler e (orgs j b) c)"
    and "holds W (JoinViaCode_handler e (orgs j b) body1 c)"
  unfolding CreateOrganization_handler_def ListMyOrgs_handler_def GetOrganization_handler_def
    SendEmailInvite_handler_def JoinViaToken_handler_def GenerateInviteCode_handler_def JoinViaCode_handler_def
  by (auto intro!: holds_intros W_organizations kept_quiet[OF quiet_org_queries(1)] kept_quiet[OF quiet_org_queries(2)])

lemma holds_logs:
  "holds W (telemetry_Health c)" "holds W (GetLog_handler e c)" "holds W (GetLogByOrg_handler e c)"
  "holds W (SearchLogs_handler e L qp c)"
  unfolding telemetry_Health_def GetLog_handler_def GetLogByOrg_handler_def SearchLogs_handler_def
  by (auto intro!: holds_intros kept_logs split: sum.split)

lemma holds_ai:
  assumes "sparing (primary (ai_orchestrator h))" and "sparing (fallback (ai_orchestrator h))"
  shows "holds W (NLQ e L h D1 body1 c)" and "holds W (Summarize L enc h D2 zero body2 c)"
    and "holds W (Investigate L enc h D3 zero body3 c)"
  unfolding NLQ_def Summarize_def Investigate_def
  by (auto intro!: holds_intros kept_with_ai assms kept_logs split: option.split)

lemma holds_stream:
  assumes "kc_redis kc = store_of C b"
  shows "holds W (StreamServiceLogs n e (al_ws A) rs (main_key_service e kc) cancelled c)"
proof -
  define up :: "('r, bool) handler" where "up w = (case ws_upgrade (al_ws A) (redis w) of
      (Inl (status, t), r) \<Rightarrow> (Failure status t, w\<lparr>redis := r, tick := Suc (tick w)\<rparr>)
    | (Inr _, r) \<Rightarrow> respond 101 (\<lambda>_. internal_error) (\<lambda>x. x)
        (stream_loop n (al_ws A) cancelled (ServiceChannel (p_serviceId c))) (w\<lparr>redis := r, tick := Suc (tick w)\<rparr>))" for w
  have loop: "holds W (respond 101 (\<lambda>_. internal_error) (\<lambda>x. x) (stream_loop n (al_ws A) cancelled ch))" for ch
    by (intro holds_intros kept_stream_loop)
  have "W (snd (up w))" if "W w" for w
    using spares_W[OF apart_spares(1) _ that] loop
    by (auto simp: up_def holds_def split: prod.splits sum.splits)
  then have "holds W up" by (simp add: holds_def)
  then show ?thesis
    unfolding StreamServiceLogs_def up_def[abs_def] by (intro holds_intros kept_services[OF assms])
qed

section \<open>The API server\<close>

lemma api_parts:
  assumes "api_main e getenv A \<lparr>rs_client = Some C, rs_available = b\<rparr> = Inr S"
  obtains j ttl kc cfg where "sv_env S = e" and "sv_tokens S = jwt_manager e (al_jwt A) j"
    and "sv_limiter S = NewLimiter (store_of C b) cfg" and "sv_access S = GetOrgMemberRole e"
    and "sv_users S = main_user_service e (al_jwt A) j C b ttl"
    and "sv_orgs S = orgs j b"
    and "sv_services S = main_key_service e kc" and "kc_redis kc = store_of C b"
    and "sv_ws S = al_ws A" and "sv_ai S = ai_handler getenv (al_ai A)"
  using assms
  by (auto simp: api_main_def Let_def NewService_def sv_access_def store_of_def main_user_service_def
      main_org_service_def main_key_service_def NewAPIKeyCache_def split: sum.splits option.splits if_splits)

lemma serve_keeps:
  assumes "api_main e getenv A \<lparr>rs_client = Some C, rs_available = b\<rparr> = Inr S"
  shows "holds W (serve S route c)"
proof (rule api_parts[OF assms])
  fix j ttl kc cfg
  assume S: "sv_env S = e" "sv_tokens S = jwt_manager e (al_jwt A) j" "sv_limiter S = NewLimiter (store_of C b) cfg"
    "sv_access S = GetOrgMemberRole e" "sv_users S = main_user_service e (al_jwt A) j C b ttl"
    "sv_orgs S = orgs j b" "sv_services S = main_key_service e kc"
    "sv_ws S = al_ws A" and kc: "kc_redis kc = store_of C b" and ai: "sv_ai S = ai_handler getenv (al_ai A)"
  have auth: "holds W (authGroup S h c)" if "\<And>c. holds W (h c)" for h :: "('r, 'x) endpoint" and c
    unfolding authGroup_def S by (intro holds_limits that)
  have orgs: "holds W (orgsGroup S h c)" if "\<And>c. holds W (h c)" for h :: "('r, 'x) endpoint" and c
    unfolding orgsGroup_def S by (intro holds_auth holds_limits that)
  have svcs: "holds W (servicesGroup S h c)" if "\<And>c. holds W (h c)" for h :: "('r, 'x) endpoint" and c
    unfolding servicesGroup_def S by (intro orgs holds_roles that)
  have writes: "holds W (servicesWriteGroup S h c)" if "\<And>c. holds W (h c)" for h :: "('r, 'x) endpoint" and c
    unfolding servicesWriteGroup_def S by (intro svcs holds_roles that)
  have ai_ok: "holds W (with_ai_routes S h c)"
    if "\<And>a c. sparing (primary (ai_orchestrator a)) \<Longrightarrow> sparing (fallback (ai_orchestrator a)) \<Longrightarrow> holds W (h a c)"
    for h :: "'r AiHandler \<Rightarrow> ('r, 'x) endpoint" and c
    using that sparing_ai
    by (auto simp: with_ai_routes_def ai aiGroup_def S intro!: orgs holds_intros holds_roles holds_limits
        split: option.split)
  show ?thesis
    by (cases route)
       (auto simp: S intro!: auth orgs svcs writes ai_ok holds_via holds_auth holds_roles holds_users
          holds_services[OF kc] holds_logs holds_ai holds_orgs holds_stream[OF kc])
qed

section \<open>The ingestor and the consumer\<close>

lemma kept_Resolve:
  assumes "kc_redis kc = store_of C b" and "kc_lookup kc = KeyLookup e"
  shows "keeps W (Resolve e J kc raw)"
  unfolding Resolve_def resolve_slow_def loadRecord_def Let_def assms validationKey_def
  by (auto intro!: kept_cases kept_reads kept_exec kept_quiet[OF quiet_KeyLookup] simp: mine_keys)

end

text \<open>With the broker\<close>

locale resident_system = resident C kspace W mine e A + platform C kspace K part
  for C :: "'r redis_client" and kspace and W and mine and e and A :: "('r, 'f) api_libs" and K part
begin

lemma kept_kafka:
  "keeps W (with_kafka (k_write K m))" "keeps W (with_kafka (k_fetch K))" "keeps W (with_kafka (k_commit K off))"
proof -
  have "keeps W (with_kafka op)" if "\<And>s r s'. op s = (r, s') \<Longrightarrow> kspace s' = kspace s"
    for op :: "'r \<Rightarrow> (string + 'x) \<times> 'r"
  proof (rule keepsI)
    fix w r w' assume "W w" and run: "with_kafka op w = (r, w')"
    obtain v s' where op: "op (redis w) = (v, s')" by fastforce
    then have "w' = w\<lparr>redis := s', tick := Suc (tick w)\<rparr>" using run by (auto simp: with_kafka_def split: sum.splits)
    then show "W w'" using W_same[OF \<open>W w\<close>] that[OF op] by simp
  qed
  then show "keeps W (with_kafka (k_write K m))" "keeps W (with_kafka (k_fetch K))" "keeps W (with_kafka (k_commit K off))"
    using write_keys fetch_keys commit_keys by blast+
qed

lemma kept_publish: "keeps W (publish_request e E (ingestor_handler e getenv (store_of C b) K) res sev req)"
  unfolding publish_request_def build_entry_def Publish_def ingestor_handler_def Let_def
  by (auto intro!: kept_step kept_kafka kept_quiet[OF quiet_Now] kept_quiet[OF quiet_NewString] split: option.split)

lemma ingestor_parts:
  "ih_limiter (ingestor_handler e getenv (store_of C b) K) = NewLimiter (store_of C b) (LoadConfig getenv)"
  "kc_redis (ih_keyCache (ingestor_handler e getenv (store_of C b) K)) = store_of C b"
  "kc_lookup (ih_keyCache (ingestor_handler e getenv (store_of C b) K)) = KeyLookup e"
  by (simp_all add: ingestor_handler_def NewAPIKeyCache_def)

lemma ingest_log_keeps: "holds W (IngestLog e J E (ingestor_handler e getenv (store_of C b) K) body c)"
proof -
  let ?h = "ingestor_handler e getenv (store_of C b) K"
  have limit: "holds W (limit_ingest m k)" if "keeps W m" and "holds W k" for m and k :: "('r, string) handler"
  proof -
    have "W (snd (limit_ingest m k w))" if "W w" for w
    proof -
      obtain r w1 where m: "m w = (r, w1)" by fastforce
      have "W w1" using keepsD[OF \<open>keeps W m\<close> \<open>W w\<close> m] .
      then show ?thesis using m \<open>holds W k\<close> by (auto simp: limit_ingest_def holds_def split: sum.splits err.splits)
    qed
    then show ?thesis by (simp add: holds_def)
  qed
  have body: "holds W (ingest_body e E ?h b' res)" for b' res
    unfolding ingest_body_def by (auto intro!: holds_intros kept_publish split: sum.split)
  show ?thesis
    unfolding IngestLog_def
    by (auto intro!: holds_intros kept_Resolve limit kept_AllowIngest body ingestor_parts simp: ingestor_parts
        split: sum.split)
qed

lemma ingestor_keeps: "holds W (ingestor_routes e J E (ingestor_handler e getenv (store_of C b) K) route c)"
  unfolding ingestor_routes_def ingestor_parts
  by (intro holds_limits) (auto simp: ingest_Health_def intro!: holds_intros ingest_log_keeps split: ingest_route.split)

lemma consume_keeps: "keeps W (consume_once e K E (store_of C b) cancelled)"
proof -
  have sleep: "keeps W (Sleep d)" for d by (rule keepsI) (auto simp: Sleep_def elim!: W_same)
  have pub: "keeps W (PublishLog e (store_of C b) E x)" for x
    unfolding PublishLog_def by (auto intro!: kept_step kept_reads split: option.split)
  have entry: "keeps W (consume_entry e K E (store_of C b) x off)" for x off
    unfolding consume_entry_def Commit_def
    by (auto intro!: kept_step kept_kafka W_logs sleep pub split: sum.split)
  have "keeps W (\<lambda>w. (case r of
         Inl _ \<Rightarrow> (if cancelled (tick w) then ret False else call (Sleep Second) (\<lambda>_. ret True)) w
       | Inr (x, msg) \<Rightarrow> consume_entry e K E (store_of C b) x msg w))" for r :: "err + LogEntry \<times> nat"
  proof (cases r)
    case (Inl a)
    have "keeps W (call (Sleep Second) (\<lambda>_. ret True))" by (intro kept_step sleep)
    then show ?thesis using Inl by (auto simp: keeps_def ret_def)
  next
    case (Inr p)
    then show ?thesis using entry by (cases p) simp
  qed
  then show ?thesis
    unfolding consume_once_def Fetch_def
    by (intro keeps_attempt) (auto intro!: kept_step kept_kafka split: option.split)
qed

text \<open>Every step of the deployment keeps the invariant.\<close>

lemma step_keeps:
  assumes "system_step C kspace K part e A J E w w'" and "W w"
  shows "W w'"
  using assms(1)
proof (cases rule: system_step.cases)
  case (api_request getenv addr ok S route c a)
  obtain b S' where "api_main e getenv A \<lparr>rs_client = Some C, rs_available = b\<rparr> = Inr S'" and "serve S' = serve S"
    using api_connected[OF api_request(1)] by blast
  then show ?thesis using holdsD[OF serve_keeps assms(2)] api_request(2) by metis
next
  case (ingest_request getenv addr ok route c a)
  then show ?thesis using holdsD[OF ingestor_keeps assms(2)] ingestor_connected by metis
next
  case (consumption addr ok cancelled r)
  then show ?thesis using keepsD[OF consume_keeps assms(2)] consumer_connected by metis
next
  case reader_restart
  then show ?thesis using W_same[OF assms(2)] by simp
next
  case (retention hours r)
  have "keeps W (runOnce e hours)"
    unfolding runOnce_def Let_def by (intro kept_step kept_quiet[OF quiet_Now] W_logs)
  from keepsD[OF this assms(2)] retention show ?thesis by blast
next
  case (idling n)
  then show ?thesis using W_same[OF assms(2)] by simp
qed

lemma steps_keep: "(system_step C kspace K part e A J E)\<^sup>*\<^sup>* w w' \<Longrightarrow> W w \<Longrightarrow> W w'"
  by (induction rule: rtranclp_induct) (auto intro: step_keeps)

end

end
