(* ===== verification/Component_Frames.thy ===== *)
theory Component_Frames
  imports Resident Key_Cache_Contract
begin

text \<open>
  Which part of the state each component leaves alone, whatever it is asked and whatever fails:
  the users write the tables of users and sessions, the organizations their four tables and the
  cached invitations, the services theirs and the audit trail, and the pipeline the entries.
  \<open>untouched v\<close> says so of two worlds, where \<open>v\<close> reads the tables that stay as they are.
\<close>

section \<open>Tables and keys\<close>

definition org_tables :: "database \<Rightarrow> Organization list \<times> OrgMember list \<times> OrgInvite list \<times> OrgInviteCode list" where
  "org_tables d = (organizations d, org_members d, org_invites d, org_invite_codes d)"

definition key_tables :: "database \<Rightarrow> ServiceRow list \<times> APIKeyRow list \<times> AuditRow list" where
  "key_tables d = (services d, service_api_keys d, audit_events d)"

definition invite_key :: "string \<Rightarrow> bool" where
  "invite_key k \<longleftrightarrow> HasPrefix k inviteTokenKeyPref"

lemma invite_keys: "invite_key (inviteTokenKeyPref @ tok)" "\<not> invite_key (prefixKey x)" "\<not> invite_key (revokedKey x)"
  "\<not> invite_key (refreshTokenKeyPref @ x)" "\<not> invite_key (''rl:'' @ x)" "\<not> invite_key (''apikey:validated:'' @ x)"
  by (simp_all add: invite_key_def HasPrefix_def inviteTokenKeyPref_def prefixKey_def revokedKey_def refreshTokenKeyPref_def)

definition untouched ::
    "(database \<Rightarrow> 'x) \<Rightarrow> ('r \<Rightarrow> keyspace) \<Rightarrow> (string \<Rightarrow> bool) \<Rightarrow> 'r world \<Rightarrow> 'r world \<Rightarrow> bool" where
  "untouched v kspace keys w w' \<longleftrightarrow>
     (db_ok (db w) \<longrightarrow> db_ok (db w')) \<and> v (db w') = v (db w) \<and>
     (\<forall>k. keys k \<longrightarrow> kspace (redis w') k = kspace (redis w) k) \<and> tick w \<le> tick w'"

lemma untouched_refl: "untouched v kspace keys w w"
  by (simp add: untouched_def)

lemma untouched_trans: "untouched v kspace keys w w' \<Longrightarrow> untouched v kspace keys w' w'' \<Longrightarrow> untouched v kspace keys w w''"
  by (auto simp: untouched_def)

abbreviation spared :: "(database \<Rightarrow> 'x) \<Rightarrow> ('r \<Rightarrow> keyspace) \<Rightarrow> (string \<Rightarrow> bool) \<Rightarrow> ('r, 'a) app \<Rightarrow> bool" where
  "spared v kspace keys m \<equiv> (\<forall>w0. keeps (untouched v kspace keys w0) m)"

lemma sparedI: "(\<And>w r w'. m w = (r, w') \<Longrightarrow> untouched v kspace keys w w') \<Longrightarrow> spared v kspace keys m"
  by (intro allI keepsI) (blast intro: untouched_trans)

lemma sparedD: "spared v kspace keys m \<Longrightarrow> m w = (r, w') \<Longrightarrow> untouched v kspace keys w w'"
  by (metis keepsD untouched_refl)

lemma keeps_spared:
  assumes "spared v kspace keys m" and "\<And>w w'. W w \<Longrightarrow> untouched v kspace keys w w' \<Longrightarrow> W w'"
  shows "keeps W m"
  by (rule keepsI) (blast intro: assms(2) sparedD[OF assms(1)])

section \<open>Statements\<close>

definition writes :: "(database \<Rightarrow> 'x) \<Rightarrow> 'a stmt \<Rightarrow> bool" where
  "writes v q \<longleftrightarrow> (\<forall>t u d r d'. q t u d = (r, d') \<longrightarrow> v d' = v d \<and> (db_ok d \<longrightarrow> db_ok d'))"

lemma writes_with_uuid: "(\<And>i. writes v (q i)) \<Longrightarrow> writes v (with_uuid e x q)"
  by (simp add: writes_def with_uuid_def split: option.split)

lemma writes_returning: "writes v q \<Longrightarrow> writes v (\<lambda>t u d. returning f (q t u d))"
  unfolding writes_def returning_def by (metis prod.case_eq_if prod.collapse snd_conv)

lemma writes_insert:
  "(\<And>d xs. v (d\<lparr>users := xs\<rparr>) = v d) \<Longrightarrow> writes v (\<lambda>t u. insert_user (f1 t u))"
  "(\<And>d xs. v (d\<lparr>refresh_tokens := xs\<rparr>) = v d) \<Longrightarrow> writes v (\<lambda>t u. insert_refresh_token (f2 t u))"
  "(\<And>d xs. v (d\<lparr>organizations := xs\<rparr>) = v d) \<Longrightarrow> writes v (\<lambda>t u. insert_organization (f3 t u))"
  "(\<And>d xs. v (d\<lparr>org_members := xs\<rparr>) = v d) \<Longrightarrow> writes v (\<lambda>t u. insert_org_member (f4 t u))"
  "(\<And>d xs. v (d\<lparr>org_invites := xs\<rparr>) = v d) \<Longrightarrow> writes v (\<lambda>t u. insert_org_invite (f5 t u))"
  "(\<And>d xs. v (d\<lparr>org_invite_codes := xs\<rparr>) = v d) \<Longrightarrow> writes v (\<lambda>t u. insert_org_invite_code (f6 t u))"
  unfolding writes_def
  by (auto dest: insert_ok, auto simp: insert_defs constrained_def split: if_splits)

lemma spared_pg: "writes v q \<Longrightarrow> spared v kspace keys (pg e q)"
  by (rule sparedI)
     (auto simp: pg_def Let_def untouched_def writes_def split: option.splits prod.splits sum.splits)

lemma spared_quiet: "quiet m \<Longrightarrow> spared v kspace keys m"
  by (rule sparedI) (auto dest!: quietD simp: untouched_def)

lemma spared_transaction:
  assumes "spared v kspace keys body"
  shows "spared v kspace keys (transaction e body)"
proof (rule sparedI)
  fix w r w' assume tx: "transaction e body w = (r, w')"
  obtain r2 w2 where b: "body (w\<lparr>tick := Suc (tick w)\<rparr>) = (r2, w2)" by fastforce
  with sparedD[OF assms b] tx show "untouched v kspace keys w w'"
    by (auto simp: transaction_def pg_def Let_def untouched_def split: option.splits sum.splits)
qed

lemma spared_combine:
  "spared v kspace keys m \<Longrightarrow> (\<And>x. spared v kspace keys (k x)) \<Longrightarrow> spared v kspace keys (call m k)"
  "spared v kspace keys m \<Longrightarrow> (\<And>r. spared v kspace keys (k' r)) \<Longrightarrow> spared v kspace keys (attempt m k')"
  "spared v kspace keys (ret x)" "spared v kspace keys (fail f)"
  "spared v kspace keys a \<Longrightarrow> spared v kspace keys b \<Longrightarrow> spared v kspace keys (if c then a else b)"
  "spared v kspace keys m \<Longrightarrow> spared v kspace keys (on_unique f m)"
  by (simp_all add: keeps_call keeps_attempt keeps_ret keeps_fail keeps_on_unique)

section \<open>The users and the entries\<close>

lemma users_spared:
  assumes "\<And>d xs. v (d\<lparr>users := xs\<rparr>) = v d" and "\<And>d xs. v (d\<lparr>refresh_tokens := xs\<rparr>) = v d"
  shows "spared v kspace keys (CreateUser e em h)" and "spared v kspace keys (StoreRefreshToken e u h t)"
    and "spared v kspace keys (DeleteRefreshToken e h)"
proof -
  have "writes v (\<lambda>now i d. (Inr (), d\<lparr>refresh_tokens := filter p (refresh_tokens d)\<rparr>))" for p
    using assms(2) refresh_tokens_filter_ok by (auto simp: writes_def)
  then show "spared v kspace keys (DeleteRefreshToken e h)" unfolding DeleteRefreshToken_def by (rule spared_pg)
  show "spared v kspace keys (CreateUser e em h)" "spared v kspace keys (StoreRefreshToken e u h t)"
    unfolding CreateUser_def StoreRefreshToken_def
    by (intro spared_pg writes_with_uuid writes_returning writes_insert assms)+
qed

text \<open>Entries are written to their table only, and keep its constraints.\<close>

lemma writes_entry:
  assumes "\<And>d xs. v (d\<lparr>logs := xs\<rparr>) = v d"
  shows "writes v (insert_entry e x)"
  unfolding writes_def
proof (intro allI impI)
  fix t u d r d' assume "insert_entry e x t u d = (r, d')"
  then have "d' = d \<or> (\<exists>row. accepts row d \<and> d' = d\<lparr>logs := logs d @ [row]\<rparr>)"
    using insert_entry_eq[of e x t u d] by (auto split: option.splits if_splits)
  then show "v d' = v d \<and> (db_ok d \<longrightarrow> db_ok d')"
  proof (elim disjE exE conjE)
    fix row assume "accepts row d" and d': "d' = d\<lparr>logs := logs d @ [row]\<rparr>"
    then have "insert_log row d = (Inr row, d')" using insert_log_eq[of row d] by auto
    then show ?thesis using d' insert_log_ok assms by simp
  qed simp
qed

lemma writes_batch: "(\<And>d xs. v (d\<lparr>logs := xs\<rparr>) = v d) \<Longrightarrow> writes v (insert_batch e xs)"
proof (induction xs)
  case (Cons x xs)
  then show ?case
    using writes_entry[of v e x]
    by (simp add: writes_def split: prod.split sum.split)
qed (simp add: writes_def)

lemma logs_spared:
  assumes "\<And>d xs. v (d\<lparr>logs := xs\<rparr>) = v d"
  shows "spared v kspace keys (InsertLogs e xs)" and "spared v kspace keys (DeleteOlderThan e cutoff)"
proof -
  have "db_ok (d\<lparr>logs := filter q (logs d)\<rparr>)" if "db_ok d" for d q
    using that by (auto simp: ok_defs distinct_map_filter)
  then have "writes v (\<lambda>now i d. (Inr (f d), d\<lparr>logs := filter q (logs d)\<rparr>))" for f :: "database \<Rightarrow> int" and q
    using assms by (auto simp: writes_def)
  then show "spared v kspace keys (DeleteOlderThan e cutoff)" unfolding DeleteOlderThan_def by (rule spared_pg)
  show "spared v kspace keys (InsertLogs e xs)"
    unfolding InsertLogs_def by (intro spared_combine spared_pg writes_batch assms)
qed

section \<open>The organizations\<close>

lemma key_tables_same:
  "key_tables (d\<lparr>users := a\<rparr>) = key_tables d" "key_tables (d\<lparr>refresh_tokens := b\<rparr>) = key_tables d"
  "key_tables (d\<lparr>organizations := c\<rparr>) = key_tables d" "key_tables (d\<lparr>org_members := m\<rparr>) = key_tables d"
  "key_tables (d\<lparr>org_invites := i\<rparr>) = key_tables d" "key_tables (d\<lparr>org_invite_codes := o'\<rparr>) = key_tables d"
  "key_tables (d\<lparr>logs := l\<rparr>) = key_tables d"
  by (simp_all add: key_tables_def)

lemma org_tables_same:
  "org_tables (d\<lparr>users := a\<rparr>) = org_tables d" "org_tables (d\<lparr>refresh_tokens := b\<rparr>) = org_tables d"
  "org_tables (d\<lparr>logs := l\<rparr>) = org_tables d"
  by (simp_all add: org_tables_def)

lemma org_writes_spared:
  "spared key_tables kspace keys (CreateOrg e name u)" "spared key_tables kspace keys (AddOrgMember e org u role)"
  "spared key_tables kspace keys (CreateInviteToken e org u em role h t)"
  "spared key_tables kspace keys (CreateInviteCode e org code u role act)"
  "spared key_tables kspace keys (MarkInviteAccepted e i)"
proof -
  show "spared key_tables kspace keys (CreateOrg e name u)" "spared key_tables kspace keys (AddOrgMember e org u role)"
    "spared key_tables kspace keys (CreateInviteToken e org u em role h t)"
    "spared key_tables kspace keys (CreateInviteCode e org code u role act)"
    unfolding CreateOrg_def AddOrgMember_def CreateInviteToken_def CreateInviteCode_def
    by (intro spared_transaction spared_combine spared_pg writes_with_uuid writes_insert key_tables_same)+
  have "writes key_tables (\<lambda>now u d. (Inr (f d), d\<lparr>org_invites := accept_invite iid now (org_invites d)\<rparr>))"
    for f :: "database \<Rightarrow> nat" and iid by (auto simp: writes_def key_tables_same accept_invite_ok)
  then show "spared key_tables kspace keys (MarkInviteAccepted e i)"
    unfolding MarkInviteAccepted_def by (intro spared_combine spared_pg writes_with_uuid)
qed

context redis_server
begin

lemma spared_client:
  assumes "\<And>t s r s' k. op C t s = (r, s') \<Longrightarrow> keys k \<Longrightarrow> kspace s' k = kspace s k"
  shows "spared v kspace keys (with_client e (store_of C b) op)"
  by (rule sparedI)
     (auto simp: with_client_store_of untouched_def split: prod.splits sum.splits dest: assms)

lemma org_cache_spared:
  assumes "\<And>tok. \<not> keys (inviteTokenKeyPref @ tok)"
  shows "spared v kspace keys (storeInviteTokenInCache (main_org_service e L j J C b) tok p)"
    and "spared v kspace keys (lookupInviteTokenInCache (main_org_service e L j J C b) tok)"
    and "spared v kspace keys (deleteInviteTokenFromCache (main_org_service e L j J C b) tok)"
proof -
  have "spared v kspace keys (with_client e (store_of C b) (\<lambda>c t. r_exec c t [c1]))"
    if "cmd_key c1 = inviteTokenKeyPref @ tok" for c1 tok
    by (rule spared_client) (rule exec_other, assumption, use assms that in auto)
  moreover have "spared v kspace keys (with_client e (store_of C b) (\<lambda>c t. r_get c t k))" for k
    by (rule spared_client) (simp add: get_pure)
  ultimately show "spared v kspace keys (storeInviteTokenInCache (main_org_service e L j J C b) tok p)"
    "spared v kspace keys (lookupInviteTokenInCache (main_org_service e L j J C b) tok)"
    "spared v kspace keys (deleteInviteTokenFromCache (main_org_service e L j J C b) tok)"
    unfolding storeInviteTokenInCache_def lookupInviteTokenInCache_def deleteInviteTokenFromCache_def
      main_org_service_def RedisInviteCache_def
    by (auto intro!: keeps_call keeps_attempt keeps_ret keeps_fail split: option.split)
qed

lemma organizations_spared:
  fixes e L j J b
  assumes "\<And>tok. \<not> keys (inviteTokenKeyPref @ tok)"
  defines "s \<equiv> main_org_service e L j J C b"
  shows "spared key_tables kspace keys (CreateOrganization e s u nm)"
    and "spared key_tables kspace keys (SendEmailInvite e s org u em role)"
    and "spared key_tables kspace keys (JoinViaToken e s u raw)"
    and "spared key_tables kspace keys (GenerateInviteCode e s org u)"
    and "spared key_tables kspace keys (JoinViaCode e s u code)"
proof -
  have cache: "spared key_tables kspace keys (storeInviteTokenInCache s tok p)"
      "spared key_tables kspace keys (lookupInviteTokenInCache s tok)"
      "spared key_tables kspace keys (deleteInviteTokenFromCache s tok)" for tok p
    unfolding s_def by (intro org_cache_spared assms)+
  note steps = spared_combine org_writes_spared cache spared_quiet[OF quiet_org_reads(1)] spared_quiet[OF quiet_org_reads(2)]
    spared_quiet[OF quiet_org_reads(3)] spared_quiet[OF quiet_org_reads(4)] spared_quiet[OF quiet_org_reads(5)]
    spared_quiet[OF quiet_org_reads(6)] spared_quiet[OF quiet_Now] spared_quiet[OF quiet_NewString]
  show "spared key_tables kspace keys (CreateOrganization e s u nm)" "spared key_tables kspace keys (SendEmailInvite e s org u em role)"
    "spared key_tables kspace keys (GenerateInviteCode e s org u)" "spared key_tables kspace keys (JoinViaCode e s u code)"
    unfolding CreateOrganization_def SendEmailInvite_def GenerateInviteCode_def JoinViaCode_def by (intro steps)+
  have look: "spared key_tables kspace keys (lookupInvite e s raw)"
    unfolding lookupInvite_def by (intro steps) (auto split: sum.split intro!: keeps_call keeps_ret steps[rule_format])
  have "spared key_tables kspace keys (join_admit e s u raw)"
    unfolding join_admit_def by (rule spared_combine(1)[OF look]) (auto split: prod.split intro!: keeps_call keeps_if keeps_ret keeps_fail steps[rule_format])
  moreover have "spared key_tables kspace keys (join_commit e s u raw org role i)" for org role i
    unfolding join_commit_def by (intro steps)
  ultimately show "spared key_tables kspace keys (JoinViaToken e s u raw)"
    unfolding JoinViaToken_def by (intro steps) (auto split: prod.split)
qed

end

section \<open>The services\<close>

definition visited :: "database \<Rightarrow> database \<Rightarrow> bool" where
  "visited d0 d \<longleftrightarrow> (db_ok d0 \<longrightarrow> db_ok d) \<and> org_tables d = org_tables d0"

lemma visited_refl: "visited d d"
  by (simp add: visited_def)

lemma visited_audit: "visited d0 d \<Longrightarrow> audit_grows d d' \<Longrightarrow> visited d0 d'"
  by (auto simp: visited_def org_tables_def db_ok_audit audit_grows_def)

sublocale service_env \<subseteq> visitor: service_invariant e s org "\<lambda>n. visited d0" for org d0
proof (unfold_locales, goal_cases)
  case (1 n d n' d')
  then show ?case using visited_audit by blast
next
  case (2 n d x y d')
  then have "db_ok d \<longrightarrow> db_ok d'" using insert_service_ok by blast
  with 2 show ?case by (auto simp: visited_def org_tables_def insert_service_def constrained_Inr)
next
  case (3 n d oid sid nm ds t i y d')
  then have "db_ok d \<longrightarrow> db_ok d'" using update_service_ok by blast
  with 3 show ?case
    by (auto simp: visited_def org_tables_def update_service_def constrained_Inr Let_def split: option.splits)
next
  case (4 n d oid sid t i z d')
  then have "db_ok d \<longrightarrow> db_ok d'" using soft_delete_ok by blast
  with 4 show ?case by (auto simp: visited_def org_tables_def soft_delete_def)
next
  case (5 n d k k' d')
  then have "db_ok d \<longrightarrow> db_ok d'" using insert_api_key_ok by blast
  with 5 show ?case by (auto simp: visited_def org_tables_def dest!: insert_api_key_Inr)
next
  case (6 n d oid kid sid i k' d')
  then have "db_ok d \<longrightarrow> db_ok d'" using revoke_ok by blast
  with 6 show ?case by (auto simp: visited_def org_tables_def dest!: revoke_stmt_Inr)
next
  case (7 n d oid kid sid i k' d1 k k'' d')
  then have "db_ok d \<longrightarrow> db_ok d1" using revoke_ok by blast
  moreover have "db_ok d1 \<longrightarrow> db_ok d'" using 7 insert_api_key_ok by blast
  ultimately show ?case using 7
    by (auto simp: visited_def org_tables_def dest!: revoke_stmt_Inr insert_api_key_Inr)
qed

context redis_server
begin

text \<open>An invalidation names the record and the marker of its prefix only.\<close>

lemma Invalidate_spared:
  assumes "kc_redis kc = store_of C b" and "\<And>x. \<not> keys (prefixKey x)" and "\<not> keys (revokedKey pfx)"
  shows "spared v kspace keys (Invalidate e kc pfx)"
proof -
  have "spared v kspace keys (with_client e (store_of C b) (\<lambda>cl t.
      r_exec cl t [CmdDel (prefixKey pfx), CmdSet (revokedKey pfx) x d]))" for x d
    by (rule spared_client) (rule exec_other, assumption, use assms(2,3) in auto)
  then show ?thesis unfolding Invalidate_def assms(1) by (intro spared_combine)
qed

lemma services_spared:
  assumes "uuid_law e" and "kc_redis kc = store_of C b" and "\<And>x. \<not> keys (prefixKey x)" and "\<And>x. \<not> keys (revokedKey x)"
  shows "spared org_tables kspace keys (svc_run e (main_key_service e kc) p)"
proof (rule sparedI)
  fix w r w' assume run: "svc_run e (main_key_service e kc) p w = (r, w')"
  let ?Q = "\<lambda>n s. tick w \<le> n \<and> (\<forall>k. keys k \<longrightarrow> kspace s k = kspace (redis w) k)"
  have "keeps (\<lambda>w. ?Q (tick w) (redis w)) (svc_run e (main_key_service e kc) p)"
  proof (rule main_keys.op_redis[where Q = ?Q])
    fix kinv pfx assume "ss_keyInvalidator (main_key_service e kc) = Some kinv"
    then have kinv: "kinv = Invalidate e kc" by (simp add: main_key_service_def)
    have "spared (\<lambda>_. ()) kspace keys (Invalidate e kc pfx)"
      by (rule Invalidate_spared[OF assms(2-4)])
    then show "keeps (\<lambda>w. ?Q (tick w) (redis w)) (kinv pfx)"
      unfolding kinv by (rule keeps_spared) (auto simp: untouched_def)
  qed (auto simp: lasting_def)
  from keepsD[OF this _ run] have "?Q (tick w') (redis w')" by simp
  moreover have "visited (db w) (db w')" by (rule keepsD[OF main_keys.visitor.op_keeps[OF assms(1) refl] visited_refl run])
  ultimately show "untouched org_tables kspace keys w w'" by (simp add: untouched_def visited_def)
qed

end

end
