(* ===== verification/Api_State.thy ===== *)
theory Api_State
  imports Component_Frames
begin

text \<open>
  The invariant of internal/org in a whole deployment: the other components write neither the
  tables of the organizations nor the cached invitations. So it is a \<open>resident\<close>, and every step
  of the three programs keeps it.
\<close>

section \<open>Invariants of the organizations\<close>

locale deployment = redis_server C kspace
  for C :: "'r redis_client" and kspace :: "'r \<Rightarrow> keyspace" +
  fixes e :: env and A :: "('r, 'f) api_libs"
  assumes uuids: "uuid_law e" and libs: "libs_apart kspace A"

locale api_deployment = deployment C kspace e A
  for C :: "'r redis_client" and kspace :: "'r \<Rightarrow> keyspace" and e and A :: "('r, 'f) api_libs" +
  assumes codec: "codec_law (al_invites A)"
begin

abbreviation Inv :: "'r world \<Rightarrow> bool" where
  "Inv w \<equiv> org_inv e (jwt_HashToken e) (invite_view kspace (al_invites A)) (db w) (redis w)"

lemma Inv_untouched:
  assumes "Inv w" and "untouched org_tables kspace invite_key w w'"
  shows "Inv w'"
proof -
  have view: "invite_view kspace (al_invites A) (redis w') = invite_view kspace (al_invites A) (redis w)"
    using assms(2) by (intro ext invite_view_cong) (simp add: untouched_def invite_keys)
  have same: "organizations (db w') = organizations (db w)" "org_members (db w') = org_members (db w)"
    "org_invites (db w') = org_invites (db w)" "org_invite_codes (db w') = org_invite_codes (db w)"
    using assms(2) by (simp_all add: untouched_def org_tables_def)
  show ?thesis
    using assms owners_cong[OF same(1,2)] agrees_cong[OF same(3), of e "jwt_HashToken e"] same(3,4)
    by (simp add: org_inv_def canon_def view untouched_def)
qed

lemma Inv_spared: "spared org_tables kspace invite_key m \<Longrightarrow> keeps Inv m"
  by (rule keeps_spared[rotated 1]) (rule Inv_untouched)

lemma Inv_organizations:
  "keeps Inv (CreateOrganization e (main_org_service e L j (al_invites A) C b) u nm)"
  "keeps Inv (SendEmailInvite e (main_org_service e L j (al_invites A) C b) org u em role)"
  "keeps Inv (JoinViaToken e (main_org_service e L j (al_invites A) C b) u raw)"
  "keeps Inv (GenerateInviteCode e (main_org_service e L j (al_invites A) C b) org u)"
  "keeps Inv (JoinViaCode e (main_org_service e L j (al_invites A) C b) u code)"
  by (rule org_service.inv_CreateOrganization[OF main_org[OF codec uuids], unfolded main_org_hash],
      rule org_service.inv_SendEmailInvite[OF main_org[OF codec uuids], unfolded main_org_hash],
      rule org_service.inv_JoinViaToken[OF main_org[OF codec uuids], unfolded main_org_hash],
      rule org_service.inv_GenerateInviteCode[OF main_org[OF codec uuids], unfolded main_org_hash],
      rule org_service.inv_JoinViaCode[OF main_org[OF codec uuids], unfolded main_org_hash])

lemma Inv_users: "keeps Inv (CreateUser e em h)" "keeps Inv (StoreRefreshToken e u h t)" "keeps Inv (DeleteRefreshToken e h)"
  by (rule Inv_spared, rule users_spared, rule org_tables_same, rule org_tables_same)+

lemma Inv_logs: "keeps Inv (InsertLogs e xs)" "keeps Inv (DeleteOlderThan e cutoff)"
  by (rule Inv_spared, rule logs_spared, rule org_tables_same)+

lemma Inv_services: "kc_redis kc = store_of C b \<Longrightarrow> keeps Inv (svc_run e (main_key_service e kc) p)"
  by (rule Inv_spared[OF services_spared[OF uuids]]) (simp_all add: invite_keys)

sublocale resident C kspace Inv invite_key e A
proof (unfold_locales, goal_cases)
  case (1 w w')
  then show ?case
    by (intro Inv_untouched[of w w']) (auto simp: untouched_def)
qed (auto simp: invite_keys[simplified] libs intro: Inv_organizations Inv_users Inv_logs Inv_services)

end

end
