(* ===== verification/Api_Props.thy ===== *)
theory Api_Props
  imports Api_State Service_Props Key_Cache_Props Telemetry_Props
begin

text \<open>
  The server as a whole: who may reach what, and the invariants that hold whatever routes are
  requested, in whatever order.
\<close>

context api_deployment
begin

lemma exec_keeps:
  assumes "api_main e getenv A \<lparr>rs_client = Some C, rs_available = b\<rparr> = Inr S" and "Inv w"
  shows "Inv (fold (api_exec S) rqs w)"
proof (rule fold_invariant[where Q = "\<lambda>_. True" and P = Inv])
  show "Inv w" by (rule assms(2))
  fix v and rq :: "api_route \<times> ctx" assume I: "Inv v"
  obtain route c where rq: "rq = (route, c)" by fastforce
  obtain r v' where run: "serve S route c v = (r, v')" by fastforce
  from holdsD[OF serve_keeps[OF assms(1)] I run] show "Inv (api_exec S rq v)"
    by (simp add: rq api_exec_def run)
qed simp

end

section \<open>Sample data\<close>

definition sample_getenv :: "string \<Rightarrow> string" where
  "sample_getenv k = (if k = ''JWT_SECRET'' then ''k'' else [])"

definition sample_api_libs :: "('r, nat) api_libs" where
  "sample_api_libs =
     \<lparr>al_jwt = sample_jwt, al_invites = payload_codec,
      al_ai = \<lparr>url_ok = (\<lambda>_. True), http_do = (\<lambda>rq s. (Inl ''down'', s)),
        decode_gemini = (\<lambda>_. None), decode_openrouter = (\<lambda>_. None)\<rparr>,
      al_search = sample_lib,
      al_ws = \<lparr>ws_upgrade = (\<lambda>s. (Inl (400, ''Bad Request''), s)), ws_write = (\<lambda>f s. (False, s)),
        sub_receive = (\<lambda>ch s. (Inl ''closed'', s))\<rparr>,
      al_encoder = (\<lambda>_. None), al_nlq = (\<lambda>_ x. (x, False)), al_summary = (\<lambda>_ x. (x, False)),
      al_investigation = (\<lambda>_ x. (x, False)), al_zero = 0\<rparr>"

interpretation sample_api: api_deployment up_client id sample_env sample_api_libs
  by unfold_locales
     (simp_all add: sample_uuid_law payload_codec_law sample_api_libs_def libs_apart_def)

definition sample_server :: "(keyspace, nat) api_server" where
  "sample_server = projr (api_main sample_env sample_getenv sample_api_libs \<lparr>rs_client = Some up_client, rs_available = True\<rparr>)"

lemma sample_server_main:
  "api_main sample_env sample_getenv sample_api_libs \<lparr>rs_client = Some up_client, rs_available = True\<rparr> = Inr sample_server"
  by (simp add: sample_server_def api_main_def sample_getenv_def NewJWTService_def NewService_def Let_def)

lemma sample_server_tokens: "token_manager (sv_tokens sample_server)"
  by (rule sample_api.api_parts[OF sample_server_main]) (simp only: jwt.token_manager_axioms)

definition sample_ctx :: "string \<Rightarrow> ctx" where
  "sample_ctx header =
     \<lparr>auth_header = header, ctx_user = None, ctx_role = None, ctx_org_role = None, p_id = ''org'',
      p_serviceId = ''svc'', p_keyId = ''k1'', p_logId = [], real_ip = ''ip''\<rparr>"

section \<open>Properties\<close>

text \<open>
  C1: access to the API: whatever the request, a route that asks for it either fails without
  writing to any table, or the request bears an access token the server verifies and, where the
  route is one of an organization's, the token's user has a role in that organization: any role
  to read, developer, admin or owner to change services and keys, admin or owner to invite.
\<close>

theorem api_guarded:
  assumes "token_manager (sv_tokens S)" and "serve S route c w = (r, w')"
  shows "(\<not> is_success r \<and> db w' = db w) \<or> permitted S c w (route_access route)"
  using lets_serve[OF assms(1), of c route] assms(2) by (auto simp: lets_def refused_def)

theorem api_guarded_witness:
  "\<exists>r w'. serve sample_server R_RotateAPIKey (sample_ctx ''Basic x'') sample_key_world = (r, w') \<and>
     \<not> is_success r \<and> db w' = db sample_key_world"
proof -
  obtain r w' where run: "serve sample_server R_RotateAPIKey (sample_ctx ''Basic x'') sample_key_world = (r, w')"
    by fastforce
  have "\<not> permitted sample_server (sample_ctx ''Basic x'') sample_key_world (route_access R_RotateAPIKey)"
    by (simp add: signed_in_def sample_ctx_def)
  then show ?thesis using api_guarded[OF sample_server_tokens run] run by blast
qed

text \<open>
  The state the server keeps well-formed: whatever routes are requested, with whatever
  bodies and headers, and however the database, Redis and the providers fail in between, the
  tables satisfy the constraints of the migrations, an organization is owned by its creator and
  nobody else, and an invitation found in Redis is that of its row.
\<close>

theorem api_keeps_state:
  assumes "redis_server C kspace" and "uuid_law e" and "codec_law (al_invites A)" and "libs_apart kspace A"
    and "api_main e getenv A \<lparr>rs_client = Some C, rs_available = b\<rparr> = Inr S"
    and "org_inv e (jwt_HashToken e) (invite_view kspace (al_invites A)) (db w) (redis w)"
  shows "let w' = fold (api_exec S) requests w in
    db_ok (db w') \<and> owners_ok (db w') \<and>
    (\<forall>t tok p. invite_view kspace (al_invites A) (redis w') t tok = Some p \<longrightarrow>
       agrees e (jwt_HashToken e) (db w') tok p)"
proof -
  have d: "api_deployment C kspace e A"
    using assms(1-4) by (intro api_deployment.intro api_deployment_axioms.intro deployment.intro deployment_axioms.intro)
  show ?thesis
    using api_deployment.exec_keeps[OF d assms(5,6), of requests] by (simp add: org_inv_def Let_def)
qed

theorem api_keeps_state_witness:
  "let w' = fold (api_exec sample_server)
       [(R_JoinViaToken (Some ''a''), sample_ctx ''Bearer token''), (R_GenerateInviteCode, sample_ctx ''Bearer token''),
        (R_DeleteService, sample_ctx ''Bearer token''), (R_Logout None, sample_ctx [])] sample_org_world in
    db_ok (db w') \<and> owners_ok (db w')"
  using api_keeps_state[OF up.redis_server_axioms sample_uuid_law _ _ sample_server_main, of sample_org_world
      "[(R_JoinViaToken (Some ''a''), sample_ctx ''Bearer token''), (R_GenerateInviteCode, sample_ctx ''Bearer token''),
        (R_DeleteService, sample_ctx ''Bearer token''), (R_Logout None, sample_ctx [])]"]
    sample_org_world_inv sample_api.codec sample_api.libs
  by (simp add: Let_def sample_api_libs_def)

end
