(* ===== verification/System_State.thy ===== *)
theory System_State
  imports Api_State Key_Marker
begin

text \<open>
  The other residents of a deployment: the tables of the services, their keys and the audit
  trail, which only requests on services write, and the marker of a revoked prefix, which only
  invalidations touch.
\<close>

lemma resident_steps:
  assumes "resident C kspace W mine e A" and "platform C kspace K part"
    and "(system_step C kspace K part e A J E)\<^sup>*\<^sup>* w w'" and "W w"
  shows "W w'"
  using resident_system.steps_keep[OF resident_system.intro[OF assms(1,2)] assms(3,4)] .

section \<open>Time passes\<close>

context deployment
begin

text \<open>What no component but the services touches\<close>

lemma others_keep:
  assumes "\<And>w w'. W w \<Longrightarrow> untouched key_tables kspace keys w w' \<Longrightarrow> W w'" and "\<And>tok. \<not> keys (inviteTokenKeyPref @ tok)"
  shows "keeps W (CreateUser e em h)" "keeps W (StoreRefreshToken e u h t)" "keeps W (DeleteRefreshToken e h)"
    and "keeps W (InsertLogs e xs)" "keeps W (DeleteOlderThan e cutoff)"
    and "keeps W (CreateOrganization e (main_org_service e L j J C b) u nm)"
    and "keeps W (SendEmailInvite e (main_org_service e L j J C b) org u em role)"
    and "keeps W (JoinViaToken e (main_org_service e L j J C b) u raw)"
    and "keeps W (GenerateInviteCode e (main_org_service e L j J C b) org u)"
    and "keeps W (JoinViaCode e (main_org_service e L j J C b) u code)"
proof -
  show "keeps W (CreateUser e em h)" "keeps W (StoreRefreshToken e u h t)" "keeps W (DeleteRefreshToken e h)"
    by (rule keeps_spared, rule users_spared, rule key_tables_same, rule key_tables_same, erule (1) assms(1))+
  show "keeps W (InsertLogs e xs)" "keeps W (DeleteOlderThan e cutoff)"
    by (rule keeps_spared, rule logs_spared, rule key_tables_same, erule (1) assms(1))+
  show "keeps W (CreateOrganization e (main_org_service e L j J C b) u nm)"
    "keeps W (SendEmailInvite e (main_org_service e L j J C b) org u em role)"
    "keeps W (JoinViaToken e (main_org_service e L j J C b) u raw)"
    "keeps W (GenerateInviteCode e (main_org_service e L j J C b) org u)"
    "keeps W (JoinViaCode e (main_org_service e L j J C b) u code)"
    by (rule keeps_spared, rule organizations_spared, rule assms(2), erule (1) assms(1))+
qed

lemma services_time: "keeps (\<lambda>w. n \<le> tick w) (svc_run e (main_key_service e kc) p)"
  by (rule main_keys.op_redis[where Q = "\<lambda>m s. n \<le> m"])
     (auto simp: lasting_def main_key_service_def intro!: keepsI dest!: Invalidate_db)

lemma time_untouched: "n \<le> tick w \<Longrightarrow> untouched key_tables kspace (\<lambda>k. False) w w' \<Longrightarrow> n \<le> tick w'"
  by (simp add: untouched_def)

sublocale clock: resident C kspace "\<lambda>w. n \<le> tick w" "\<lambda>k. False" e A for n
  by unfold_locales (simp_all add: libs services_time others_keep[OF time_untouched])

end

section \<open>The tables of the services\<close>

locale keyring = deployment C kspace e A
  for C :: "'r redis_client" and kspace :: "'r \<Rightarrow> keyspace" and e and A :: "('r, 'f) api_libs" +
  fixes P :: "database \<Rightarrow> bool"
  assumes P_tables: "P d \<Longrightarrow> (db_ok d \<Longrightarrow> db_ok d') \<Longrightarrow> key_tables d' = key_tables d \<Longrightarrow> P d'"
    and P_services: "kc_redis kc = store_of C b \<Longrightarrow> keeps (\<lambda>w. P (db w)) (svc_run e (main_key_service e kc) p)"
begin

lemma P_untouched: "P (db w) \<Longrightarrow> untouched key_tables kspace (\<lambda>k. False) w w' \<Longrightarrow> P (db w')"
  by (rule P_tables) (auto simp: untouched_def)

sublocale tables: resident C kspace "\<lambda>w. P (db w)" "\<lambda>k. False" e A
  by unfold_locales (simp_all add: libs P_services others_keep[OF P_untouched])

end

text \<open>The registry of keys and the audit trail\<close>

sublocale deployment \<subseteq> registry: keyring C kspace e A "registry_inv m" for m
proof (unfold_locales, goal_cases)
  case (1 d d')
  then show ?case by (simp add: registry_inv_def key_tables_def key_abs_def)
next
  case (2 kc b p)
  show ?case by (rule main_keys.keys.op_keeps[OF uuids refl])
qed

sublocale deployment \<subseteq> trail: keyring C kspace e A "trail as" for as
proof (unfold_locales, goal_cases)
  case (1 d d')
  then show ?case by (simp add: trail_def key_tables_def)
next
  case (2 kc b p)
  show ?case by (rule main_keys.history.op_keeps[OF uuids refl])
qed

context deployment
begin

lemmas keyring_residents = registry.tables.resident_axioms trail.tables.resident_axioms

end

context api_deployment
begin

lemmas org_resident = resident_axioms

end

section \<open>The marker of a revoked prefix\<close>

locale marked = deployment C kspace e A
  for C :: "'r redis_client" and kspace :: "'r \<Rightarrow> keyspace" and e and A :: "('r, 'f) api_libs" +
  fixes pfx :: string and since :: time
  assumes clk_mono: "mono (clk e)"
begin

definition revoked_now :: "'r world \<Rightarrow> bool" where
  "revoked_now w \<longleftrightarrow> blocked (kspace (redis w)) pfx (since + Hour) \<and> since \<le> clk e (tick w)"

lemma revoked_untouched:
  assumes "revoked_now w" and "kspace (redis w') (revokedKey pfx) = kspace (redis w) (revokedKey pfx)" and "tick w \<le> tick w'"
  shows "revoked_now w'"
  using assms monoD[OF clk_mono assms(3)] by (auto simp: revoked_now_def blocked_def)

lemma revoked_services:
  assumes "kc_redis kc = store_of C b"
  shows "keeps revoked_now (svc_run e (main_key_service e kc) p)"
proof -
  let ?Q = "\<lambda>n s. blocked (kspace s) pfx (since + Hour) \<and> since \<le> clk e n"
  have "keeps (\<lambda>w. ?Q (tick w) (redis w)) (svc_run e (main_key_service e kc) p)"
    by (rule main_keys.op_redis[where Q = ?Q])
       (use monoD[OF clk_mono] in \<open>auto simp: main_key_service_def lasting_def
          intro: Invalidate_marker[OF clk_mono assms] order_trans\<close>)
  then show ?thesis by (simp add: revoked_now_def[abs_def])
qed

lemma revoked_others: "revoked_now w \<Longrightarrow> untouched key_tables kspace (\<lambda>k. k = revokedKey pfx) w w' \<Longrightarrow> revoked_now w'"
  by (erule revoked_untouched) (simp_all add: untouched_def)

sublocale marker: resident C kspace revoked_now "\<lambda>k. k = revokedKey pfx" e A
proof (unfold_locales, goal_cases)
  case (1 w w')
  then show ?case by (blast intro: revoked_untouched)
qed (simp_all add: libs revoked_services others_keep[OF revoked_others] revokedKey_def refreshTokenKeyPref_def prefixKey_def
    inviteTokenKeyPref_def)

lemmas marker_resident = marker.resident_axioms

end

end
