(* ===== verification/System_Props.thy ===== *)
theory System_Props
  imports System_State Pipeline_Props Api_Props
begin

text \<open>
  The three programs together: what holds of the shared state whatever API servers, ingestors,
  consumers and the retention worker do, in whatever order, and however their servers fail.
\<close>

section \<open>What a success says\<close>

text \<open>From time \<open>n\<close> on, every answer that is a success is as \<open>R\<close> says.\<close>

definition pledges :: "nat \<Rightarrow> ('a \<Rightarrow> 'r world \<Rightarrow> bool) \<Rightarrow> ('r, 'a) handler \<Rightarrow> bool" where
  "pledges n R h \<longleftrightarrow> (\<forall>w s x w'. n \<le> tick w \<longrightarrow> h w = (Success s x, w') \<longrightarrow> R x w')"

lemma pledges_guard:
  assumes "keeps (\<lambda>w. n \<le> tick w) m" and "\<And>x. pledges n R (k x)" and "\<And>z. \<not> is_success (f z)"
  shows "pledges n R (guard f m k)"
  unfolding pledges_def
proof (intro allI impI)
  fix w s x w' assume n: "n \<le> tick w" and run: "guard f m k w = (Success s x, w')"
  obtain r w1 where m: "m w = (r, w1)" by fastforce
  have "n \<le> tick w1" using keepsD[OF assms(1) n m] .
  then show "R x w'"
    using run m assms(2) assms(3)
    by (cases r) (simp_all add: guard_def pledges_def, metis is_success.simps(1))
qed

lemma pledges_failure: "pledges n R (answer (Failure s t))"
  by (simp add: pledges_def answer_def)

lemma map_reply_Success: "map_reply f r = Success s x \<Longrightarrow> \<exists>y. r = Success s y \<and> x = f y"
  by (cases r) auto

lemma pledges_via: "pledges n (\<lambda>x. R (f x)) (h c) \<Longrightarrow> pledges n R (via f h c)"
  unfolding pledges_def via_def by (auto split: prod.splits dest!: map_reply_Success)

lemma role_error_fails: "\<not> is_success (mapMiddlewareError z)"
  by (cases z rule: mapMiddlewareError.cases) (simp_all add: internal_error_def)

lemma service_error_fails: "svc_mapServiceError z \<noteq> Success s x"
  by (cases z rule: svc_mapServiceError.cases) (simp_all add: internal_error_def)

lemma pledges_user: "(\<And>u. pledges n R (k u)) \<Longrightarrow> pledges n R (with_user c k)"
  by (auto simp: with_user_def intro: pledges_failure split: option.split)

context deployment
begin

lemma pledges_limits:
  assumes "\<And>c. pledges n R (h c)"
  shows "pledges n R (RateLimitByIP e (NewLimiter (store_of C b) cfg) pfx k h c)"
    and "pledges n R (RateLimitByUser e (NewLimiter (store_of C b) cfg) pfx k h c)"
  unfolding RateLimitByIP_def RateLimitByUser_def
  by (auto intro!: pledges_guard clock.kept_limits assms mapRateLimitError_fails split: option.split)

lemma pledges_writers:
  assumes "api_main e getenv A \<lparr>rs_client = Some C, rs_available = b\<rparr> = Inr S" and "\<And>c. pledges n R (h c)"
  shows "pledges n R (servicesWriteGroup S h c)"
proof (rule clock.api_parts[OF assms(1)])
  fix j ttl kc cfg
  assume S: "sv_env S = e" "sv_tokens S = jwt_manager e (al_jwt A) j" "sv_limiter S = NewLimiter (store_of C b) cfg"
    "sv_access S = GetOrgMemberRole e"
  show ?thesis
    unfolding servicesWriteGroup_def servicesGroup_def orgsGroup_def RequireAuth_def RequireOrgMember_def
      RequireOrgDeveloper_def S
    by (auto intro!: pledges_user pledges_guard pledges_failure pledges_limits assms(2) clock.kept_quiet[OF jwt.quiet_verify]
        clock.kept_quiet[OF quiet_GetOrgMemberRole] role_error_fails split: prod.split option.split)
qed

end

lemma revocation_pledged:
  assumes "kc_redis kc = store_of C True" and "mono (clk e)" and "healthy_redis C kspace"
  shows "pledges (tick w) (\<lambda>x w1. \<forall>resp. x = KeyBody resp \<longrightarrow> (\<exists>t. clk e (tick w) \<le> t \<and> t \<le> clk e (tick w1) \<and>
      blocked (kspace (redis w1)) (kr_Prefix resp) (t + Hour)))
    (via KeyBody (RevokeAPIKey_handler e (main_key_service e kc)) c)"
proof (rule pledges_via)
  have rev: "\<exists>t. clk e (tick w) \<le> t \<and> t \<le> clk e (tick w1) \<and> blocked (kspace (redis w1)) (kr_Prefix resp) (t + Hour)"
    if "tick w \<le> tick v" and run: "RevokeAPIKey e (main_key_service e kc) org sid kid u ip v = (Inr resp, w1)"
    for v w1 org sid kid u ip resp
    using healthy_redis.RevokeAPIKey_marks[OF assms(3,2,1) run] monoD[OF assms(2) that(1)] by (meson order_trans)
  show "pledges (tick w) (\<lambda>x w1. \<forall>resp. KeyBody x = KeyBody resp \<longrightarrow> (\<exists>t. clk e (tick w) \<le> t \<and> t \<le> clk e (tick w1) \<and>
      blocked (kspace (redis w1)) (kr_Prefix resp) (t + Hour))) (RevokeAPIKey_handler e (main_key_service e kc) c)"
    unfolding RevokeAPIKey_handler_def
    by (rule pledges_user) (auto simp: pledges_def respond_def service_error_fails
        split: prod.splits sum.splits intro: rev)
qed

text \<open>The limiter refuses for its limit only.\<close>

lemma Allow_Inl: "Allow e (NewLimiter (store_of C b) cfg) k n win w = (Inl x, w') \<Longrightarrow> x = RateLimited"
  unfolding Allow_def
  by (auto simp: NewLimiter_def with_client_store_of attempt_def ret_def fail_def
      split: if_splits prod.splits sum.splits list.splits)

lemma deploymentI:
  "platform C kspace K part \<Longrightarrow> uuid_law e \<Longrightarrow> libs_apart kspace A \<Longrightarrow> deployment C kspace e A"
  by (intro deployment.intro deployment_axioms.intro) (simp_all add: platform_def)

lemma registry_kept:
  assumes "platform C kspace K part" and "uuid_law e" and "libs_apart kspace A"
    and "(system_step C kspace K part e A J E)\<^sup>*\<^sup>* w w'" and "db_ok (db w)"
  shows "registry_inv (key_abs (db w)) (db w')"
  using resident_steps[OF deployment.keyring_residents(1)[OF deploymentI[OF assms(1-3)]] assms(1,4)]
    registry_start[OF assms(5)] .

context deployment
begin

lemma revocation_marks:
  assumes "healthy_redis C kspace" and "mono (clk e)"
    and main: "api_main e getenv A \<lparr>rs_client = Some C, rs_available = True\<rparr> = Inr S"
    and "serve S R_RevokeAPIKey c w = (Success n (KeyBody resp), w1)"
  shows "\<exists>t. clk e (tick w) \<le> t \<and> t \<le> clk e (tick w1) \<and> blocked (kspace (redis w1)) (kr_Prefix resp) (t + Hour)"
proof (rule clock.api_parts[OF main])
  fix kc assume S: "sv_env S = e" "sv_services S = main_key_service e kc" and kc: "kc_redis kc = store_of C True"
  have "pledges (tick w) (\<lambda>x w1. \<forall>resp. x = KeyBody resp \<longrightarrow> (\<exists>t. clk e (tick w) \<le> t \<and> t \<le> clk e (tick w1) \<and>
      blocked (kspace (redis w1)) (kr_Prefix resp) (t + Hour))) (serve S R_RevokeAPIKey c)"
    by (simp add: S) (rule pledges_writers[OF main revocation_pledged[OF kc assms(2,1)]])
  then show ?thesis using assms(4) unfolding pledges_def by blast
qed

end

text \<open>While a prefix is marked, the ingestor refuses its keys.\<close>

context marked
begin

lemma marked_refused:
  assumes "platform C kspace K part" and "healthy_redis C kspace" and now: "revoked_now w"
    and run: "ingestor_routes e J E (ingestor_handler e getenv (store_of C True) K) (PostLogs body) c w = (a, w')"
    and key: "auth_header c = ''Bearer '' @ raw" "ExtractAPIKeyPrefix raw = Inr pfx"
    and soon: "clk e (tick w') < since + Hour"
  shows "(a = Failure 401 ''api key revoked'' \<or> a = Failure 429 ''rate limit exceeded'') \<and>
    part (redis w') = part (redis w) \<and> db w' = db w"
proof -
  let ?h = "ingestor_handler e getenv (store_of C True) K" and ?I = "quiet_on part (db w) (part (redis w))"
  let ?m = "call (IPMinuteKey e ''ingest'' (real_ip c)) (\<lambda>k.
    Allow e (NewLimiter (store_of C True) (LoadConfig getenv)) k (IngestRequestsPerIPMinute (LoadConfig getenv)) Minute)"
  have B: "broker_and_redis K part C" using assms(1) by (simp add: platform_def)
  have route: "guard mapRateLimitError ?m (\<lambda>_. IngestLog e J E ?h body c) w = (a, w')"
    using run by (simp add: ingestor_routes_def RateLimitByIP_def ingestor_handler_def)
  obtain r v where m: "?m w = (r, v)" by fastforce
  have "keeps ?I ?m"
    unfolding key_defs
    by (intro keeps_call keeps_ret on_quiet[OF quiet_Now] broker_and_redis.keeps_limits[OF B])
       (simp add: NewLimiter_def uses_client_store)
  from keepsD[OF this _ m] have v: "?I v" by (simp add: quiet_on_def)
  have nv: "revoked_now v" by (rule keepsD[OF marker.kept_limits(1) now m])
  show ?thesis
  proof (cases r)
    case (Inl x)
    then have "x = RateLimited"
      using m by (auto simp: key_defs call_def Now_def ret_def split: sum.splits prod.splits dest: Allow_Inl)
    then show ?thesis using route m Inl v by (simp add: guard_def quiet_on_def)
  next
    case (Inr u)
    then have log: "IngestLog e J E ?h body c v = (a, w')" using route m by (simp add: guard_def)
    have clock_system: "resident_system C kspace (\<lambda>w. tick v \<le> tick w) (\<lambda>_. False) e A K part"
      by (intro resident_system.intro clock.resident_axioms assms(1))
    have "tick v \<le> tick w'"
      using holdsD[OF resident_system.ingest_log_keeps[OF clock_system] order_refl log] .
    then have early: "clk e (tick v) < since + Hour" using soon monoD[OF clk_mono] by (meson le_less_trans)
    have "raw \<noteq> []" using key(2) by (auto simp: ExtractAPIKeyPrefix_def HasPrefix_def api_key_consts)
    then have bearer: "bearerToken (auth_header c) = Inr raw" using key(1) by (simp add: bearerToken_Inr)
    have kc: "kc_redis (ih_keyCache ?h) = store_of C True" "kc_lookup (ih_keyCache ?h) = KeyLookup e"
      by (simp_all add: ingestor_handler_def NewAPIKeyCache_def)
    obtain w4 where res: "Resolve e J (ih_keyCache ?h) raw v = (Inl (AuthE APIKeyRevoked), w4)"
      using healthy_redis.Resolve_refused[OF assms(2) kc(1) key(2) _ early] nv by (auto simp: revoked_now_def)
    have "?I w4"
      by (rule keepsD[OF broker_and_redis.keeps_Resolve[OF B] v res])
         (simp_all add: kc uses_client_store on_quiet quiet_KeyLookup)
    then show ?thesis using log res by (simp add: IngestLog_def bearer guard_def quiet_on_def)
  qed
qed

end

section \<open>Sample data\<close>

definition system_getenv :: "string \<Rightarrow> string" where
  "system_getenv k = (if k = ''JWT_SECRET'' then ''k'' else if k = ''RATE_LIMIT_ENABLED'' then ''false'' else [])"

definition system_server :: "(outside, nat) api_server" where
  "system_server = projr (api_main sample_env system_getenv sample_api_libs \<lparr>rs_client = Some outside_redis, rs_available = True\<rparr>)"

lemma system_server_main:
  "api_main sample_env system_getenv sample_api_libs \<lparr>rs_client = Some outside_redis, rs_available = True\<rparr> = Inr system_server"
  by (simp add: system_server_def api_main_def system_getenv_def NewJWTService_def NewService_def Let_def)

interpretation sample_system: api_deployment outside_redis o_keys sample_env sample_api_libs
  by unfold_locales (simp_all add: sample_uuid_law payload_codec_law sample_api_libs_def libs_apart_def)

interpretation sample_marked: marked outside_redis o_keys sample_env sample_api_libs "''ll_bbbbbbbb''" 0
  by unfold_locales (rule sample_clock)

interpretation sample_running: resident_system outside_redis o_keys
    "\<lambda>w. registry_inv (key_abs sample_key_db) (db w)" "\<lambda>k. False" sample_env sample_api_libs outside_kafka o_part
  by (intro resident_system.intro sample_system.keyring_residents out_platform.platform_axioms)

abbreviation sample_step :: "outside world \<Rightarrow> outside world \<Rightarrow> bool" where
  "sample_step \<equiv> system_step outside_redis o_keys outside_kafka o_part sample_env (sample_api_libs :: (outside, nat) api_libs)
     sample_codecs ingest_codec"

definition system_ctx :: "string \<Rightarrow> ctx" where
  "system_ctx header = \<lparr>auth_header = header, ctx_user = None, ctx_role = None, ctx_org_role = None, p_id = ''org'',
     p_serviceId = ''svc'', p_keyId = ''k1'', p_logId = [], real_ip = ''ip''\<rparr>"

text \<open>A revocation by its developer, in a world with one key\<close>

lemma ungated:
  "\<not> lim_enabled l \<Longrightarrow> RateLimitByIP e l pfx n h c w = h c (w\<lparr>tick := Suc (tick w)\<rparr>)"
  "\<not> lim_enabled l \<Longrightarrow> ctx_user c = Some (a # u) \<Longrightarrow> RateLimitByUser e l pfx n h c w = h c (w\<lparr>tick := Suc (tick w)\<rparr>)"
  by (simp_all add: RateLimitByIP_def RateLimitByUser_def guard_def key_defs Allow_def call_def Now_def ret_def)

lemma alice_enters:
  assumes "auth_header c = ''Bearer token''" and "secret j = ''k''" and "tick w = 0"
  shows "RequireAuth (jwt_manager sample_env sample_jwt j) h c w =
    h (c\<lparr>ctx_user := Some ''alice'', ctx_role := Some ''user''\<rparr>) (w\<lparr>tick := 1\<rparr>)"
  using assms
  by (simp add: RequireAuth_def CutPrefix_def HasPrefix_def guard_def jwt_manager_def jwt_VerifyAccessToken_def sample_jwt_def
      sample_claims_def sample_env_simps run_rules duration_defs run_defs cong: run_congs)

lemma alice_owns:
  assumes "ctx_user c = Some ''alice''" and "p_id c = ''org''"
  shows "RequireOrgMember (GetOrgMemberRole sample_env) h c \<lparr>db = sample_key_db, redis = s, tick = n\<rparr> =
      h (c\<lparr>ctx_org_role := Some RoleOwner\<rparr>) \<lparr>db = sample_key_db, redis = s, tick = Suc n\<rparr>"
    and "RequireOrgDeveloper (GetOrgMemberRole sample_env) h c \<lparr>db = sample_key_db, redis = s, tick = n\<rparr> =
      h (c\<lparr>ctx_org_role := Some RoleOwner\<rparr>) \<lparr>db = sample_key_db, redis = s, tick = Suc n\<rparr>"
  using assms
  by (simp_all add: RequireOrgMember_def RequireOrgDeveloper_def with_user_def guard_def GetOrgMemberRole_def
      role_in_def sample_key_db_def sample_org_db_def IsDeveloperRole_def role_defs run_rules run_defs cong: run_congs)

lemma system_revokes:
  "\<exists>resp w' x. serve system_server R_RevokeAPIKey (system_ctx ''Bearer token'') ingest_world =
     (Success 200 (KeyBody resp), w') \<and> kr_Prefix resp = ''ll_bbbbbbbb'' \<and> tick w' < 20 \<and>
     o_keys (redis w') (revokedKey ''ll_bbbbbbbb'') = Some (RStr ''1'', Some x) \<and> 100 * Second < x"
proof -
  have s: "sv_env system_server = sample_env" "sv_access system_server = GetOrgMemberRole sample_env"
    "sv_services system_server = main_key_service sample_env (NewAPIKeyCache system_getenv (store_of outside_redis True) (KeyLookup sample_env))"
    "sv_tokens system_server = jwt_manager sample_env sample_jwt \<lparr>secret = ''k'', expiryHours = 1\<rparr>"
    "\<not> lim_enabled (sv_limiter system_server)"
    by (simp_all add: system_server_def api_main_def system_getenv_def NewJWTService_def NewService_def Let_def
        sample_api_libs_def sv_access_def main_key_service_def store_of_def NewLimiter_def LoadConfig_def envBool_def
        ParseBool_def)
  have "\<exists>resp w' x. RevokeAPIKey sample_env (main_key_service sample_env
      (NewAPIKeyCache system_getenv (store_of outside_redis True) (KeyLookup sample_env))) ''org'' ''svc'' ''k1'' ''alice'' ''ip''
      \<lparr>db = sample_key_db, redis = redis ingest_world, tick = 5\<rparr> = (Inr resp, w') \<and> kr_Prefix resp = ''ll_bbbbbbbb'' \<and> tick w' < 20 \<and>
      o_keys (redis w') (revokedKey ''ll_bbbbbbbb'') = Some (RStr ''1'', Some x) \<and> 100 * Second < x"
    by (simp add: key_run ingest_world_def outside_redis_def role_defs varchar_def rune_count_ascii ascii_def run_rules
        cong: run_congs)
  then show ?thesis
    by (auto simp: eval_nat_numeral servicesWriteGroup_def servicesGroup_def orgsGroup_def s alice_enters ungated system_ctx_def
        ingest_world_def alice_owns via_def RevokeAPIKey_handler_def with_user_def respond_def)
qed

lemma ingest_world_inv:
  "org_inv sample_env (jwt_HashToken sample_env) (invite_view o_keys payload_codec) (db ingest_world) (redis ingest_world)"
  by (simp add: ingest_world_def org_inv_def sample_key_ok)
     (simp add: owners_ok_def canon_def sample_key_db_def sample_org_db_def
      empty_db_def role_in_def RoleOwner_def invite_view_def live_def sample_env_simps)

lemma sample_request: "serve system_server route c w = (a, w') \<Longrightarrow> sample_step\<^sup>*\<^sup>* w w'"
  by (rule r_into_rtranclp)
     (rule system_step.api_request[where addr = "''redis:6379''" and C = outside_redis and ok = True],
      simp add: ConnectRedis_def, rule system_server_main)

lemma sample_ingest:
  "ingestor_routes sample_env sample_codecs ingest_codec
     (ingestor_handler sample_env system_getenv (store_of outside_redis True) outside_kafka) route c w = (a, w') \<Longrightarrow>
   sample_step w w'"
  by (rule system_step.ingest_request[where addr = "''redis:6379''" and C = outside_redis and ok = True])
     (simp add: ConnectRedis_def store_of_def)

section \<open>Properties\<close>

text \<open>
  C2: the state the programs keep well-formed: whatever the API servers, the ingestors, the
  consumers and the retention worker do, in whatever order, and however the database, Redis, the
  broker and the providers fail in between, the tables satisfy the constraints of the migrations,
  an organization is owned by its creator and nobody else, and an invitation found in Redis is
  that of its row.
\<close>

theorem system_keeps_state:
  assumes "platform C kspace K part" and "uuid_law e" and "codec_law (al_invites A)" and "libs_apart kspace A"
    and "(system_step C kspace K part e A J E)\<^sup>*\<^sup>* w w'"
    and "org_inv e (jwt_HashToken e) (invite_view kspace (al_invites A)) (db w) (redis w)"
  shows "db_ok (db w') \<and> owners_ok (db w') \<and>
    (\<forall>t tok p. invite_view kspace (al_invites A) (redis w') t tok = Some p \<longrightarrow>
       agrees e (jwt_HashToken e) (db w') tok p)"
proof -
  have "redis_server C kspace" using assms(1) by (simp add: platform_def)
  then have "api_deployment C kspace e A"
    using assms(2-4) by (intro api_deployment.intro api_deployment_axioms.intro deployment.intro deployment_axioms.intro)
  from resident_steps[OF api_deployment.org_resident[OF this] assms(1,5,6)] show ?thesis by (simp add: org_inv_def)
qed


theorem system_keeps_state_witness:
  "\<exists>a w1 b w2. serve system_server R_RevokeAPIKey (system_ctx ''Bearer token'') ingest_world = (a, w1) \<and>
     ingestor_routes sample_env sample_codecs ingest_codec
       (ingestor_handler sample_env system_getenv (store_of outside_redis True) outside_kafka)
       (PostLogs (Some ingest_request)) ingest_ctx w1 = (b, w2) \<and> db_ok (db w2) \<and> owners_ok (db w2)"
proof -
  obtain a w1 where s: "serve system_server R_RevokeAPIKey (system_ctx ''Bearer token'') ingest_world = (a, w1)"
    by fastforce
  obtain b w2 where i: "ingestor_routes sample_env sample_codecs ingest_codec
       (ingestor_handler sample_env system_getenv (store_of outside_redis True) outside_kafka)
       (PostLogs (Some ingest_request)) ingest_ctx w1 = (b, w2)" by fastforce
  have "sample_step\<^sup>*\<^sup>* ingest_world w2"
    using sample_request[OF s] sample_ingest[OF i] by (rule rtranclp.rtrancl_into_rtrancl)
  from system_keeps_state[OF out_platform.platform_axioms sample_uuid_law _ _ this]
  have "db_ok (db w2) \<and> owners_ok (db w2)"
    using ingest_world_inv sample_system.codec sample_system.libs by (simp add: sample_api_libs_def)
  then show ?thesis using s i by blast
qed

text \<open>
  C10: the system implements the registry of keys: whatever the programs do, the keys in the table
  move by creations, revocations and rotations of the registry only, the constraints of the tables
  hold, and so a prefix belongs to one key.
\<close>

theorem system_refines_registry:
  assumes "platform C kspace K part" and "uuid_law e" and "libs_apart kspace A"
    and "(system_step C kspace K part e A J E)\<^sup>*\<^sup>* w w'" and "db_ok (db w)"
  shows "db_ok (db w') \<and> key_step\<^sup>*\<^sup>* (key_abs (db w)) (key_abs (db w'))"
  using registry_kept[OF assms] by (simp add: registry_inv_def)

theorem system_refines_registry_witness:
  "\<exists>a w'. serve system_server R_RotateAPIKey (system_ctx ''Bearer token'') ingest_world = (a, w') \<and>
     key_step\<^sup>*\<^sup>* (key_abs sample_key_db) (key_abs (db w'))"
proof -
  obtain a w' where s: "serve system_server R_RotateAPIKey (system_ctx ''Bearer token'') ingest_world = (a, w')"
    by fastforce
  from system_refines_registry[OF out_platform.platform_axioms sample_uuid_law sample_system.libs sample_request[OF s]]
  show ?thesis using s by (auto simp: ingest_world_def sample_key_ok)
qed

text \<open>
  C11: a key that was revoked stays revoked, and a key never changes its service, organization,
  prefix or hash nor leaves the table, whatever the programs do.
\<close>

theorem system_keys_last:
  assumes "platform C kspace K part" and "uuid_law e" and "libs_apart kspace A"
    and "(system_step C kspace K part e A J E)\<^sup>*\<^sup>* w w'" and "db_ok (db w)" and "k \<in> set (service_api_keys (db w))"
  shows "\<exists>k' \<in> set (service_api_keys (db w')).
    k_id k' = k_id k \<and> k_service_id k' = k_service_id k \<and> k_org_id k' = k_org_id k \<and>
    k_prefix k' = k_prefix k \<and> k_key_hash k' = k_key_hash k \<and>
    (k_revoked_at k \<noteq> None \<longrightarrow> k_revoked_at k' \<noteq> None)"
proof -
  have steps: "key_step\<^sup>*\<^sup>* (key_abs (db w)) (key_abs (db w'))"
    using registry_kept[OF assms(1-5)] by (simp add: registry_inv_def)
  have k: "key_abs (db w) (k_id k) = Some (entry_of k)" using key_abs_Some[OF assms(5,6)] .
  show ?thesis
    using key_steps_entry[OF steps k] key_steps_dead[OF steps k]
    by (auto simp: entry_of_def dest!: key_abs_row)
qed

theorem system_keys_last_witness:
  "\<exists>a w'. serve system_server R_RotateAPIKey (system_ctx ''Bearer token'') ingest_world = (a, w') \<and>
     (\<exists>k \<in> set (service_api_keys (db w')). k_id k = ''k1'' \<and> k_prefix k = ''ll_bbbbbbbb'')"
proof -
  obtain a w' where s: "serve system_server R_RotateAPIKey (system_ctx ''Bearer token'') ingest_world = (a, w')"
    by fastforce
  have "hd (service_api_keys sample_key_db) \<in> set (service_api_keys sample_key_db)" by (simp add: sample_key_db_def)
  with system_keys_last[OF out_platform.platform_axioms sample_uuid_law sample_system.libs sample_request[OF s],
      of "hd (service_api_keys sample_key_db)"]
  have "\<exists>k \<in> set (service_api_keys (db w')). k_id k = k_id (hd (service_api_keys sample_key_db)) \<and>
      k_prefix k = k_prefix (hd (service_api_keys sample_key_db))"
    by (auto simp: ingest_world_def sample_key_ok)
  then show ?thesis using s by (simp add: sample_key_db_def)
qed

text \<open>
  C15: the audit trail is only appended to, whatever the programs do: no request, no consumer and
  no retention run changes or removes an event.
\<close>

theorem system_trail_grows:
  assumes "platform C kspace K part" and "uuid_law e" and "libs_apart kspace A"
    and "(system_step C kspace K part e A J E)\<^sup>*\<^sup>* w w'"
  shows "prefix (audit_events (db w)) (audit_events (db w'))"
  using resident_steps[OF deployment.keyring_residents(2)[OF deploymentI[OF assms(1-3)]] assms(1,4), of "audit_events (db w)"]
  by (simp add: trail_def)

theorem system_trail_grows_witness:
  "\<exists>a w'. serve system_server R_RevokeAPIKey (system_ctx ''Bearer token'') ingest_world = (a, w') \<and>
     prefix (audit_events sample_key_db) (audit_events (db w'))"
proof -
  obtain a w' where s: "serve system_server R_RevokeAPIKey (system_ctx ''Bearer token'') ingest_world = (a, w')"
    by fastforce
  from system_trail_grows[OF out_platform.platform_axioms sample_uuid_law sample_system.libs sample_request[OF s]]
  show ?thesis using s by (simp add: ingest_world_def)
qed

text \<open>
  C17: a revocation takes effect at once and everywhere: when an API server that found Redis at
  its start answers that it revoked a key, then for an hour, whatever the programs do meanwhile,
  every ingestor that found Redis refuses every request with a key of that prefix, as revoked or
  for its rate limit, and queues nothing. Redis is taken to answer.
\<close>

theorem revocation_takes_effect:
  assumes "platform C kspace K part" and "healthy_redis C kspace" and "uuid_law e" and "libs_apart kspace A"
    and "mono (clk e)" and main: "api_main e getenv A \<lparr>rs_client = Some C, rs_available = True\<rparr> = Inr S"
    and rev: "serve S R_RevokeAPIKey c w = (Success n (KeyBody resp), w1)"
    and steps: "(system_step C kspace K part e A J E)\<^sup>*\<^sup>* w1 w2"
    and ingest: "ingestor_routes e J E (ingestor_handler e getenv' (store_of C True) K) (PostLogs body) c' w2 = (a, w3)"
    and key: "auth_header c' = ''Bearer '' @ raw" "ExtractAPIKeyPrefix raw = Inr (kr_Prefix resp)"
    and soon: "clk e (tick w3) < clk e (tick w) + Hour"
  shows "(a = Failure 401 ''api key revoked'' \<or> a = Failure 429 ''rate limit exceeded'') \<and>
    part (redis w3) = part (redis w2) \<and> db w3 = db w2"
proof -
  have d: "deployment C kspace e A" by (rule deploymentI[OF assms(1,3,4)])
  obtain t where t: "clk e (tick w) \<le> t" "t \<le> clk e (tick w1)"
    and mark: "blocked (kspace (redis w1)) (kr_Prefix resp) (t + Hour)"
    using deployment.revocation_marks[OF d assms(2,5) main rev] by blast
  have m: "marked C kspace e A" using d assms(5) by (intro marked.intro marked_axioms.intro)
  have "marked.revoked_now kspace e (kr_Prefix resp) t w2"
    by (rule resident_steps[OF marked.marker_resident[OF m] assms(1) steps])
       (simp add: marked.revoked_now_def[OF m] mark t(2))
  from marked.marked_refused[OF m assms(1,2) this ingest key] soon t(1) show ?thesis by simp
qed

theorem revocation_takes_effect_witness:
  "\<exists>resp w1 w3. serve system_server R_RevokeAPIKey (system_ctx ''Bearer token'') ingest_world =
      (Success 200 (KeyBody resp), w1) \<and>
    ingestor_routes sample_env sample_codecs ingest_codec
      (ingestor_handler sample_env system_getenv (store_of outside_redis True) outside_kafka)
      (PostLogs (Some ingest_request)) ingest_ctx w1 = (Failure 401 ''api key revoked'', w3) \<and>
    o_part (redis w3) = o_part (redis w1)"
proof -
  obtain resp w1 exp where s: "serve system_server R_RevokeAPIKey (system_ctx ''Bearer token'') ingest_world =
      (Success 200 (KeyBody resp), w1)" and pfx: "kr_Prefix resp = ''ll_bbbbbbbb''" and t1: "tick w1 < 20"
    and mark: "o_keys (redis w1) (revokedKey ''ll_bbbbbbbb'') = Some (RStr ''1'', Some exp)" "100 * Second < exp"
    using system_revokes by blast
  let ?h = "ingestor_handler sample_env system_getenv (store_of outside_redis True) outside_kafka"
  obtain a w3 where i: "ingestor_routes sample_env sample_codecs ingest_codec ?h (PostLogs (Some ingest_request))
      ingest_ctx w1 = (a, w3)" by fastforce
  have key: "auth_header ingest_ctx = ''Bearer '' @ ''ll_bbbbbbbb_1''" by (simp add: ingest_ctx_def)
  have x: "ExtractAPIKeyPrefix ''ll_bbbbbbbb_1'' = Inr (kr_Prefix resp)"
    by (simp add: pfx ExtractAPIKeyPrefix_def HasPrefix_def TrimPrefix_def api_key_consts Let_def numeral_eq_Suc)
  have open_gate: "\<not> lim_enabled (NewLimiter rs (LoadConfig system_getenv))" for rs :: "outside RedisStore option"
    by (simp add: NewLimiter_def LoadConfig_def envBool_def system_getenv_def ParseBool_def)
  have "Resolve sample_env sample_codecs (NewAPIKeyCache system_getenv (store_of outside_redis True) (KeyLookup sample_env))
      ''ll_bbbbbbbb_1'' (w1\<lparr>tick := Suc (tick w1)\<rparr>) =
      (Inl (AuthE APIKeyRevoked), w1\<lparr>tick := Suc (Suc (tick w1))\<rparr>)"
    using mark t1
    by (simp add: Resolve_def x[unfolded pfx] NewAPIKeyCache_def usable_store_of with_client_store_of attempt_def fail_def
        outside_redis_def live_def sample_env_simps duration_defs)
  then have refused: "a = Failure 401 ''api key revoked''" "tick w3 = Suc (Suc (tick w1))"
    using i
    by (auto simp: ingestor_routes_def ingestor_handler_def ungated[OF open_gate] IngestLog_def
        bearerToken_Inr[THEN iffD2, OF conjI, OF key] guard_def)
  have "clk sample_env (tick w3) < clk sample_env (tick ingest_world) + Hour"
    using refused t1 by (simp add: sample_env_simps duration_defs ingest_world_def)
  from revocation_takes_effect[OF out_platform.platform_axioms out_redis.healthy_redis_axioms sample_uuid_law
      sample_system.libs sample_clock system_server_main s rtranclp.rtrancl_refl i key x this]
  have "o_part (redis w3) = o_part (redis w1)" by blast
  then show ?thesis using s i[unfolded refused(1)] by blast
qed

text \<open>
  C32: without Redis: two processes that did not find Redis when they started, whether they had no
  address for it or its ping failed, and whatever their client is, behave exactly alike: the API
  server on every route, the ingestor and the consumer. In particular they do what a process
  without a client does, so none of them asks Redis anything.
\<close>

theorem without_redis:
  assumes "\<not> IsAvailable r" and "\<not> IsAvailable r'"
  shows "(case (api_main e getenv A r, api_main e getenv A r') of
      (Inr S, Inr S') \<Rightarrow> serve S' = serve S
    | (Inl x, Inl y) \<Rightarrow> x = y
    | _ \<Rightarrow> False) \<and>
    ingestor_routes e J E (ingestor_handler e getenv (Some r') K) = ingestor_routes e J E (ingestor_handler e getenv (Some r) K) \<and>
    consumer_loop n e K E (Some r') = consumer_loop n e K E (Some r)"
proof -
  have error: "api_main e getenv A r' = Inl x" if "api_main e getenv A r = Inl x" for x
    using that by (auto simp: api_main_def NewService_def Let_def split: sum.splits option.splits if_splits)
  have loop: "consumer_loop n e K E (Some r') = consumer_loop n e K E (Some r)"
  proof (induction n)
    case (Suc n)
    show ?case
      by (intro ext; unfold consumer_loop.simps consumer_without[OF assms] Suc; rule refl)
  qed (intro ext, simp)
  show ?thesis
  proof (cases "api_main e getenv A r")
    case (Inl x)
    then show ?thesis using error ingestor_without[OF assms] loop by simp
  next
    case (Inr S)
    then show ?thesis using api_without[OF assms Inr] ingestor_without[OF assms] loop by auto
  qed
qed

theorem without_redis_witness:
  "\<exists>S S'. api_main sample_env system_getenv (sample_api_libs :: (outside, nat) api_libs) (ConnectRedis [] outside_redis True) = Inr S \<and>
     api_main sample_env system_getenv sample_api_libs (ConnectRedis ''redis:6379'' outside_redis False) = Inr S' \<and>
     serve S' R_ListServices (system_ctx ''Bearer token'') ingest_world = serve S R_ListServices (system_ctx ''Bearer token'') ingest_world"
proof -
  have off: "\<not> IsAvailable (ConnectRedis [] outside_redis True)" "\<not> IsAvailable (ConnectRedis ''redis:6379'' outside_redis False)"
    by (simp_all add: ConnectRedis_available)
  have "\<exists>S. api_main sample_env system_getenv (sample_api_libs :: (outside, nat) api_libs) r = Inr S" for r
    by (simp add: api_main_def system_getenv_def NewJWTService_def NewService_def Let_def)
  then obtain S S' where S: "api_main sample_env system_getenv (sample_api_libs :: (outside, nat) api_libs) (ConnectRedis [] outside_redis True) = Inr S"
      "api_main sample_env system_getenv (sample_api_libs :: (outside, nat) api_libs) (ConnectRedis ''redis:6379'' outside_redis False) = Inr S'"
    by meson
  then have "serve S' = serve S"
    using without_redis[OF off, where e = sample_env and getenv = system_getenv
        and A = "sample_api_libs :: (outside, nat) api_libs"] by simp
  then show ?thesis using S by metis
qed

end
