(* ===== verification/Stream_Check.thy ===== *)
theory Stream_Check
  imports Sdk Stream
begin

text \<open>
  scripts/ws_stream_check.go: the manual check of the live stream. It opens the stream of a
  service, sends one entry to the ingestor with the service's key, and waits for the entry on the
  stream. The dialer, the connection and the HTTP client are parameters.
\<close>

text \<open>\<open>strings.Contains\<close>\<close>

fun Contains :: "string \<Rightarrow> string \<Rightarrow> bool" where
  "Contains [] sub = (sub = [])"
| "Contains (x # s) sub = (prefix sub (x # s) \<or> Contains s sub)"

lemma Contains_iff: "Contains s sub \<longleftrightarrow> (\<exists>a b. s = a @ sub @ b)"
proof (induction s)
  case (Cons x s)
  have "(\<exists>a b. x # s = a @ sub @ b) \<longleftrightarrow> prefix sub (x # s) \<or> (\<exists>a b. s = a @ sub @ b)"
    by (auto simp: prefix_def Cons_eq_append_conv)
  then show ?case using Cons.IH by simp
qed simp

text \<open>
  \<open>Dial\<close> with a URL and headers, \<open>ReadMessage\<close> within 15 seconds, and \<open>Do\<close>, which gives the status. The
  script reads in a goroutine it starts before it sends; its outcome is looked at after that.
\<close>

record 'r check_lib =
  ck_dial :: "string \<Rightarrow> (string \<times> string) list \<Rightarrow> 'r \<Rightarrow> (string + unit) \<times> 'r"
  ck_read :: "duration \<Rightarrow> 'r \<Rightarrow> (string + string) \<times> 'r"
  ck_do :: "http_request \<Rightarrow> 'r \<Rightarrow> (string + nat) \<times> 'r"

definition check_text :: string where
  "check_text = ''websocket live stream test''"

definition check_request_body :: string where
  "check_request_body =
     ''{'' @ json_string ''severity'' @ '':'' @ json_string ''INFO'' @ '','' @ json_string ''message'' @ '':'' @
     json_string check_text @ '','' @ json_string ''metadata'' @ '':{'' @ json_string ''via'' @ '':'' @
     json_string ''ws-test'' @ ''}}''"

definition stream_url :: "string \<Rightarrow> string \<Rightarrow> string" where
  "stream_url orgID svcID = ''ws://localhost:8080/orgs/'' @ orgID @ ''/services/'' @ svcID @ ''/logs/stream''"

text \<open>The script: an error where it exits with 1. The status of the ingestor is only printed.\<close>

definition ws_stream_check :: "(string \<Rightarrow> string) \<Rightarrow> 'r check_lib \<Rightarrow> ('r, unit) app" where
  "ws_stream_check getenv L =
     (let orgID = getenv ''ORG_ID''; svcID = getenv ''SVC_ID''; token = getenv ''TOKEN''; apiKey = getenv ''API_KEY'' in
      if orgID = [] \<or> svcID = [] \<or> token = [] \<or> apiKey = [] then fail (OtherE ''set ORG_ID, SVC_ID, TOKEN, API_KEY'')
      else
        call (with_kafka (ck_dial L (stream_url orgID svcID) [(''Authorization'', ''Bearer '' @ token)])) (\<lambda>_.
        call (with_kafka (ck_do L
          \<lparr>hr_url = ''http://localhost:8081/v1/logs'',
           hr_headers = [(''Content-Type'', ''application/json''), (''Authorization'', ''Bearer '' @ apiKey)],
           hr_body = check_request_body\<rparr>)) (\<lambda>status.
        call (with_kafka (ck_read L (15 * Second))) (\<lambda>msg.
          if Contains msg check_text then ret () else fail (OtherE ''FAIL: expected message not in payload'')))))"

text \<open>The check passes exactly when the stream brings a message with the text.\<close>

lemma ws_stream_check_passes:
  assumes "ws_stream_check getenv L w = (Inr (), w')"
  shows "\<exists>a b s. ck_read L (15 * Second) s = (Inr (a @ check_text @ b), redis w')"
  using assms
  by (auto simp: ws_stream_check_def Let_def prog_simps with_kafka_def Contains_iff split: if_splits prod.splits sum.splits) blast

end
